(* ===== verification/Prelude.thy ===== *)
theory Prelude
  imports Complex_Main "HOL-Library.Word" "HOL-Library.AList" "HOL-Library.List_Lexorder"
    "HOL-Library.Char_ord"
begin

text \<open>
  Shared vocabulary of the asset-pipeline model (src/art/gen_world.py, gen_items.py,
  gen_characters.py, gen_ui.py): RGBA pixels and images as PIL holds them, the temporary
  directory the generators write into, the Python errors that can escape a per-sheet
  handler, and Python's rendering and parsing of decimal integers (\<open>f"{n}"\<close>, \<open>int(s)\<close>)
  and \<open>str.lower\<close>, which the generated sprite names are built from.
\<close>

named_theorems pipeline_simps "definitions the component proofs unfold together"

section \<open>Pixels and images\<close>

text \<open>An RGBA pixel as PIL's \<open>getdata()\<close> yields it: four 8-bit channels.\<close>

type_synonym rgba = "8 word \<times> 8 word \<times> 8 word \<times> 8 word"

definition alpha :: "rgba \<Rightarrow> 8 word" where
  "alpha p = snd (snd (snd p))"

definition clear_px :: rgba where
  "clear_px = (0, 0, 0, 0)"

text \<open>
  A PIL image in mode RGBA: its size and its pixels, addressed \<open>px img x y\<close> with
  \<open>x\<close> the column and \<open>y\<close> the row, origin top-left. Pixels outside the size are
  never read by the model.
\<close>

record image =
  img_w :: nat
  img_h :: nat
  px :: "nat \<Rightarrow> nat \<Rightarrow> rgba"

text \<open>\<open>Image.new('RGBA', (w, h), colour)\<close>.\<close>

definition new_image :: "nat \<Rightarrow> nat \<Rightarrow> rgba \<Rightarrow> image" where
  "new_image w h c = \<lparr>img_w = w, img_h = h, px = (\<lambda>_ _. c)\<rparr>"

text \<open>The orange of the debug tile, \<open>(255, 165, 0, 255)\<close>, fully opaque.\<close>

definition debug_colour :: rgba where
  "debug_colour = (255, 165, 0, 255)"

text \<open>
  The temporary directory (\<open>tempfile.TemporaryDirectory\<close>) as an association list
  from file name to the image saved under it. \<open>tile.save(path)\<close> is
  \<open>AList.update\<close>: a second save under the same name overwrites the first.
\<close>

type_synonym temp_dir = "(string \<times> image) list"

definition save :: "string \<Rightarrow> image \<Rightarrow> temp_dir \<Rightarrow> temp_dir" where
  "save fn img d = AList.update fn img d"

section \<open>Python errors\<close>

text \<open>
  The exceptions the modelled code can raise. \<open>ZeroDivisionError\<close>: the ratio of an
  empty tile in \<open>is_tile_transparent\<close>; \<open>UnboundLocalError\<close>: the block loop of
  \<open>process_floor_wall_png\<close> for a tile type without a pattern table; \<open>ValueError\<close>:
  \<open>int()\<close> on a name part that is not a number in \<open>collect_sprite_pairs\<close>;
  \<open>NameError\<close>: the undefined \<open>limit_msg\<close> of \<open>process_character_png\<close>;
  \<open>UnreadableImage\<close>: \<open>Image.open\<close> on a file PIL cannot decode.
\<close>

datatype py_error = ZeroDivisionError | UnboundLocalError | NameError | ValueError | UnreadableImage

section \<open>Decimal integers in names\<close>

definition digit_char :: "nat \<Rightarrow> char" where
  "digit_char d = char_of (48 + d)"

definition is_digit :: "char \<Rightarrow> bool" where
  "is_digit c \<longleftrightarrow> CHR ''0'' \<le> c \<and> c \<le> CHR ''9''"

definition digit_val :: "char \<Rightarrow> nat" where
  "digit_val c = of_char c - 48"

text \<open>\<open>f"{n}"\<close> and \<open>str(n)\<close> for a non-negative Python int.\<close>

fun show_nat :: "nat \<Rightarrow> string" where
  "show_nat n = (if n < 10 then [digit_char n] else show_nat (n div 10) @ [digit_char (n mod 10)])"

declare show_nat.simps [simp del]

definition digits_val :: "string \<Rightarrow> nat" where
  "digits_val s = foldl (\<lambda>acc c. 10 * acc + digit_val c) 0 s"

text \<open>
  Python's \<open>int(s)\<close> on a string that can contain no minus sign (a part of a name split
  at \<open>'-'\<close>): surrounding ASCII whitespace is stripped, an optional \<open>'+'\<close>, then one
  or more ASCII digits; anything else raises \<open>ValueError\<close>. Underscore separators and
  non-ASCII digits, which \<open>int\<close> also accepts, are not modelled.
\<close>

definition is_space :: "char \<Rightarrow> bool" where
  "is_space c \<longleftrightarrow> c \<in> set [CHR '' '', CHR 0x09, CHR 0x0A, CHR 0x0B, CHR 0x0C, CHR 0x0D]"

definition py_strip :: "string \<Rightarrow> string" where
  "py_strip s = rev (dropWhile is_space (rev (dropWhile is_space s)))"

definition py_int :: "string \<Rightarrow> py_error + nat" where
  "py_int s =
     (let t = py_strip s;
          u = (case t of c # r \<Rightarrow> if c = CHR ''+'' then r else t | [] \<Rightarrow> t)
      in if u \<noteq> [] \<and> list_all is_digit u then Inr (digits_val u) else Inl ValueError)"

text \<open>\<open>str.lower\<close> on ASCII letters; other characters are left as they are.\<close>

definition lower_char :: "char \<Rightarrow> char" where
  "lower_char c = (if CHR ''A'' \<le> c \<and> c \<le> CHR ''Z'' then char_of (of_char c + 32 :: nat) else c)"

definition py_lower :: "string \<Rightarrow> string" where
  "py_lower s = map lower_char s"

text \<open>\<open>s.split('-')\<close>: the parts between hyphens, empty parts kept.\<close>

fun split_on :: "char \<Rightarrow> string \<Rightarrow> string list" where
  "split_on d [] = [[]]"
| "split_on d (c # cs) =
     (if c = d then [] # split_on d cs
      else (case split_on d cs of p # ps \<Rightarrow> (c # p) # ps | [] \<Rightarrow> [[c]]))"

section \<open>Generic lemmas\<close>

lemma digit_char_is_digit [simp]: "d < 10 \<Longrightarrow> is_digit (digit_char d)"
  by (simp add: digit_char_def is_digit_def less_eq_char_def)

lemma digit_val_digit_char [simp]: "d < 10 \<Longrightarrow> digit_val (digit_char d) = d"
  by (simp add: digit_char_def digit_val_def)

lemma show_nat_digits [simp]: "list_all is_digit (show_nat n)"
proof (induction n rule: show_nat.induct)
  case (1 n)
  then show ?case by (subst show_nat.simps) simp
qed

lemma show_nat_nonempty [simp]: "show_nat n \<noteq> []"
  by (subst show_nat.simps) simp

lemma digits_val_snoc: "digits_val (s @ [c]) = 10 * digits_val s + digit_val c"
  by (simp add: digits_val_def)

text \<open>Rendering a number and reading it back gives the number: the round trip of names.\<close>

lemma digits_val_show_nat [simp]: "digits_val (show_nat n) = n"
proof (induction n rule: show_nat.induct)
  case (1 n)
  show ?case
  proof (cases "n < 10")
    case True
    then show ?thesis by (subst show_nat.simps) (simp add: digits_val_def)
  next
    case False
    with "1.IH" have "digits_val (show_nat (n div 10)) = n div 10" by simp
    with False show ?thesis by (subst show_nat.simps) (simp add: digits_val_snoc)
  qed
qed

lemma show_nat_inj [simp]: "show_nat m = show_nat n \<longleftrightarrow> m = n"
  by (metis digits_val_show_nat)

lemma show_nat_no_char:
  "\<not> is_digit c \<Longrightarrow> c \<notin> set (show_nat n)"
  using show_nat_digits [of n] by (auto simp: list_all_iff)

lemma hyphen_not_digit [simp]: "\<not> is_digit CHR ''-''"
  by (simp add: is_digit_def)

lemma split_on_nonempty [simp]: "split_on d s \<noteq> []"
  by (cases s) (auto split: list.splits)

lemma split_on_no_delim: "d \<notin> set s \<Longrightarrow> split_on d s = [s]"
  by (induction s) auto

lemma split_on_append_delim:
  "d \<notin> set s \<Longrightarrow> split_on d (s @ d # t) = s # split_on d t"
  by (induction s) auto

lemma split_on_delim_append: "split_on d (s @ d # t) = split_on d s @ split_on d t"
  by (induction s) (auto split: list.splits)

lemma py_int_error: "py_int s = Inl e \<Longrightarrow> e = ValueError"
  by (simp add: py_int_def Let_def split: if_splits)

lemma new_image_sel [simp]:
  "img_w (new_image w h c) = w" "img_h (new_image w h c) = h" "px (new_image w h c) x y = c"
  by (simp_all add: new_image_def)

text \<open>Evaluating generated names and ranges on concrete inputs.\<close>

lemmas name_eval = show_nat.simps digit_char_def char_of_def bit_simps upt_rec

lemma map_of_save [simp]: "map_of (save fn img d) = (map_of d)(fn \<mapsto> img)"
  by (simp add: save_def update_conv')

lemma set_update_subset: "set (AList.update k v d) \<subseteq> insert (k, v) (set d)"
  by (induction d) auto

lemma sort_key_fst_distinct: "distinct (map fst d) \<Longrightarrow> distinct (map fst (sort_key fst d))"
proof -
  assume "distinct (map fst d)"
  then have "card (set (map fst d)) = length (map fst d)" by (rule distinct_card)
  then show ?thesis by (intro card_distinct) (simp add: set_sort length_sort)
qed

lemma map_of_rev_unique:
  "(k, v) \<in> set xs \<Longrightarrow> (\<And>v'. (k, v') \<in> set xs \<Longrightarrow> v' = v) \<Longrightarrow> map_of (rev xs) k = Some v"
proof -
  assume mem: "(k, v) \<in> set xs" and uniq: "\<And>v'. (k, v') \<in> set xs \<Longrightarrow> v' = v"
  from mem have "k \<in> fst ` set (rev xs)" by force
  then have "map_of (rev xs) k \<noteq> None" by (simp add: map_of_eq_None_iff)
  then obtain v' where "map_of (rev xs) k = Some v'" by blast
  moreover from this have "(k, v') \<in> set xs" by (auto dest: map_of_SomeD)
  ultimately show ?thesis using uniq by simp
qed

end
