(* ===== verification/Slicer.thy ===== *)
theory Slicer
  imports Prelude
begin

text \<open>
  TileSlicer: cutting a source sheet into \<open>TILE_SIZE\<close> cells, the transparency test
  \<open>is_tile_transparent\<close> (identical in gen_world.py, gen_items.py and
  gen_characters.py), and the row-major scan with a running sprite counter that
  \<open>process_ground_png\<close>, \<open>process_decor_png\<close>, \<open>process_tile_png\<close>,
  \<open>process_doors_png\<close>, \<open>process_item_png\<close> and \<open>process_character_png\<close> all
  repeat. The scan is written once, \<open>scan_counted\<close>, taking the naming rule and the
  used-name test as parameters; each handler instantiates it in its own theory.
\<close>

section \<open>Constants and cells\<close>

definition TILE_SIZE :: nat where
  "TILE_SIZE = 16"

text \<open>
  \<open>TRANSPARENCY_THRESHOLD = 0.1\<close>. The Python float 0.1 is not exactly 1/10, but the
  ratio it is compared with has denominator 256 (a 16 by 16 cell), and no fraction
  \<open>k/256\<close> lies between 1/10 and the float nearest to it, so the rational 1/10 decides
  every comparison the code makes exactly as the float does.
\<close>

definition TRANSPARENCY_THRESHOLD :: rat where
  "TRANSPARENCY_THRESHOLD = 1 / 10"

text \<open>
  \<open>image.crop((left, top, right, bottom))\<close>: an image of the box's size whose pixels
  are the source's, and transparent black where the box leaves the source.
\<close>

definition crop :: "image \<Rightarrow> nat \<times> nat \<times> nat \<times> nat \<Rightarrow> image" where
  "crop img box =
     (case box of (l, t, r, b) \<Rightarrow>
       \<lparr>img_w = r - l, img_h = b - t,
        px = (\<lambda>x y. if l + x < img_w img \<and> t + y < img_h img then px img (l + x) (t + y)
                     else clear_px)\<rparr>)"

text \<open>The cell at \<open>(row, col)\<close>, as every handler crops it.\<close>

definition tile_at :: "image \<Rightarrow> nat \<Rightarrow> nat \<Rightarrow> image" where
  "tile_at img row col =
     (let left = col * TILE_SIZE; top = row * TILE_SIZE
      in crop img (left, top, left + TILE_SIZE, top + TILE_SIZE))"

text \<open>\<open>list(image_tile.getdata())\<close>: the pixels row by row.\<close>

definition getdata :: "image \<Rightarrow> rgba list" where
  "getdata img = [px img x y. y \<leftarrow> [0..<img_h img], x \<leftarrow> [0..<img_w img]]"

definition non_transparent_count :: "image \<Rightarrow> nat" where
  "non_transparent_count img = length (filter (\<lambda>p. 0 < alpha p) (getdata img))"

text \<open>
  \<open>is_tile_transparent\<close>: true when fewer than a tenth of the pixels have non-zero
  alpha. Python divides by the pixel count, so an empty image raises
  \<open>ZeroDivisionError\<close>.
\<close>

definition is_tile_transparent :: "image \<Rightarrow> py_error + bool" where
  "is_tile_transparent img =
     (let pixels = getdata img;
          non_transparent_count = length (filter (\<lambda>p. 0 < alpha p) pixels);
          total_pixels = length pixels
      in if total_pixels = 0 then Inl ZeroDivisionError
         else Inr (of_nat non_transparent_count / of_nat total_pixels < TRANSPARENCY_THRESHOLD))"

text \<open>\<open>cols = width // TILE_SIZE\<close>, \<open>rows = height // TILE_SIZE\<close>.\<close>

definition grid_cols :: "image \<Rightarrow> nat" where
  "grid_cols img = img_w img div TILE_SIZE"

definition grid_rows :: "image \<Rightarrow> nat" where
  "grid_rows img = img_h img div TILE_SIZE"

text \<open>\<open>for row in rs: for col in range(cols)\<close>: the cells in row-major order.\<close>

definition grid_cells :: "nat list \<Rightarrow> nat \<Rightarrow> (nat \<times> nat) list" where
  "grid_cells rs cols = [(row, col). row \<leftarrow> rs, col \<leftarrow> [0..<cols]]"

section \<open>The counted scan\<close>

text \<open>
  The loop state of the counted handlers: \<open>sprite_count\<close> and the temporary directory
  the loop saves into. (\<open>saved_count\<close> only feeds a message and is not modelled.)
\<close>

record scan_state =
  sprite_count :: nat
  tmp :: temp_dir

text \<open>
  One pass of the loop body over the remaining cells. A transparent cell and an unused
  name both only advance the counter; a kept cell is saved as \<open>name.png\<close> and advances
  it too. An exception stops the loop with the state reached so far (files already
  saved stay in the directory).
\<close>

fun scan_counted ::
  "(nat \<Rightarrow> string) \<Rightarrow> (string \<Rightarrow> bool) \<Rightarrow> image \<Rightarrow> (nat \<times> nat) list \<Rightarrow> scan_state
     \<Rightarrow> py_error option \<times> scan_state" where
  "scan_counted nm keep img [] s = (None, s)"
| "scan_counted nm keep img ((row, col) # cs) s =
     (let tile = tile_at img row col
      in case is_tile_transparent tile of
           Inl e \<Rightarrow> (Some e, s)
         | Inr True \<Rightarrow> scan_counted nm keep img cs (s\<lparr>sprite_count := Suc (sprite_count s)\<rparr>)
         | Inr False \<Rightarrow>
             (if \<not> keep (nm (sprite_count s))
              then scan_counted nm keep img cs (s\<lparr>sprite_count := Suc (sprite_count s)\<rparr>)
              else scan_counted nm keep img cs
                     (s\<lparr>sprite_count := Suc (sprite_count s),
                        tmp := save (nm (sprite_count s) @ ''.png'') tile (tmp s)\<rparr>)))"

text \<open>
  The used-name test of \<open>process_decor_png\<close>, \<open>process_tile_png\<close> and
  \<open>process_doors_png\<close>: \<open>used_tile_names is not None and name not in used_tile_names\<close>
  skips the cell.
\<close>

definition used_keep :: "string set option \<Rightarrow> string \<Rightarrow> bool" where
  "used_keep used name = (case used of None \<Rightarrow> True | Some u \<Rightarrow> name \<in> u)"

text \<open>What a handler's \<open>try ... except Exception\<close> reports for one sheet.\<close>

datatype sheet_outcome = Processed | Skipped py_error

definition finish_sheet :: "py_error option \<times> scan_state \<Rightarrow> temp_dir \<times> sheet_outcome" where
  "finish_sheet r =
     (case r of (None, s) \<Rightarrow> (tmp s, Processed) | (Some e, s) \<Rightarrow> (tmp s, Skipped e))"

text \<open>A source sheet as \<open>Image.open\<close> sees it: \<open>None\<close> when it cannot be decoded.\<close>

type_synonym sheet = "image option"


section \<open>Reference description of the counted scan\<close>

text \<open>
  What the counted scan promises, without the loop: the \<open>k\<close>-th cell visited gets
  counter value \<open>c0 + k\<close>; the cells that are not transparent and whose name passes the
  used-name test are saved, in visiting order, under \<open>name.png\<close>.
\<close>

definition keeps_cell ::
  "(nat \<Rightarrow> string) \<Rightarrow> (string \<Rightarrow> bool) \<Rightarrow> image \<Rightarrow> nat \<times> nat \<times> nat \<Rightarrow> bool" where
  "keeps_cell nm keep img kc =
     (case kc of (k, row, col) \<Rightarrow>
        is_tile_transparent (tile_at img row col) = Inr False \<and> keep (nm k))"

definition counted_saves ::
  "(nat \<Rightarrow> string) \<Rightarrow> (string \<Rightarrow> bool) \<Rightarrow> image \<Rightarrow> nat \<Rightarrow> (nat \<times> nat) list
     \<Rightarrow> (string \<times> image) list" where
  "counted_saves nm keep img c0 cs =
     map (\<lambda>(k, row, col). (nm k @ ''.png'', tile_at img row col))
       (filter (keeps_cell nm keep img) (zip [c0..<c0 + length cs] cs))"

definition save_all :: "(string \<times> image) list \<Rightarrow> temp_dir \<Rightarrow> temp_dir" where
  "save_all xs d = foldl (\<lambda>d (fn, t). save fn t d) d xs"

section \<open>Lemmas\<close>

subsection \<open>Cells and the transparency test\<close>
lemma length_getdata: "length (getdata img) = img_w img * img_h img"
  by (simp add: getdata_def length_concat sum_list_triv comp_def)
lemma getdata_Nil_iff: "getdata img = [] \<longleftrightarrow> img_w img * img_h img = 0"
  by (metis length_0_conv length_getdata)
lemma tile_at_size [simp]: "img_w (tile_at img r c) = TILE_SIZE" "img_h (tile_at img r c) = TILE_SIZE"
  by (simp_all add: tile_at_def crop_def Let_def)
lemma is_tile_transparent_iff:
  "0 < img_w img * img_h img \<Longrightarrow>
   is_tile_transparent img = Inr (10 * non_transparent_count img < img_w img * img_h img)"
proof -
  assume pos: "0 < img_w img * img_h img"
  let ?n = "non_transparent_count img" and ?t = "img_w img * img_h img"
  have "(of_nat ?n / of_nat ?t < (1/10::rat)) \<longleftrightarrow> of_nat (10 * ?n) < (of_nat ?t :: rat)"
    using pos by (simp add: divide_less_eq field_simps)
  also have "\<dots> \<longleftrightarrow> 10 * ?n < ?t" by (simp only: of_nat_less_iff)
  finally have "(of_nat ?n / of_nat ?t < (1/10::rat)) \<longleftrightarrow> 10 * ?n < ?t" .
  with pos show ?thesis
    by (simp add: is_tile_transparent_def Let_def length_getdata TRANSPARENCY_THRESHOLD_def
        non_transparent_count_def getdata_Nil_iff)
qed
lemma is_tile_transparent_tile_at:
  "is_tile_transparent (tile_at img r c) = Inr (10 * non_transparent_count (tile_at img r c) < 256)"
  by (simp add: is_tile_transparent_iff TILE_SIZE_def)

subsection \<open>The counted scan implements its reference description\<close>

text \<open>
  The loop never raises on cells cut by \<open>tile_at\<close> (they are never empty), advances the
  counter once per cell, and leaves the directory as saving \<open>counted_saves\<close> in order.
\<close>

lemma scan_counted_spec:
  "scan_counted nm keep img cs s =
     (None, s\<lparr>sprite_count := sprite_count s + length cs,
              tmp := save_all (counted_saves nm keep img (sprite_count s) cs) (tmp s)\<rparr>)"
proof (induction cs arbitrary: s)
  case Nil
  then show ?case by (simp add: counted_saves_def save_all_def)
next
  case (Cons cell cs)
  obtain row col where cell: "cell = (row, col)" by fastforce
  have z: "zip [sprite_count s..<sprite_count s + length (cell # cs)] (cell # cs) =
      (sprite_count s, cell) # zip [Suc (sprite_count s)..<Suc (sprite_count s) + length cs] cs"
    by (simp add: upt_conv_Cons del: upt_Suc)
  show ?case
    using Cons.IH unfolding counted_saves_def z
    by (simp add: cell is_tile_transparent_tile_at counted_saves_def save_all_def
        keeps_cell_def Let_def del: upt_Suc split: bool.split)
qed
lemma map_of_save_all: "map_of (save_all xs d) = map_of d ++ map_of (rev xs)"
proof (induction xs rule: rev_induct)
  case Nil
  then show ?case by (simp add: save_all_def)
next
  case (snoc x xs)
  then show ?case by (cases x) (simp add: save_all_def map_add_def fun_eq_iff split: option.splits)
qed

lemma in_set_zip_upt:
  "(k, x) \<in> set (zip [a..<a + length xs] xs) \<longleftrightarrow> a \<le> k \<and> k < a + length xs \<and> x = xs ! (k - a)"
proof
  assume "(k, x) \<in> set (zip [a..<a + length xs] xs)"
  then obtain i where "i < length xs" "k = a + i" "x = xs ! i"
    by (auto simp: in_set_zip)
  then show "a \<le> k \<and> k < a + length xs \<and> x = xs ! (k - a)" by simp
next
  assume "a \<le> k \<and> k < a + length xs \<and> x = xs ! (k - a)"
  then show "(k, x) \<in> set (zip [a..<a + length xs] xs)"
    by (auto simp: in_set_zip intro!: exI [of _ "k - a"])
qed
lemma scan_counted_saved:
  assumes "map_of (tmp (snd (scan_counted nm keep img cs s))) fn = Some t"
  shows "map_of (tmp s) fn = Some t \<or>
    (\<exists>k row col. (k, row, col) \<in> set (zip [sprite_count s..<sprite_count s + length cs] cs) \<and>
       is_tile_transparent (tile_at img row col) = Inr False \<and> keep (nm k) \<and>
       fn = nm k @ ''.png'' \<and> t = tile_at img row col)"
proof (cases "map_of (rev (counted_saves nm keep img (sprite_count s) cs)) fn")
  case None
  with assms show ?thesis by (simp add: scan_counted_spec map_of_save_all map_add_def)
next
  case (Some t')
  then have mem: "(fn, t') \<in> set (counted_saves nm keep img (sprite_count s) cs)"
    by (auto dest: map_of_SomeD)
  from Some assms have "t' = t"
    by (simp add: scan_counted_spec map_of_save_all)
  with mem show ?thesis
    unfolding counted_saves_def keeps_cell_def by fastforce
qed
text \<open>A transparent cell is never saved under its name (names injective in the counter).\<close>

lemma scan_counted_transparent_never_saved:
  assumes "inj nm"
    and "(k, row, col) \<in> set (zip [sprite_count s..<sprite_count s + length cs] cs)"
    and "is_tile_transparent (tile_at img row col) = Inr True"
    and "map_of (tmp s) (nm k @ ''.png'') = None"
  shows "map_of (tmp (snd (scan_counted nm keep img cs s))) (nm k @ ''.png'') = None"
proof (rule ccontr)
  assume "map_of (tmp (snd (scan_counted nm keep img cs s))) (nm k @ ''.png'') \<noteq> None"
  then obtain t where "map_of (tmp (snd (scan_counted nm keep img cs s))) (nm k @ ''.png'') = Some t"
    by blast
  from scan_counted_saved [OF this] assms(4) obtain k' row' col' where
    k': "(k', row', col') \<in> set (zip [sprite_count s..<sprite_count s + length cs] cs)"
    and nt: "is_tile_transparent (tile_at img row' col') = Inr False"
    and eq: "nm k @ ''.png'' = nm k' @ ''.png''" by auto
  from eq assms(1) have "k = k'" by (simp add: inj_eq)
  with k' assms(2) have "(row, col) = (row', col')"
    by (simp add: in_set_zip_upt)
  with nt assms(3) show False by simp
qed
subsection \<open>Evaluating the test on uniform images\<close>

lemma set_getdata: "set (getdata img) = {px img x y | x y. x < img_w img \<and> y < img_h img}"
  by (force simp: getdata_def)
lemma non_transparent_count_all:
  "(\<And>x y. x < img_w img \<Longrightarrow> y < img_h img \<Longrightarrow> 0 < alpha (px img x y)) \<Longrightarrow>
   non_transparent_count img = img_w img * img_h img"
  unfolding non_transparent_count_def
  by (subst filter_True) (auto simp: set_getdata length_getdata)
lemma non_transparent_count_none:
  "(\<And>x y. x < img_w img \<Longrightarrow> y < img_h img \<Longrightarrow> alpha (px img x y) = 0) \<Longrightarrow>
   non_transparent_count img = 0"
  unfolding non_transparent_count_def
  by (subst filter_False) (auto simp: set_getdata)
lemma px_tile_at_new_image:
  "x < TILE_SIZE \<Longrightarrow> y < TILE_SIZE \<Longrightarrow> Suc col * TILE_SIZE \<le> w \<Longrightarrow> Suc row * TILE_SIZE \<le> h \<Longrightarrow>
   px (tile_at (new_image w h c) row col) x y = c"
  by (simp add: tile_at_def crop_def new_image_def Let_def)
lemma is_tile_transparent_new_image:
  assumes "Suc col * TILE_SIZE \<le> w" "Suc row * TILE_SIZE \<le> h"
  shows "is_tile_transparent (tile_at (new_image w h c) row col) = Inr (alpha c = 0)"
proof (cases "alpha c = 0")
  case True
  then have "non_transparent_count (tile_at (new_image w h c) row col) = 0"
    using assms by (intro non_transparent_count_none) (simp add: px_tile_at_new_image)
  with True show ?thesis by (simp add: is_tile_transparent_tile_at)
next
  case False
  then have "non_transparent_count (tile_at (new_image w h c) row col) = 256"
    using assms by (subst non_transparent_count_all) (simp_all add: px_tile_at_new_image TILE_SIZE_def word_gt_0)
  with False show ?thesis by (simp add: is_tile_transparent_tile_at)
qed
end
