(* ===== verification/Patterns.thy ===== *)
theory Patterns
  imports Slicer
begin

text \<open>
  PatternClassifier: the wall and floor handler \<open>process_floor_wall_png\<close> of
  src/art/gen_world.py. A sheet below its first three rows is read as 7 by 3 blocks of
  cells; each cell position inside a block has a connectivity tag in a fixed table
  (\<open>get_pattern_map_for_tile_type\<close>, repeated inline in the block loop), and a kept
  cell is saved as \<open>{tile_type}-{block_idx + 1}-{tag}.png\<close>. Positions without a tag
  are dropped. With a used-name set only blocks that have at least one used name are
  processed, otherwise the first seven blocks.
\<close>

type_synonym pattern_map = "((nat \<times> nat) \<times> string) list"

section \<open>The tag tables\<close>

text \<open>\<open>get_pattern_map_for_tile_type\<close>: keys are \<open>(local_col, local_row)\<close>.\<close>

definition get_pattern_map_for_tile_type :: "string \<Rightarrow> pattern_map" where
  "get_pattern_map_for_tile_type tile_type =
     (if tile_type = ''wall'' then
        [((0, 0), ''se''), ((1, 0), ''ew''), ((2, 0), ''sw''),
         ((3, 0), ''lone''), ((4, 0), ''sew''),
         ((0, 1), ''ns''), ((1, 1), ''n''),
         ((3, 1), ''nse''), ((4, 1), ''nsew''), ((5, 1), ''nsw''),
         ((0, 2), ''ne''), ((2, 2), ''nw''),
         ((4, 2), ''new'')]
      else if tile_type = ''floor'' then
        [((0, 0), ''se''), ((1, 0), ''sew''), ((2, 0), ''sw''),
         ((3, 0), ''s''), ((5, 0), ''lone''),
         ((0, 1), ''nse''), ((1, 1), ''nsew''), ((2, 1), ''nsw''), ((3, 1), ''ns''),
         ((4, 1), ''e''), ((5, 1), ''ew''), ((6, 1), ''w''),
         ((0, 2), ''ne''), ((1, 2), ''new''), ((2, 2), ''nw''),
         ((3, 2), ''n'')]
      else [])"

text \<open>
  The block loop assigns \<open>pattern_map\<close> again from its own literals for
  \<open>"wall"\<close> and \<open>"floor"\<close> and leaves it as it was for any other type.
  The local variable is \<open>None\<close> while unbound.
\<close>

definition block_pattern_map :: "string \<Rightarrow> pattern_map option \<Rightarrow> pattern_map option" where
  "block_pattern_map tile_type pm =
     (if tile_type = ''wall'' then
        Some [((0, 0), ''se''), ((1, 0), ''ew''), ((2, 0), ''sw''),
              ((3, 0), ''lone''), ((4, 0), ''sew''),
              ((0, 1), ''ns''), ((1, 1), ''n''),
              ((3, 1), ''nse''), ((4, 1), ''nsew''), ((5, 1), ''nsw''),
              ((0, 2), ''ne''), ((2, 2), ''nw''),
              ((4, 2), ''new'')]
      else if tile_type = ''floor'' then
        Some [((0, 0), ''se''), ((1, 0), ''sew''), ((2, 0), ''sw''),
              ((3, 0), ''s''), ((5, 0), ''lone''),
              ((0, 1), ''nse''), ((1, 1), ''nsew''), ((2, 1), ''nsw''), ((3, 1), ''ns''),
              ((4, 1), ''e''), ((5, 1), ''ew''), ((6, 1), ''w''),
              ((0, 2), ''ne''), ((1, 2), ''new''), ((2, 2), ''nw''),
              ((3, 2), ''n'')]
      else pm)"

text \<open>\<open>pattern_map.get((local_col, local_row), "unknown")\<close>.\<close>

definition pattern_get :: "pattern_map \<Rightarrow> nat \<times> nat \<Rightarrow> string" where
  "pattern_get m k = (case map_of m k of Some p \<Rightarrow> p | None \<Rightarrow> ''unknown'')"

section \<open>Block geometry and selection\<close>

definition SET_THIS_TO_FALSE_TO_GET_ALL_TILES :: bool where
  "SET_THIS_TO_FALSE_TO_GET_ALL_TILES = True"

text \<open>\<open>for local_row in range(3): for local_col in range(7)\<close>.\<close>

definition local_cells :: "(nat \<times> nat) list" where
  "local_cells = [(local_row, local_col). local_row \<leftarrow> [0..<3], local_col \<leftarrow> [0..<7]]"

text \<open>
  \<open>total_blocks = (available_rows // 3) * blocks_per_row\<close> with
  \<open>available_rows = rows - 3\<close>, a Python int that is negative for sheets of fewer
  than three rows (the range over it is then empty).
\<close>

definition total_blocks :: "nat \<Rightarrow> nat \<Rightarrow> int" where
  "total_blocks rows cols = ((int rows - 3) div 3) * int (cols div 7)"

text \<open>\<open>block_row\<close> and \<open>block_col\<close> of block \<open>block_idx\<close> (lines 240-241).\<close>

definition block_row :: "nat \<Rightarrow> nat \<Rightarrow> nat" where
  "block_row blocks_per_row block_idx = (block_idx div blocks_per_row) * 3 + 3"

definition block_col :: "nat \<Rightarrow> nat \<Rightarrow> nat" where
  "block_col blocks_per_row block_idx = (block_idx mod blocks_per_row) * 7"

text \<open>The block-used test of the selection loop (lines 210-227).\<close>

definition block_used :: "string \<Rightarrow> string set \<Rightarrow> nat \<Rightarrow> bool" where
  "block_used tile_type used block_idx =
     list_ex (\<lambda>(local_row, local_col).
        let pattern = pattern_get (get_pattern_map_for_tile_type tile_type) (local_col, local_row)
        in pattern \<noteq> ''unknown'' \<and> pattern \<noteq> ''none'' \<and>
           tile_type @ ''-'' @ show_nat (block_idx + 1) @ ''-'' @ pattern \<in> used)
       local_cells"

text \<open>
  \<open>blocks_to_process\<close>, together with the binding of \<open>pattern_map\<close> the selection
  loop leaves behind (it is assigned in every iteration of the used-name loop).
\<close>

definition select_blocks ::
  "string \<Rightarrow> string set option \<Rightarrow> int \<Rightarrow> nat list \<times> pattern_map option" where
  "select_blocks tile_type used n_blocks =
     (case used of
        Some u \<Rightarrow> (filter (block_used tile_type u) [0..<nat n_blocks],
                   if 0 < n_blocks then Some (get_pattern_map_for_tile_type tile_type) else None)
      | None \<Rightarrow>
          if SET_THIS_TO_FALSE_TO_GET_ALL_TILES then ([0..<nat (min 7 n_blocks)], None)
          else ([0..<nat n_blocks], None))"

text \<open>
  The binding of \<open>pattern_map\<close> is either absent or the table of the tile type: the
  invariant of the block loop.
\<close>

definition table_bound :: "string \<Rightarrow> pattern_map option \<Rightarrow> bool" where
  "table_bound tt pm \<longleftrightarrow> pm = None \<or> pm = Some (get_pattern_map_for_tile_type tt)"

section \<open>Extraction\<close>

text \<open>
  The cell loop of one block (lines 277-314): cells outside the grid are skipped, then
  transparent cells, then cells whose tag is \<open>"unknown"\<close> or \<open>"none"\<close>; the rest are
  saved as \<open>{block_name}-{pattern}.png\<close>. Reading an unbound \<open>pattern_map\<close> raises.
\<close>

fun scan_block ::
  "string \<Rightarrow> pattern_map option \<Rightarrow> image \<Rightarrow> nat \<Rightarrow> nat \<Rightarrow> nat \<Rightarrow> nat \<Rightarrow> (nat \<times> nat) list
     \<Rightarrow> temp_dir \<Rightarrow> py_error option \<times> temp_dir" where
  "scan_block block_name pm img rows cols brow bcol [] d = (None, d)"
| "scan_block block_name pm img rows cols brow bcol ((local_row, local_col) # ls) d =
     (let abs_row = brow + local_row; abs_col = bcol + local_col
      in if rows \<le> abs_row \<or> cols \<le> abs_col
         then scan_block block_name pm img rows cols brow bcol ls d
         else
           (let tile = tile_at img abs_row abs_col
            in case is_tile_transparent tile of
                 Inl e \<Rightarrow> (Some e, d)
               | Inr True \<Rightarrow> scan_block block_name pm img rows cols brow bcol ls d
               | Inr False \<Rightarrow>
                   (case pm of
                      None \<Rightarrow> (Some UnboundLocalError, d)
                    | Some m \<Rightarrow>
                        (let pattern = pattern_get m (local_col, local_row)
                         in if pattern = ''none'' \<or> pattern = ''unknown''
                            then scan_block block_name pm img rows cols brow bcol ls d
                            else scan_block block_name pm img rows cols brow bcol ls
                                   (save (block_name @ ''-'' @ pattern @ ''.png'') tile d)))))"

text \<open>The block loop (lines 238-314).\<close>

fun scan_blocks ::
  "string \<Rightarrow> pattern_map option \<Rightarrow> image \<Rightarrow> nat \<Rightarrow> nat \<Rightarrow> nat \<Rightarrow> nat list \<Rightarrow> temp_dir
     \<Rightarrow> py_error option \<times> temp_dir" where
  "scan_blocks tile_type pm img rows cols blocks_per_row [] d = (None, d)"
| "scan_blocks tile_type pm img rows cols blocks_per_row (block_idx # bs) d =
     (let block_name = tile_type @ ''-'' @ show_nat (block_idx + 1);
          pm' = block_pattern_map tile_type pm
      in case scan_block block_name pm' img rows cols (block_row blocks_per_row block_idx)
                (block_col blocks_per_row block_idx) local_cells d of
           (Some e, d') \<Rightarrow> (Some e, d')
         | (None, d') \<Rightarrow> scan_blocks tile_type pm' img rows cols blocks_per_row bs d')"

text \<open>\<open>process_floor_wall_png(png_path, temp_dir, tile_type, used_tile_names)\<close>.\<close>

definition process_floor_wall_png ::
  "sheet \<Rightarrow> temp_dir \<Rightarrow> string \<Rightarrow> string set option \<Rightarrow> temp_dir \<times> sheet_outcome" where
  "process_floor_wall_png sh d tile_type used =
     (case sh of
        None \<Rightarrow> (d, Skipped UnreadableImage)
      | Some img \<Rightarrow>
          (let cols = grid_cols img; rows = grid_rows img;
               blocks_per_row = cols div 7;
               (blocks, pm) = select_blocks tile_type used (total_blocks rows cols)
           in case scan_blocks tile_type pm img rows cols blocks_per_row blocks d of
                (None, d') \<Rightarrow> (d', Processed)
              | (Some e, d') \<Rightarrow> (d', Skipped e)))"

text \<open>
  What the block loop promises, without the loop: for each selected block in order and
  each cell of the block in row-major order, a cell inside the grid, not transparent and
  with a real tag is saved under \<open>{block_name}-{tag}.png\<close>.
\<close>

definition block_cell_saves ::
  "string \<Rightarrow> pattern_map \<Rightarrow> image \<Rightarrow> nat \<Rightarrow> nat \<Rightarrow> nat \<Rightarrow> nat \<Rightarrow> (nat \<times> nat) list
     \<Rightarrow> (string \<times> image) list" where
  "block_cell_saves bn m img rows cols brow bcol ls =
     [(bn @ ''-'' @ pattern_get m (lc, lr) @ ''.png'', tile_at img (brow + lr) (bcol + lc)).
        (lr, lc) \<leftarrow> ls,
        brow + lr < rows \<and> bcol + lc < cols \<and>
        is_tile_transparent (tile_at img (brow + lr) (bcol + lc)) = Inr False \<and>
        pattern_get m (lc, lr) \<noteq> ''none'' \<and> pattern_get m (lc, lr) \<noteq> ''unknown'']"

section \<open>Lemmas\<close>

subsection \<open>One block\<close>

lemma pattern_get_known: "pattern_get m k = p \<Longrightarrow> p \<noteq> ''unknown'' \<Longrightarrow> map_of m k = Some p"
  by (auto simp: pattern_get_def split: option.splits)

lemma scan_block_saved:
  "map_of (snd (scan_block bn pm img rows cols brow bcol ls d)) fn = Some t \<Longrightarrow>
   map_of d fn = Some t \<or>
   (\<exists>m lr lc tag. pm = Some m \<and> (lr, lc) \<in> set ls \<and> brow + lr < rows \<and> bcol + lc < cols \<and>
      map_of m (lc, lr) = Some tag \<and> tag \<noteq> ''none'' \<and> tag \<noteq> ''unknown'' \<and>
      fn = bn @ ''-'' @ tag @ ''.png'' \<and> t = tile_at img (brow + lr) (bcol + lc) \<and>
      is_tile_transparent t = Inr False)"
proof (induction ls arbitrary: d)
  case Nil
  then show ?case by simp
next
  case (Cons c ls)
  obtain lr lc where c: "c = (lr, lc)" by fastforce
  let ?run = "\<lambda>ls d. scan_block bn pm img rows cols brow bcol ls d"
  let ?tile = "tile_at img (brow + lr) (bcol + lc)"
  have skip: ?case if "?run (c # ls) d = ?run ls d"
  proof -
    from Cons.prems that have "map_of (snd (?run ls d)) fn = Some t" by simp
    from Cons.IH [OF this] show ?thesis by auto
  qed
  show ?case
  proof (cases "rows \<le> brow + lr \<or> cols \<le> bcol + lc")
    case True
    then show ?thesis by (intro skip) (simp add: c)
  next
    case out: False
    show ?thesis
    proof (cases "is_tile_transparent ?tile")
      case (Inl e)
      with Cons.prems out show ?thesis by (simp add: c)
    next
      case (Inr b)
      show ?thesis
      proof (cases b)
        case True
        with Inr out show ?thesis by (intro skip) (simp add: c)
      next
        case nb: False
        show ?thesis
        proof (cases pm)
          case None
          with Cons.prems Inr out nb show ?thesis by (simp add: c)
        next
          case (Some m)
          let ?p = "pattern_get m (lc, lr)"
          show ?thesis
          proof (cases "?p = ''none'' \<or> ?p = ''unknown''")
            case True
            with Inr out nb Some show ?thesis by (intro skip) (simp add: c)
          next
            case False
            let ?d = "save (bn @ ''-'' @ ?p @ ''.png'') ?tile d"
            from Cons.prems Inr out Some nb False
            have run: "map_of (snd (?run ls ?d)) fn = Some t"
              by (simp add: c)
            have known: "map_of m (lc, lr) = Some ?p"
              using False by (intro pattern_get_known) auto
            from Cons.IH [OF run] show ?thesis
            proof
              assume old: "map_of ?d fn = Some t"
              show ?thesis
              proof (cases "fn = bn @ ''-'' @ ?p @ ''.png''")
                case True
                with old have "t = ?tile" by simp
                with True known False Inr nb out Some show ?thesis
                  by (intro disjI2 exI [of _ m] exI [of _ lr] exI [of _ lc] exI [of _ ?p]) (simp add: c)
              next
                case False
                with old show ?thesis by simp
              qed
            next
              assume "\<exists>m' lr lc tag. pm = Some m' \<and> (lr, lc) \<in> set ls \<and> brow + lr < rows \<and>
                bcol + lc < cols \<and> map_of m' (lc, lr) = Some tag \<and> tag \<noteq> ''none'' \<and>
                tag \<noteq> ''unknown'' \<and> fn = bn @ ''-'' @ tag @ ''.png'' \<and>
                t = tile_at img (brow + lr) (bcol + lc) \<and> is_tile_transparent t = Inr False"
              then show ?thesis by auto
            qed
          qed
        qed
      qed
    qed
  qed
qed
subsection \<open>The block loop\<close>

lemma block_pattern_map_bound: "table_bound tt pm \<Longrightarrow> table_bound tt (block_pattern_map tt pm)"
  by (auto simp: table_bound_def block_pattern_map_def get_pattern_map_for_tile_type_def)

lemma set_local_cells: "(lr, lc) \<in> set local_cells \<longleftrightarrow> lr < 3 \<and> lc < 7"
  by (force simp: local_cells_def)

lemma scan_blocks_saved:
  "table_bound tt pm \<Longrightarrow> map_of (snd (scan_blocks tt pm img rows cols bpr bs d)) fn = Some t \<Longrightarrow>
   map_of d fn = Some t \<or>
   (\<exists>i \<in> set bs. \<exists>lr lc tag. lr < 3 \<and> lc < 7 \<and>
      block_row bpr i + lr < rows \<and> block_col bpr i + lc < cols \<and>
      map_of (get_pattern_map_for_tile_type tt) (lc, lr) = Some tag \<and>
      tag \<noteq> ''none'' \<and> tag \<noteq> ''unknown'' \<and>
      fn = tt @ ''-'' @ show_nat (i + 1) @ ''-'' @ tag @ ''.png'' \<and>
      t = tile_at img (block_row bpr i + lr) (block_col bpr i + lc) \<and>
      is_tile_transparent t = Inr False)"
proof (induction bs arbitrary: pm d)
  case Nil
  then show ?case by simp
next
  case (Cons i bs)
  let ?pm = "block_pattern_map tt pm"
  let ?bn = "tt @ ''-'' @ show_nat (i + 1)"
  let ?blk = "scan_block ?bn ?pm img rows cols (block_row bpr i) (block_col bpr i) local_cells d"
  have bound: "table_bound tt ?pm" using Cons.prems(1) by (rule block_pattern_map_bound)
  have in_block: ?case if "map_of (snd ?blk) fn = Some t"
    using scan_block_saved [OF that]
  proof
    assume "map_of d fn = Some t"
    then show ?thesis by simp
  next
    assume "\<exists>m lr lc tag. ?pm = Some m \<and> (lr, lc) \<in> set local_cells \<and>
      block_row bpr i + lr < rows \<and> block_col bpr i + lc < cols \<and>
      map_of m (lc, lr) = Some tag \<and> tag \<noteq> ''none'' \<and> tag \<noteq> ''unknown'' \<and>
      fn = ?bn @ ''-'' @ tag @ ''.png'' \<and> t = tile_at img (block_row bpr i + lr) (block_col bpr i + lc) \<and>
      is_tile_transparent t = Inr False"
    then obtain m lr lc tag where m: "?pm = Some m" and cell: "(lr, lc) \<in> set local_cells"
      and rest: "block_row bpr i + lr < rows \<and> block_col bpr i + lc < cols \<and>
      map_of m (lc, lr) = Some tag \<and> tag \<noteq> ''none'' \<and> tag \<noteq> ''unknown'' \<and>
      fn = ?bn @ ''-'' @ tag @ ''.png'' \<and> t = tile_at img (block_row bpr i + lr) (block_col bpr i + lc) \<and>
      is_tile_transparent t = Inr False"
      by blast
    from m bound have "m = get_pattern_map_for_tile_type tt" by (simp add: table_bound_def)
    with cell rest have "lr < 3 \<and> lc < 7 \<and>
      block_row bpr i + lr < rows \<and> block_col bpr i + lc < cols \<and>
      map_of (get_pattern_map_for_tile_type tt) (lc, lr) = Some tag \<and>
      tag \<noteq> ''none'' \<and> tag \<noteq> ''unknown'' \<and>
      fn = tt @ ''-'' @ show_nat (i + 1) @ ''-'' @ tag @ ''.png'' \<and>
      t = tile_at img (block_row bpr i + lr) (block_col bpr i + lc) \<and>
      is_tile_transparent t = Inr False"
      by (auto simp: set_local_cells)
    then show ?thesis by (intro disjI2 bexI [of _ i]) (blast, simp)
  qed
  show ?case
  proof (cases "fst ?blk")
    case (Some e)
    with Cons.prems(2) have "map_of (snd ?blk) fn = Some t"
      by (cases ?blk) (simp add: Let_def)
    then show ?thesis by (rule in_block)
  next
    case None
    with Cons.prems(2) have "map_of (snd (scan_blocks tt ?pm img rows cols bpr bs (snd ?blk))) fn = Some t"
      by (cases ?blk) (simp add: Let_def)
    from Cons.IH [OF bound this] show ?thesis
      using in_block by auto
  qed
qed
subsection \<open>Block geometry\<close>

lemma nat_total_blocks: "nat (total_blocks rows cols) = ((rows - 3) div 3) * (cols div 7)"
proof (cases "rows < 3")
  case True
  then consider "rows = 0" | "rows = 1" | "rows = 2" by linarith
  then show ?thesis by cases (simp_all add: total_blocks_def)
next
  case False
  then have "(int rows - 3) div 3 = int ((rows - 3) div 3)"
    by (simp add: zdiv_int of_nat_diff)
  then have "total_blocks rows cols = int ((rows - 3) div 3 * (cols div 7))"
    by (simp add: total_blocks_def)
  then show ?thesis by (simp only: nat_int)
qed
subsection \<open>The handler\<close>

lemma select_blocks_bound:
  "table_bound tt (snd (select_blocks tt used n))"
  by (auto simp: select_blocks_def table_bound_def split: option.splits)

lemma select_blocks_range:
  "i \<in> set (fst (select_blocks tt used n)) \<Longrightarrow> i < nat n"
  by (auto simp: select_blocks_def split: option.splits if_splits)

lemma scan_block_no_table:
  "pm = None \<or> pm = Some [] \<Longrightarrow>
   snd (scan_block bn pm img rows cols brow bcol ls d) = d \<and>
   fst (scan_block bn pm img rows cols brow bcol ls d) \<in> {None, Some UnboundLocalError}"
proof (induction ls)
  case Nil
  then show ?case by simp
next
  case (Cons c ls)
  obtain lr lc where c: "c = (lr, lc)" by fastforce
  show ?case
    using Cons by (auto simp: c Let_def is_tile_transparent_tile_at pattern_get_def split: bool.split)
qed

lemma scan_blocks_no_table:
  "tt \<noteq> ''wall'' \<Longrightarrow> tt \<noteq> ''floor'' \<Longrightarrow> table_bound tt pm \<Longrightarrow>
   snd (scan_blocks tt pm img rows cols bpr bs d) = d \<and>
   fst (scan_blocks tt pm img rows cols bpr bs d) \<in> {None, Some UnboundLocalError}"
proof (induction bs)
  case Nil
  then show ?case by simp
next
  case (Cons i bs)
  from Cons.prems have pm: "pm = None \<or> pm = Some []" and keep: "block_pattern_map tt pm = pm"
    by (auto simp: table_bound_def get_pattern_map_for_tile_type_def block_pattern_map_def)
  let ?blk = "scan_block (tt @ ''-'' @ show_nat (i + 1)) pm img rows cols (block_row bpr i) (block_col bpr i) local_cells d"
  from scan_block_no_table [OF pm] have blk: "snd ?blk = d" "fst ?blk \<in> {None, Some UnboundLocalError}"
    by auto
  show ?case
    using Cons.IH [OF Cons.prems] blk keep
    by (cases ?blk) (auto simp: Let_def)
qed

lemma local_cells_eq:
  "local_cells =
     [(0, 0), (0, 1), (0, 2), (0, 3), (0, 4), (0, 5), (0, 6),
      (1, 0), (1, 1), (1, 2), (1, 3), (1, 4), (1, 5), (1, 6),
      (2, 0), (2, 1), (2, 2), (2, 3), (2, 4), (2, 5), (2, 6)]"
  by (simp add: local_cells_def upt_rec)

lemmas floor_wall_eval = process_floor_wall_png_def select_blocks_def total_blocks_def
  grid_cols_def grid_rows_def TILE_SIZE_def SET_THIS_TO_FALSE_TO_GET_ALL_TILES_def local_cells_eq
  block_row_def block_col_def block_pattern_map_def pattern_get_def is_tile_transparent_new_image
  debug_colour_def alpha_def save_def name_eval

subsection \<open>The block loop implements its reference description\<close>

lemma save_all_append: "save_all (xs @ ys) d = save_all ys (save_all xs d)"
  by (simp add: save_all_def)

lemma scan_block_spec:
  "scan_block bn (Some m) img rows cols brow bcol ls d =
     (None, save_all (block_cell_saves bn m img rows cols brow bcol ls) d)"
proof (induction ls arbitrary: d)
  case Nil
  then show ?case by (simp add: block_cell_saves_def save_all_def)
next
  case (Cons c ls)
  obtain lr lc where c: "c = (lr, lc)" by fastforce
  show ?case
    using Cons.IH
    by (simp add: c Let_def is_tile_transparent_tile_at block_cell_saves_def save_all_def
        split: bool.split)
qed

lemma block_pattern_map_table:
  "tt = ''wall'' \<or> tt = ''floor'' \<Longrightarrow> block_pattern_map tt pm = Some (get_pattern_map_for_tile_type tt)"
  by (auto simp: block_pattern_map_def get_pattern_map_for_tile_type_def)

lemma scan_blocks_spec:
  assumes "tt = ''wall'' \<or> tt = ''floor''"
  shows "scan_blocks tt pm img rows cols bpr bs d =
     (None, save_all (concat (map (\<lambda>i. block_cell_saves (tt @ ''-'' @ show_nat (i + 1))
                                   (get_pattern_map_for_tile_type tt) img rows cols
                                   (block_row bpr i) (block_col bpr i) local_cells) bs)) d)"
proof (induction bs arbitrary: pm d)
  case Nil
  then show ?case by (simp add: save_all_def)
next
  case (Cons i bs)
  show ?case
    using Cons.IH by (simp add: Let_def block_pattern_map_table [OF assms] scan_block_spec save_all_append)
qed

lemma hyphen_cancel:
  "CHR ''-'' \<notin> set x \<Longrightarrow> CHR ''-'' \<notin> set y \<Longrightarrow> x @ CHR ''-'' # s = y @ CHR ''-'' # t \<Longrightarrow>
   x = y \<and> s = t"
proof (induction x arbitrary: y)
  case Nil
  then show ?case by (cases y) auto
next
  case (Cons a x)
  then show ?case by (cases y) auto
qed

lemma table_facts:
  assumes "tt = ''wall'' \<or> tt = ''floor''" "map_of (get_pattern_map_for_tile_type tt) (lc, lr) = Some tag"
  shows "lr < 3 \<and> lc < 7 \<and> tag \<noteq> ''none'' \<and> tag \<noteq> ''unknown'' \<and> CHR ''-'' \<notin> set tag"
  using assms by (auto simp: get_pattern_map_for_tile_type_def split: if_splits)

lemma table_tag_unique:
  assumes "tt = ''wall'' \<or> tt = ''floor''"
    and "map_of (get_pattern_map_for_tile_type tt) p = Some tag"
    and "map_of (get_pattern_map_for_tile_type tt) q = Some tag"
  shows "p = q"
  using assms by (auto simp: get_pattern_map_for_tile_type_def split: if_splits)

lemma pattern_get_tag: "map_of m k = Some tag \<Longrightarrow> pattern_get m k = tag"
  by (simp add: pattern_get_def)

lemma block_name_cancel:
  "tt @ ''-'' @ show_nat a @ ''-'' @ s = tt @ ''-'' @ show_nat b @ ''-'' @ t \<Longrightarrow> a = b \<and> s = t"
  using hyphen_cancel [of "show_nat a" "show_nat b" s t] show_nat_no_char [of "CHR ''-''"] by simp

lemma block_cell_bounds:
  assumes "i < nat (total_blocks rows cols)" "lr < 3" "lc < 7"
  shows "block_row (cols div 7) i + lr < rows \<and> block_col (cols div 7) i + lc < cols"
proof -
  let ?bpr = "cols div 7" and ?q = "(rows - 3) div 3"
  from assms(1) have lt: "i < ?q * ?bpr" by (simp add: nat_total_blocks)
  then have bpr: "0 < ?bpr" by (cases "?bpr = 0") auto
  from lt have qi: "i div ?bpr < ?q" by (simp add: less_mult_imp_div_less)
  have q3: "3 * ?q \<le> rows - 3" by simp
  from qi have "3 \<le> rows" by (cases "rows < 3") auto
  with qi q3 assms(2) have row: "(i div ?bpr) * 3 + 3 + lr < rows" by linarith
  have m: "i mod ?bpr < ?bpr" using bpr by simp
  have c7: "7 * ?bpr \<le> cols" by simp
  from m c7 assms(3) have col: "(i mod ?bpr) * 7 + lc < cols" by linarith
  from row col show ?thesis by (simp add: block_row_def block_col_def)
qed

lemma process_floor_wall_png_spec:
  assumes "tt = ''wall'' \<or> tt = ''floor''"
  shows "process_floor_wall_png (Some img) d tt used =
     (save_all (concat (map (\<lambda>i. block_cell_saves (tt @ ''-'' @ show_nat (i + 1))
                                (get_pattern_map_for_tile_type tt) img (grid_rows img) (grid_cols img)
                                (block_row (grid_cols img div 7) i) (block_col (grid_cols img div 7) i) local_cells)
               (fst (select_blocks tt used (total_blocks (grid_rows img) (grid_cols img)))))) d,
      Processed)"
  by (simp add: process_floor_wall_png_def Let_def case_prod_beta scan_blocks_spec [OF assms])

section \<open>Properties of the wall and floor handler\<close>

text \<open>
  C1. Every file that \<open>process_floor_wall_png\<close> adds to the temporary directory is a
  non-transparent cell of one of the sheet's blocks, saved under
  \<open>{tile_type}-{block_idx + 1}-{tag}.png\<close> where \<open>tag\<close> is the tag the type's table
  gives the cell's position in the block: no cell with an unmapped position and no
  transparent cell is ever saved.
\<close>

theorem process_floor_wall_png_saves:
  assumes "map_of (fst (process_floor_wall_png (Some img) d tt used)) fn = Some t"
  shows "map_of d fn = Some t \<or>
    (\<exists>i < nat (total_blocks (grid_rows img) (grid_cols img)). \<exists>lr lc tag.
       lr < 3 \<and> lc < 7 \<and> map_of (get_pattern_map_for_tile_type tt) (lc, lr) = Some tag \<and>
       fn = tt @ ''-'' @ show_nat (i + 1) @ ''-'' @ tag @ ''.png'' \<and>
       t = tile_at img (block_row (grid_cols img div 7) i + lr) (block_col (grid_cols img div 7) i + lc) \<and>
       is_tile_transparent t = Inr False)"
proof -
  let ?sel = "select_blocks tt used (total_blocks (grid_rows img) (grid_cols img))"
  let ?run = "scan_blocks tt (snd ?sel) img (grid_rows img) (grid_cols img) (grid_cols img div 7) (fst ?sel) d"
  from assms have "map_of (snd ?run) fn = Some t"
    by (simp add: process_floor_wall_png_def Let_def case_prod_beta split: option.splits)
  from scan_blocks_saved [OF select_blocks_bound this]
  show ?thesis
  proof
    assume "map_of d fn = Some t"
    then show ?thesis ..
  next
    assume "\<exists>i \<in> set (fst ?sel). \<exists>lr lc tag. lr < 3 \<and> lc < 7 \<and>
      block_row (grid_cols img div 7) i + lr < grid_rows img \<and> block_col (grid_cols img div 7) i + lc < grid_cols img \<and>
      map_of (get_pattern_map_for_tile_type tt) (lc, lr) = Some tag \<and>
      tag \<noteq> ''none'' \<and> tag \<noteq> ''unknown'' \<and>
      fn = tt @ ''-'' @ show_nat (i + 1) @ ''-'' @ tag @ ''.png'' \<and>
      t = tile_at img (block_row (grid_cols img div 7) i + lr) (block_col (grid_cols img div 7) i + lc) \<and>
      is_tile_transparent t = Inr False"
    then obtain i lr lc tag where i: "i \<in> set (fst ?sel)" and
      w: "lr < 3 \<and> lc < 7 \<and> map_of (get_pattern_map_for_tile_type tt) (lc, lr) = Some tag \<and>
       fn = tt @ ''-'' @ show_nat (i + 1) @ ''-'' @ tag @ ''.png'' \<and>
       t = tile_at img (block_row (grid_cols img div 7) i + lr) (block_col (grid_cols img div 7) i + lc) \<and>
       is_tile_transparent t = Inr False"
      by blast
    from i have "i < nat (total_blocks (grid_rows img) (grid_cols img))"
      by (rule select_blocks_range)
    with w show ?thesis by blast
  qed
qed
theorem process_floor_wall_png_saves_witness:
  "map_of (fst (process_floor_wall_png (Some (new_image 112 96 debug_colour)) [] ''wall'' None))
      ''wall-1-nsew.png'' = Some (tile_at (new_image 112 96 debug_colour) 4 4) \<and>
   (map_of [] ''wall-1-nsew.png'' = Some (tile_at (new_image 112 96 debug_colour) 4 4) \<or>
    (\<exists>i < nat (total_blocks (grid_rows (new_image 112 96 debug_colour)) (grid_cols (new_image 112 96 debug_colour))).
     \<exists>lr lc tag. lr < 3 \<and> lc < 7 \<and> map_of (get_pattern_map_for_tile_type ''wall'') (lc, lr) = Some tag \<and>
       ''wall-1-nsew.png'' = ''wall'' @ ''-'' @ show_nat (i + 1) @ ''-'' @ tag @ ''.png'' \<and>
       tile_at (new_image 112 96 debug_colour) 4 4 =
         tile_at (new_image 112 96 debug_colour)
           (block_row (grid_cols (new_image 112 96 debug_colour) div 7) i + lr)
           (block_col (grid_cols (new_image 112 96 debug_colour) div 7) i + lc) \<and>
       is_tile_transparent (tile_at (new_image 112 96 debug_colour) 4 4) = Inr False))"
proof -
  have h: "map_of (fst (process_floor_wall_png (Some (new_image 112 96 debug_colour)) [] ''wall'' None))
      ''wall-1-nsew.png'' = Some (tile_at (new_image 112 96 debug_colour) 4 4)"
    by (simp add: floor_wall_eval)
  show ?thesis using process_floor_wall_png_saves [OF h] h by simp
qed

text \<open>
  C2. Completeness of the wall and floor extraction: for \<open>"wall"\<close> and \<open>"floor"\<close>,
  every block the selection keeps and every position the type's table tags with
  \<open>tag\<close>, a non-transparent cell there is saved as
  \<open>{tile_type}-{block_idx + 1}-{tag}.png\<close> holding that cell (no later save overwrites
  it), and the sheet is reported processed.
\<close>

theorem floor_wall_cell_saved:
  assumes tt: "tt = ''wall'' \<or> tt = ''floor''"
    and sel: "i \<in> set (fst (select_blocks tt used (total_blocks (grid_rows img) (grid_cols img))))"
    and tag: "map_of (get_pattern_map_for_tile_type tt) (lc, lr) = Some tag"
    and opaque: "is_tile_transparent (tile_at img (block_row (grid_cols img div 7) i + lr)
                                               (block_col (grid_cols img div 7) i + lc)) = Inr False"
  shows "map_of (fst (process_floor_wall_png (Some img) d tt used))
            (tt @ ''-'' @ show_nat (i + 1) @ ''-'' @ tag @ ''.png'') =
           Some (tile_at img (block_row (grid_cols img div 7) i + lr) (block_col (grid_cols img div 7) i + lc)) \<and>
         snd (process_floor_wall_png (Some img) d tt used) = Processed"
proof -
  let ?bpr = "grid_cols img div 7" and ?m = "get_pattern_map_for_tile_type tt"
  let ?sel = "fst (select_blocks tt used (total_blocks (grid_rows img) (grid_cols img)))"
  let ?blk = "\<lambda>j. block_cell_saves (tt @ ''-'' @ show_nat (j + 1)) ?m img (grid_rows img) (grid_cols img)
                     (block_row ?bpr j) (block_col ?bpr j) local_cells"
  let ?xs = "concat (map ?blk ?sel)"
  let ?name = "tt @ ''-'' @ show_nat (i + 1) @ ''-'' @ tag @ ''.png''"
  let ?t = "tile_at img (block_row ?bpr i + lr) (block_col ?bpr i + lc)"
  have facts: "lr < 3 \<and> lc < 7 \<and> tag \<noteq> ''none'' \<and> tag \<noteq> ''unknown'' \<and> CHR ''-'' \<notin> set tag"
    using tt tag by (rule table_facts)
  have inside: "block_row ?bpr i + lr < grid_rows img \<and> block_col ?bpr i + lc < grid_cols img"
    using select_blocks_range [OF sel] facts by (intro block_cell_bounds) auto
  have pg: "pattern_get ?m (lc, lr) = tag" using tag by (rule pattern_get_tag)
  have "(?name, ?t) \<in> set (?blk i)"
    using facts inside opaque pg by (force simp: block_cell_saves_def set_local_cells)
  then have mem: "(?name, ?t) \<in> set ?xs" using sel by auto
  have uniq: "v' = ?t" if "(?name, v') \<in> set ?xs" for v'
  proof -
    from that obtain j lr' lc' where j: "j \<in> set ?sel" and cell: "(lr', lc') \<in> set local_cells"
      and name: "?name = tt @ ''-'' @ show_nat (j + 1) @ ''-'' @ pattern_get ?m (lc', lr') @ ''.png''"
      and known: "pattern_get ?m (lc', lr') \<noteq> ''unknown''"
      and v: "v' = tile_at img (block_row ?bpr j + lr') (block_col ?bpr j + lc')"
      by (auto simp: block_cell_saves_def)
    from block_name_cancel [OF name] have ij: "i = j" and tags: "tag = pattern_get ?m (lc', lr')" by simp_all
    from known tags have "map_of ?m (lc', lr') = Some tag" by (intro pattern_get_known) simp_all
    from table_tag_unique [OF tt tag this] have "(lc, lr) = (lc', lr')" .
    with ij v show ?thesis by simp
  qed
  have "map_of (rev ?xs) ?name = Some ?t" using mem uniq by (rule map_of_rev_unique)
  then show ?thesis by (simp add: process_floor_wall_png_spec [OF tt] map_of_save_all)
qed

theorem floor_wall_cell_saved_witness:
  "''wall'' = ''wall'' \<and>
   0 \<in> set (fst (select_blocks ''wall'' None (total_blocks (grid_rows (new_image 112 96 debug_colour))
                                                          (grid_cols (new_image 112 96 debug_colour))))) \<and>
   map_of (get_pattern_map_for_tile_type ''wall'') (4, 1) = Some ''nsew'' \<and>
   is_tile_transparent (tile_at (new_image 112 96 debug_colour) 4 4) = Inr False \<and>
   map_of (fst (process_floor_wall_png (Some (new_image 112 96 debug_colour)) [] ''wall'' None))
      ''wall-1-nsew.png'' = Some (tile_at (new_image 112 96 debug_colour) 4 4) \<and>
   snd (process_floor_wall_png (Some (new_image 112 96 debug_colour)) [] ''wall'' None) = Processed"
proof -
  have g: "grid_rows (new_image 112 96 debug_colour) = 6" "grid_cols (new_image 112 96 debug_colour) = 7"
    by (simp_all add: grid_rows_def grid_cols_def TILE_SIZE_def)
  have sel: "0 \<in> set (fst (select_blocks ''wall'' None (total_blocks 6 7)))"
    by (simp add: select_blocks_def total_blocks_def SET_THIS_TO_FALSE_TO_GET_ALL_TILES_def)
  have tag: "map_of (get_pattern_map_for_tile_type ''wall'') (4, 1) = Some ''nsew''"
    by (simp add: get_pattern_map_for_tile_type_def)
  have op: "is_tile_transparent (tile_at (new_image 112 96 debug_colour) 4 4) = Inr False"
    by (simp add: is_tile_transparent_new_image TILE_SIZE_def debug_colour_def alpha_def)
  have r: "block_row 1 0 + 1 = 4" "block_col 1 0 + 4 = 4"
    by (simp_all add: block_row_def block_col_def)
  show ?thesis
    using floor_wall_cell_saved [of "''wall''" 0 None "new_image 112 96 debug_colour" 4 1 "''nsew''" "[]"]
      g sel tag op r
    by (simp add: name_eval)
qed

text \<open>
  C3. A wall or floor sheet of fewer than six rows has no block below the three skipped
  rows: the handler saves nothing and reports the sheet processed. The spec's example of a
  112x48 wall sheet yielding 13 names is such a sheet.
\<close>

theorem floor_wall_short_sheet:
  assumes "grid_rows img < 6"
  shows "process_floor_wall_png (Some img) d tt used = (d, Processed)"
proof -
  have "nat (total_blocks (grid_rows img) (grid_cols img)) = 0"
    using assms by (simp add: nat_total_blocks)
  then have "fst (select_blocks tt used (total_blocks (grid_rows img) (grid_cols img))) = []"
    using select_blocks_range [of _ tt used] by (metis less_nat_zero_code last_in_set)
  then show ?thesis
    by (simp add: process_floor_wall_png_def Let_def case_prod_beta)
qed

theorem floor_wall_short_sheet_witness:
  "grid_rows (new_image 112 48 debug_colour) < 6 \<and>
   process_floor_wall_png (Some (new_image 112 48 debug_colour)) [] ''wall'' None = ([], Processed)"
proof -
  have g: "grid_rows (new_image 112 48 debug_colour) = 3" by (simp add: grid_rows_def TILE_SIZE_def)
  show ?thesis using floor_wall_short_sheet [of "new_image 112 48 debug_colour" "[]" "''wall''" None] g by simp
qed

text \<open>
  C4. Every cell of every block the handler can select lies inside the sheet's grid, so
  the bounds check of the cell loop never skips a cell.
\<close>

theorem block_cells_in_grid:
  assumes "i < nat (total_blocks rows cols)" "lr < 3" "lc < 7"
  shows "block_row (cols div 7) i + lr < rows \<and> block_col (cols div 7) i + lc < cols"
  using assms by (rule block_cell_bounds)

theorem block_cells_in_grid_witness:
  "(0::nat) < nat (total_blocks 6 7) \<and> (2::nat) < 3 \<and> (6::nat) < 7 \<and>
   block_row (7 div 7) 0 + 2 < (6::nat) \<and> block_col (7 div 7) 0 + 6 < (7::nat)"
proof -
  have h: "(0::nat) < nat (total_blocks 6 7)" by (simp add: total_blocks_def)
  show ?thesis using block_cells_in_grid [OF h, of 2 6] h by simp
qed

text \<open>
  C5. For a tile type with no table the handler saves nothing: the directory is returned
  unchanged, and the sheet either completes or is skipped with the
  \<open>UnboundLocalError\<close> of the unassigned \<open>pattern_map\<close>, which is what happens
  without a used-name set as soon as a block has an opaque cell.
\<close>

theorem process_floor_wall_png_other_type:
  assumes "tile_type \<noteq> ''wall''" "tile_type \<noteq> ''floor''"
  shows "fst (process_floor_wall_png (Some img) d tile_type used) = d \<and>
         snd (process_floor_wall_png (Some img) d tile_type used) \<in> {Processed, Skipped UnboundLocalError}"
proof -
  let ?sel = "select_blocks tile_type used (total_blocks (grid_rows img) (grid_cols img))"
  have "snd (scan_blocks tile_type (snd ?sel) img (grid_rows img) (grid_cols img) (grid_cols img div 7) (fst ?sel) d) = d \<and>
        fst (scan_blocks tile_type (snd ?sel) img (grid_rows img) (grid_cols img) (grid_cols img div 7) (fst ?sel) d) \<in> {None, Some UnboundLocalError}"
    using assms select_blocks_bound by (rule scan_blocks_no_table)
  then show ?thesis
    by (auto simp: process_floor_wall_png_def Let_def case_prod_beta split: option.splits)
qed

theorem process_floor_wall_png_other_type_witness:
  "''doors0'' \<noteq> ''wall'' \<and> ''doors0'' \<noteq> ''floor'' \<and>
   process_floor_wall_png (Some (new_image 112 96 debug_colour)) [] ''doors0'' None = ([], Skipped UnboundLocalError) \<and>
   fst (process_floor_wall_png (Some (new_image 112 96 debug_colour)) [] ''doors0'' None) = [] \<and>
   snd (process_floor_wall_png (Some (new_image 112 96 debug_colour)) [] ''doors0'' None) \<in> {Processed, Skipped UnboundLocalError}"
proof -
  have r: "process_floor_wall_png (Some (new_image 112 96 debug_colour)) [] ''doors0'' None = ([], Skipped UnboundLocalError)"
    by (simp add: floor_wall_eval)
  show ?thesis using process_floor_wall_png_other_type [of "''doors0''" "new_image 112 96 debug_colour" "[]" None] r
    by simp
qed
end
