(* ===== verification/Atlas.thy ===== *)
theory Atlas
  imports Slicer
begin

text \<open>
  AtlasPacker: \<open>calculate_optimal_atlas_size\<close> (gen_world.py without a minimum size,
  gen_items.py and gen_characters.py with the 256 pixel floor), \<open>create_debug_tile\<close>,
  and the common part of the three \<open>create_atlas\<close> functions: a transparent canvas,
  every sprite pasted at index \<open>i\<close> to \<open>((i % per_row) * W, (i // per_row) * H)\<close>,
  the coordinate dictionary filled in the same order, and the watermark drawn from the
  bottom-right corner. Python's \<open>math.ceil(math.sqrt(n))\<close> and \<open>math.ceil(a / b)\<close>
  are computed on floats; for every sprite count below \<open>2^52\<close> they give the exact
  integer results, which is what the model computes.
\<close>

section \<open>Sizes\<close>

text \<open>\<open>n.bit_length()\<close>: the number of binary digits of \<open>|n|\<close>.\<close>

fun bit_length_nat :: "nat \<Rightarrow> nat" where
  "bit_length_nat n = (if n = 0 then 0 else Suc (bit_length_nat (n div 2)))"

declare bit_length_nat.simps [simp del]

definition bit_length :: "int \<Rightarrow> nat" where
  "bit_length n = bit_length_nat (nat \<bar>n\<bar>)"

text \<open>The local \<open>next_power_of_2(n)\<close>: \<open>1 << (n - 1).bit_length()\<close>.\<close>

definition next_power_of_2 :: "nat \<Rightarrow> nat" where
  "next_power_of_2 n = push_bit (bit_length (int n - 1)) 1"

text \<open>\<open>math.ceil(math.sqrt(n))\<close>: the least \<open>s\<close> with \<open>n \<le> s * s\<close>, searched upwards.\<close>

function ceil_sqrt_from :: "nat \<Rightarrow> nat \<Rightarrow> nat" where
  "ceil_sqrt_from n s = (if n \<le> s * s then s else ceil_sqrt_from n (Suc s))"
  by pat_completeness auto
termination
proof (relation "measure (\<lambda>(n, s). n - s)")
  fix n s :: nat
  assume "\<not> n \<le> s * s"
  then have "s < n" by (cases s) auto
  then show "((n, Suc s), (n, s)) \<in> measure (\<lambda>(n, s). n - s)" by simp
qed auto

declare ceil_sqrt_from.simps [simp del]

definition ceil_sqrt :: "nat \<Rightarrow> nat" where
  "ceil_sqrt n = ceil_sqrt_from n 0"

text \<open>\<open>math.ceil(a / b)\<close> for a positive divisor.\<close>

definition ceil_div :: "nat \<Rightarrow> nat \<Rightarrow> nat" where
  "ceil_div a b = (a + b - 1) div b"

text \<open>
  \<open>calculate_optimal_atlas_size(num_sprites)\<close> of gen_world.py, with the module's
  \<open>SPRITE_WIDTH\<close> and \<open>SPRITE_HEIGHT\<close> as parameters: the atlas width, height and
  sprites per row.
\<close>

definition calculate_optimal_atlas_size :: "nat \<Rightarrow> nat \<Rightarrow> nat \<Rightarrow> nat \<times> nat \<times> nat" where
  "calculate_optimal_atlas_size sprite_w sprite_h num_sprites =
     (let sprites_per_row = ceil_sqrt num_sprites;
          atlas_width = sprites_per_row * sprite_w;
          atlas_height = ceil_div num_sprites sprites_per_row * sprite_h
      in (next_power_of_2 atlas_width, next_power_of_2 atlas_height, sprites_per_row))"

definition MIN_ATLAS_SIZE :: nat where
  "MIN_ATLAS_SIZE = 256"

text \<open>The same function in gen_characters.py and gen_items.py, ending with the floor.\<close>

definition calculate_optimal_atlas_size_min :: "nat \<Rightarrow> nat \<Rightarrow> nat \<Rightarrow> nat \<times> nat \<times> nat" where
  "calculate_optimal_atlas_size_min sprite_w sprite_h num_sprites =
     (let sprites_per_row = ceil_sqrt num_sprites;
          atlas_width = next_power_of_2 (sprites_per_row * sprite_w);
          atlas_height = next_power_of_2 (ceil_div num_sprites sprites_per_row * sprite_h)
      in (max atlas_width MIN_ATLAS_SIZE, max atlas_height MIN_ATLAS_SIZE, sprites_per_row))"

section \<open>Canvas and placement\<close>

text \<open>\<open>create_debug_tile()\<close>: a sprite-sized orange tile.\<close>

definition create_debug_tile :: "nat \<Rightarrow> nat \<Rightarrow> image" where
  "create_debug_tile sprite_w sprite_h = new_image sprite_w sprite_h debug_colour"

text \<open>
  \<open>atlas.paste(sprite, (x, y))\<close> without a mask: the sprite's pixels, transparent ones
  included, replace the canvas's pixels in the sprite's box; the canvas keeps its size.
\<close>

definition paste :: "image \<Rightarrow> image \<Rightarrow> nat \<Rightarrow> nat \<Rightarrow> image" where
  "paste canvas sprite x y =
     canvas\<lparr>px := (\<lambda>i j. if x \<le> i \<and> i < x + img_w sprite \<and> y \<le> j \<and> j < y + img_h sprite
                          \<and> i < img_w canvas \<and> j < img_h canvas
                        then px sprite (i - x) (j - y) else px canvas i j)\<rparr>"

text \<open>The position of the sprite at index \<open>i\<close>.\<close>

definition sprite_pos :: "nat \<Rightarrow> nat \<Rightarrow> nat \<Rightarrow> nat \<Rightarrow> nat \<times> nat" where
  "sprite_pos sprites_per_row sprite_w sprite_h i =
     ((i mod sprites_per_row) * sprite_w, (i div sprites_per_row) * sprite_h)"

type_synonym coords = "(string \<times> (nat \<times> nat)) list"

text \<open>
  The placement loop \<open>for i, (name, image) in enumerate(sprites)\<close>: paste, then
  \<open>coordinates[name] = [x, y]\<close>. The dictionary is an association list updated in place,
  so a repeated name keeps its first position in the dictionary's order and the
  coordinates of its last placement.
\<close>

fun place_sprites ::
  "nat \<Rightarrow> nat \<Rightarrow> nat \<Rightarrow> nat \<Rightarrow> (string \<times> image) list \<Rightarrow> image \<times> coords \<Rightarrow> image \<times> coords" where
  "place_sprites per_row sprite_w sprite_h i [] acc = acc"
| "place_sprites per_row sprite_w sprite_h i ((name, sprite) # rest) (atlas, coordinates) =
     (let (x, y) = sprite_pos per_row sprite_w sprite_h i
      in place_sprites per_row sprite_w sprite_h (Suc i) rest
           (paste atlas sprite x y, AList.update name (x, y) coordinates))"

text \<open>
  The watermark: with the text's box \<open>(text_w, text_h)\<close> measured by the font (an
  external collaborator), the origin is \<open>(atlas_width - text_w - 4, atlas_height -
  text_h - 4)\<close>, a Python int that can be negative; the black outline is drawn at the eight
  neighbouring offsets in the loop's order, then the white text at the origin.
\<close>

definition WATERMARK_MARGIN :: int where
  "WATERMARK_MARGIN = 4"

definition watermark_draws :: "nat \<Rightarrow> nat \<Rightarrow> nat \<times> nat \<Rightarrow> (int \<times> int \<times> rgba) list" where
  "watermark_draws atlas_width atlas_height text_box =
     (let x = int atlas_width - int (fst text_box) - WATERMARK_MARGIN;
          y = int atlas_height - int (snd text_box) - WATERMARK_MARGIN
      in [(x + dx, y + dy, (0, 0, 0, 255)). dx \<leftarrow> [-1, 0, 1], dy \<leftarrow> [-1, 0, 1], dx \<noteq> 0 \<or> dy \<noteq> 0]
         @ [(x, y, (255, 255, 255, 255))])"

text \<open>What \<open>create_atlas\<close> produces before it writes the files.\<close>

record atlas_out =
  atlas_image :: image
  atlas_coords :: coords
  atlas_per_row :: nat
  text_draws :: "(int \<times> int \<times> rgba) list"

text \<open>
  The packing part of \<open>create_atlas\<close>, given the size function of the module, the
  sprite size, the measured watermark box and the final sprite list (the debug sprite
  already appended).
\<close>

definition pack_atlas ::
  "(nat \<Rightarrow> nat \<times> nat \<times> nat) \<Rightarrow> nat \<Rightarrow> nat \<Rightarrow> nat \<times> nat \<Rightarrow> (string \<times> image) list \<Rightarrow> atlas_out" where
  "pack_atlas size_fn sprite_w sprite_h text_box sprites =
     (let (atlas_width, atlas_height, sprites_per_row) = size_fn (length sprites);
          atlas = new_image atlas_width atlas_height clear_px;
          (canvas, coordinates) =
            place_sprites sprites_per_row sprite_w sprite_h 0 sprites (atlas, [])
      in \<lparr>atlas_image = canvas, atlas_coords = coordinates, atlas_per_row = sprites_per_row,
          text_draws = watermark_draws atlas_width atlas_height text_box\<rparr>)"

section \<open>Reference notions for the proofs\<close>

text \<open>The box of the slot with index \<open>k\<close>, and what a size function must give for every slot to fit.\<close>

definition in_slot :: "nat \<Rightarrow> nat \<Rightarrow> nat \<Rightarrow> nat \<Rightarrow> nat \<Rightarrow> nat \<Rightarrow> bool" where
  "in_slot spr sw sh k p q \<longleftrightarrow>
     fst (sprite_pos spr sw sh k) \<le> p \<and> p < fst (sprite_pos spr sw sh k) + sw \<and>
     snd (sprite_pos spr sw sh k) \<le> q \<and> q < snd (sprite_pos spr sw sh k) + sh"

definition size_fits :: "(nat \<Rightarrow> nat \<times> nat \<times> nat) \<Rightarrow> nat \<Rightarrow> nat \<Rightarrow> bool" where
  "size_fits size_fn sw sh \<longleftrightarrow>
     (\<forall>n i. i < n \<longrightarrow>
        (case size_fn n of (w, h, spr) \<Rightarrow>
           0 < spr \<and> fst (sprite_pos spr sw sh i) + sw \<le> w \<and> snd (sprite_pos spr sw sh i) + sh \<le> h))"

section \<open>Lemmas\<close>

subsection \<open>Powers of two, square roots, ceilings\<close>

lemma bit_length_nat_bound: "n < 2 ^ bit_length_nat n"
proof (induction n rule: bit_length_nat.induct)
  case (1 n)
  show ?case
  proof (cases "n = 0")
    case True
    then show ?thesis by (simp add: bit_length_nat.simps)
  next
    case False
    with "1.IH" have "n div 2 < 2 ^ bit_length_nat (n div 2)" by simp
    with False show ?thesis by (subst bit_length_nat.simps) simp
  qed
qed

lemma bit_length_nat_lower: "0 < n \<Longrightarrow> 2 ^ (bit_length_nat n - 1) \<le> n"
proof (induction n rule: bit_length_nat.induct)
  case (1 n)
  show ?case
  proof (cases "n div 2 = 0")
    case True
    with "1.prems" show ?thesis by (subst bit_length_nat.simps) (simp add: bit_length_nat.simps)
  next
    case False
    with "1.IH" "1.prems" have "2 ^ (bit_length_nat (n div 2) - 1) \<le> n div 2" by simp
    moreover from False have "0 < bit_length_nat (n div 2)"
      by (subst bit_length_nat.simps) simp
    ultimately have "2 ^ bit_length_nat (n div 2) \<le> 2 * (n div 2)"
      by (cases "bit_length_nat (n div 2)") auto
    also have "\<dots> \<le> n" by simp
    finally show ?thesis using "1.prems" by (subst bit_length_nat.simps) simp
  qed
qed

lemma next_power_of_2_eq: "next_power_of_2 n = 2 ^ bit_length (int n - 1)"
  by (simp add: next_power_of_2_def push_bit_eq_mult)

lemma next_power_of_2_ge: "n \<le> next_power_of_2 n"
proof (cases n)
  case 0
  then show ?thesis by simp
next
  case (Suc m)
  then have "bit_length (int n - 1) = bit_length_nat m" by (simp add: bit_length_def)
  with Suc bit_length_nat_bound [of m] show ?thesis by (simp add: next_power_of_2_eq)
qed

lemma next_power_of_2_least: "0 < n \<Longrightarrow> next_power_of_2 n < 2 * n"
proof -
  assume "0 < n"
  then obtain m where n: "n = Suc m" by (cases n) auto
  then have b: "bit_length (int n - 1) = bit_length_nat m" by (simp add: bit_length_def)
  show ?thesis
  proof (cases "m = 0")
    case True
    with n b show ?thesis by (simp add: next_power_of_2_eq bit_length_nat.simps)
  next
    case False
    then have "2 ^ (bit_length_nat m - 1) \<le> m" by (intro bit_length_nat_lower) simp
    moreover from False have "0 < bit_length_nat m" by (subst bit_length_nat.simps) simp
    ultimately have "2 ^ bit_length_nat m \<le> 2 * m"
      by (metis Suc_diff_1 mult_le_mono2 power_Suc)
    with n b show ?thesis by (simp add: next_power_of_2_eq)
  qed
qed
lemma ceil_sqrt_from_spec:
  "(\<forall>t < s. t * t < n) \<Longrightarrow>
   n \<le> ceil_sqrt_from n s * ceil_sqrt_from n s \<and> (\<forall>t < ceil_sqrt_from n s. t * t < n)"
proof (induction n s rule: ceil_sqrt_from.induct)
  case (1 n s)
  show ?case
  proof (cases "n \<le> s * s")
    case True
    with "1.prems" show ?thesis by (simp add: ceil_sqrt_from.simps [of n s])
  next
    case False
    with "1.prems" have "\<forall>t < Suc s. t * t < n" using less_Suc_eq by auto
    with "1.IH" False show ?thesis by (simp add: ceil_sqrt_from.simps [of n s])
  qed
qed

lemma ceil_sqrt_least: "n \<le> ceil_sqrt n * ceil_sqrt n" "t < ceil_sqrt n \<Longrightarrow> t * t < n"
  using ceil_sqrt_from_spec [of 0 n] by (auto simp: ceil_sqrt_def)

lemma ceil_div_cover: "0 < b \<Longrightarrow> a \<le> ceil_div a b * b"
proof -
  assume b: "0 < b"
  let ?m = "a + b - 1"
  have "?m = ?m div b * b + ?m mod b" by simp
  moreover have "?m mod b < b" using b by simp
  ultimately have "?m < ?m div b * b + b" by linarith
  then show ?thesis using b by (simp add: ceil_div_def)
qed

lemma ceil_div_least: "0 < b \<Longrightarrow> (ceil_div a b - 1) * b < a \<or> a = 0"
proof -
  assume b: "0 < b"
  let ?m = "a + b - 1"
  have "?m div b * b \<le> ?m" by simp
  then have "?m div b * b - b < a \<or> a = 0" using b by linarith
  then show ?thesis by (simp add: ceil_div_def diff_mult_distrib)
qed
lemma ceil_sqrt_pos: "0 < n \<Longrightarrow> 0 < ceil_sqrt n"
  using ceil_sqrt_least(1) [of n] by (cases "ceil_sqrt n") auto

lemma ceil_sqrt_capacity: "n \<le> ceil_sqrt n * ceil_div n (ceil_sqrt n)"
proof (cases "n = 0")
  case True
  then show ?thesis by simp
next
  case False
  then have "0 < ceil_sqrt n" by (simp add: ceil_sqrt_pos)
  then show ?thesis using ceil_div_cover [of "ceil_sqrt n" n] by (simp add: mult.commute)
qed

lemma slot_fits:
  assumes "0 < per_row" "i < n" "n \<le> per_row * rows"
  shows "fst (sprite_pos per_row sw sh i) + sw \<le> per_row * sw"
    and "snd (sprite_pos per_row sw sh i) + sh \<le> rows * sh"
proof -
  have "i mod per_row < per_row" using assms(1) by simp
  then have "Suc (i mod per_row) * sw \<le> per_row * sw" by (intro mult_le_mono1) simp
  then show "fst (sprite_pos per_row sw sh i) + sw \<le> per_row * sw" by (simp add: sprite_pos_def)
  have "i < rows * per_row" using assms(2,3) by (simp add: mult.commute)
  then have "i div per_row < rows" by (rule less_mult_imp_div_less)
  then have "Suc (i div per_row) * sh \<le> rows * sh" by (intro mult_le_mono1) simp
  then show "snd (sprite_pos per_row sw sh i) + sh \<le> rows * sh" by (simp add: sprite_pos_def)
qed

lemma atlas_slot_fits:
  assumes "i < n"
  shows "fst (sprite_pos (ceil_sqrt n) sw sh i) + sw \<le> next_power_of_2 (ceil_sqrt n * sw) \<and>
         snd (sprite_pos (ceil_sqrt n) sw sh i) + sh \<le> next_power_of_2 (ceil_div n (ceil_sqrt n) * sh)"
proof -
  have pos: "0 < ceil_sqrt n" using assms by (simp add: ceil_sqrt_pos)
  note fits = slot_fits [OF pos assms ceil_sqrt_capacity]
  show ?thesis
    using fits(1) [of sw sh] fits(2) [of sw sh] next_power_of_2_ge [of "ceil_sqrt n * sw"]
      next_power_of_2_ge [of "ceil_div n (ceil_sqrt n) * sh"]
    by linarith
qed

lemma next_power_of_2_pow2: "\<exists>k. next_power_of_2 n = 2 ^ k"
  by (simp add: next_power_of_2_eq)

lemma max_pow2_floor: "\<exists>k. max (2 ^ j) MIN_ATLAS_SIZE = (2::nat) ^ k \<and> 8 \<le> k"
proof (cases "j \<le> 8")
  case True
  then have "(2::nat) ^ j \<le> 2 ^ 8" by (intro power_increasing) simp_all
  then show ?thesis by (intro exI [of _ 8]) (simp add: MIN_ATLAS_SIZE_def max_def)
next
  case False
  then have "(2::nat) ^ 8 \<le> 2 ^ j" by (intro power_increasing) simp_all
  with False show ?thesis by (intro exI [of _ j]) (simp add: MIN_ATLAS_SIZE_def max_def)
qed
subsection \<open>The placement loop\<close>

lemma place_sprites_coords:
  "map_of (snd (place_sprites spr sw sh i sps (c, cs))) =
   map_of cs ++ map_of (rev (zip (map fst sps) (map (sprite_pos spr sw sh) [i..<i + length sps])))"
proof (induction sps arbitrary: i c cs)
  case Nil
  then show ?case by simp
next
  case (Cons s sps)
  obtain nm sp where s: "s = (nm, sp)" by fastforce
  have up: "[i..<i + length (s # sps)] = i # [Suc i..<Suc i + length sps]"
    by (simp add: upt_conv_Cons del: upt_Suc)
  have "map_of (rev (zip (map fst (s # sps)) (map (sprite_pos spr sw sh) [i..<i + length (s # sps)]))) =
        [nm \<mapsto> sprite_pos spr sw sh i] ++
        map_of (rev (zip (map fst sps) (map (sprite_pos spr sw sh) [Suc i..<Suc i + length sps])))"
    unfolding up by (simp add: s map_of_append del: upt_Suc)
  then show ?case
    by (simp add: s Cons.IH case_prod_beta update_conv' map_add_upd_left del: upt_Suc)
       (simp add: fun_upd_def del: upt_Suc)
qed

lemma place_sprites_keys:
  "fst ` set (snd (place_sprites spr sw sh i sps (c, cs))) = fst ` set cs \<union> fst ` set sps"
proof (induction sps arbitrary: i c cs)
  case Nil
  then show ?case by simp
next
  case (Cons s sps)
  obtain nm sp where s: "s = (nm, sp)" by fastforce
  show ?case by (auto simp: s Cons.IH case_prod_beta dom_update)
qed

lemma place_sprites_distinct:
  "distinct (map fst cs) \<Longrightarrow> distinct (map fst (snd (place_sprites spr sw sh i sps (c, cs))))"
proof (induction sps arbitrary: i c cs)
  case Nil
  then show ?case by simp
next
  case (Cons s sps)
  obtain nm sp where s: "s = (nm, sp)" by fastforce
  show ?case using Cons by (simp add: s case_prod_beta distinct_update)
qed

lemma place_sprites_size:
  "img_w (fst (place_sprites spr sw sh i sps (c, cs))) = img_w c \<and>
   img_h (fst (place_sprites spr sw sh i sps (c, cs))) = img_h c"
proof (induction sps arbitrary: i c cs)
  case Nil
  then show ?case by simp
next
  case (Cons s sps)
  obtain nm sp where s: "s = (nm, sp)" by fastforce
  show ?case using Cons by (simp add: s case_prod_beta paste_def)
qed
lemma slot_unique:
  assumes "0 < spr" "a < sw" "b < sh" "a' < sw" "b' < sh"
    and "fst (sprite_pos spr sw sh i) + a = fst (sprite_pos spr sw sh k) + a'"
    and "snd (sprite_pos spr sw sh i) + b = snd (sprite_pos spr sw sh k) + b'"
  shows "i = k"
proof -
  have col: "((i mod spr) * sw + a) div sw = i mod spr" "((k mod spr) * sw + a') div sw = k mod spr"
    using assms(2,4) by simp_all
  have row: "((i div spr) * sh + b) div sh = i div spr" "((k div spr) * sh + b') div sh = k div spr"
    using assms(3,5) by simp_all
  from assms(6) col have "i mod spr = k mod spr" by (simp add: sprite_pos_def)
  moreover from assms(7) row have "i div spr = k div spr" by (simp add: sprite_pos_def)
  ultimately show "i = k" by (metis div_mult_mod_eq)
qed

lemma place_sprites_outside:
  assumes "\<forall>(nm, sp) \<in> set sps. img_w sp = sw \<and> img_h sp = sh"
    and "\<forall>k < length sps. \<not> in_slot spr sw sh (i + k) p q"
  shows "px (fst (place_sprites spr sw sh i sps (c, cs))) p q = px c p q"
  using assms
proof (induction sps arbitrary: i c cs)
  case Nil
  then show ?case by simp
next
  case (Cons s sps)
  obtain nm sp where s: "s = (nm, sp)" by fastforce
  let ?c = "paste c sp (fst (sprite_pos spr sw sh i)) (snd (sprite_pos spr sw sh i))"
  have rest: "\<forall>k < length sps. \<not> in_slot spr sw sh (Suc i + k) p q"
    using Cons.prems(2) by (metis add_Suc_right add_Suc length_Cons not_less_eq)
  have "\<not> in_slot spr sw sh i p q" using Cons.prems(2) by (metis add_0_right length_Cons zero_less_Suc)
  then have first: "px ?c p q = px c p q"
    using Cons.prems(1) by (auto simp: s paste_def in_slot_def)
  have "px (fst (place_sprites spr sw sh (Suc i) sps (?c, AList.update nm (sprite_pos spr sw sh i) cs))) p q = px ?c p q"
    using Cons.prems(1) rest by (intro Cons.IH) auto
  with first show ?case by (simp add: s case_prod_beta)
qed
lemma not_in_other_slot:
  assumes "0 < spr" "a < sw" "b < sh" "m \<noteq> i"
  shows "\<not> in_slot spr sw sh m (fst (sprite_pos spr sw sh i) + a) (snd (sprite_pos spr sw sh i) + b)"
proof
  assume in_m: "in_slot spr sw sh m (fst (sprite_pos spr sw sh i) + a) (snd (sprite_pos spr sw sh i) + b)"
  define a' where "a' = fst (sprite_pos spr sw sh i) + a - fst (sprite_pos spr sw sh m)"
  define b' where "b' = snd (sprite_pos spr sw sh i) + b - snd (sprite_pos spr sw sh m)"
  from in_m have "a' < sw" "b' < sh"
    "fst (sprite_pos spr sw sh i) + a = fst (sprite_pos spr sw sh m) + a'"
    "snd (sprite_pos spr sw sh i) + b = snd (sprite_pos spr sw sh m) + b'"
    by (auto simp: in_slot_def a'_def b'_def)
  with assms(1-3) have "i = m" by (rule slot_unique)
  with assms(4) show False by simp
qed

lemma place_sprites_pixels:
  assumes "\<forall>(nm, sp) \<in> set sps. img_w sp = sw \<and> img_h sp = sh"
    and "0 < spr"
    and "\<forall>k < length sps. fst (sprite_pos spr sw sh (i + k)) + sw \<le> img_w c \<and>
                          snd (sprite_pos spr sw sh (i + k)) + sh \<le> img_h c"
    and "j < length sps" "a < sw" "b < sh"
  shows "px (fst (place_sprites spr sw sh i sps (c, cs)))
            (fst (sprite_pos spr sw sh (i + j)) + a) (snd (sprite_pos spr sw sh (i + j)) + b) =
         px (snd (sps ! j)) a b"
  using assms
proof (induction sps arbitrary: i c cs j)
  case Nil
  then show ?case by simp
next
  case (Cons s sps)
  obtain nm sp where s: "s = (nm, sp)" by fastforce
  let ?x = "fst (sprite_pos spr sw sh i)" and ?y = "snd (sprite_pos spr sw sh i)"
  let ?c = "paste c sp ?x ?y"
  let ?cs = "AList.update nm (sprite_pos spr sw sh i) cs"
  have run: "fst (place_sprites spr sw sh i (s # sps) (c, cs)) =
             fst (place_sprites spr sw sh (Suc i) sps (?c, ?cs))"
    by (simp add: s case_prod_beta)
  have sp: "img_w sp = sw" "img_h sp = sh" using Cons.prems(1) by (auto simp: s)
  have dims: "img_w ?c = img_w c" "img_h ?c = img_h c" by (simp_all add: paste_def)
  show ?case
  proof (cases j)
    case 0
    have fit0: "?x + sw \<le> img_w c" "?y + sh \<le> img_h c" using Cons.prems(3) by auto
    have "px ?c (?x + a) (?y + b) = px sp a b"
      using sp fit0 Cons.prems(5,6) by (simp add: paste_def)
    moreover have "px (fst (place_sprites spr sw sh (Suc i) sps (?c, ?cs))) (?x + a) (?y + b) =
                   px ?c (?x + a) (?y + b)"
    proof (rule place_sprites_outside)
      show "\<forall>(nm, sp) \<in> set sps. img_w sp = sw \<and> img_h sp = sh" using Cons.prems(1) by simp
      show "\<forall>k < length sps. \<not> in_slot spr sw sh (Suc i + k) (?x + a) (?y + b)"
        using not_in_other_slot [OF Cons.prems(2,5,6)] by simp
    qed
    ultimately show ?thesis using run 0 by (simp add: s)
  next
    case (Suc j')
    have fit': "\<forall>k < length sps. fst (sprite_pos spr sw sh (Suc i + k)) + sw \<le> img_w ?c \<and>
                          snd (sprite_pos spr sw sh (Suc i + k)) + sh \<le> img_h ?c"
    proof (intro allI impI)
      fix k assume "k < length sps"
      then have "Suc k < length (s # sps)" by simp
      from Cons.prems(3) [rule_format, OF this] dims
      show "fst (sprite_pos spr sw sh (Suc i + k)) + sw \<le> img_w ?c \<and>
            snd (sprite_pos spr sw sh (Suc i + k)) + sh \<le> img_h ?c" by simp
    qed
    have "px (fst (place_sprites spr sw sh (Suc i) sps (?c, ?cs)))
            (fst (sprite_pos spr sw sh (Suc i + j')) + a) (snd (sprite_pos spr sw sh (Suc i + j')) + b) =
          px (snd (sps ! j')) a b"
      using Cons.prems(1,2,4,5,6) fit' Suc by (intro Cons.IH) simp_all
    with run Suc show ?thesis by simp
  qed
qed
subsection \<open>The packed atlas\<close>

lemma pack_atlas_fields:
  assumes "size_fn (length sps) = (w, h, spr)"
  shows "atlas_image (pack_atlas size_fn sw sh tb sps) = fst (place_sprites spr sw sh 0 sps (new_image w h clear_px, []))"
    and "atlas_coords (pack_atlas size_fn sw sh tb sps) = snd (place_sprites spr sw sh 0 sps (new_image w h clear_px, []))"
    and "atlas_per_row (pack_atlas size_fn sw sh tb sps) = spr"
    and "text_draws (pack_atlas size_fn sw sh tb sps) = watermark_draws w h tb"
  using assms by (simp_all add: pack_atlas_def case_prod_beta Let_def)

lemma size_fits_world: "size_fits (calculate_optimal_atlas_size sw sh) sw sh"
  unfolding size_fits_def
  using atlas_slot_fits ceil_sqrt_pos
  by (auto simp: calculate_optimal_atlas_size_def Let_def)

lemma size_fits_min: "size_fits (calculate_optimal_atlas_size_min sw sh) sw sh"
  unfolding size_fits_def
  using atlas_slot_fits ceil_sqrt_pos
  by (fastforce simp: calculate_optimal_atlas_size_min_def Let_def intro: le_trans [OF _ max.cobounded1])

lemma pack_atlas_pixels:
  assumes "size_fits size_fn sw sh"
    and "\<forall>(nm, sp) \<in> set sps. img_w sp = sw \<and> img_h sp = sh"
    and "j < length sps" "a < sw" "b < sh"
  shows "px (atlas_image (pack_atlas size_fn sw sh tb sps))
            (fst (sprite_pos (atlas_per_row (pack_atlas size_fn sw sh tb sps)) sw sh j) + a)
            (snd (sprite_pos (atlas_per_row (pack_atlas size_fn sw sh tb sps)) sw sh j) + b) =
         px (snd (sps ! j)) a b"
proof -
  obtain w h spr where sz: "size_fn (length sps) = (w, h, spr)" by (cases "size_fn (length sps)") auto
  from assms(1,3) sz have spr: "0 < spr" unfolding size_fits_def by fastforce
  from assms(1) sz have fit: "\<forall>k < length sps. fst (sprite_pos spr sw sh (0 + k)) + sw \<le> img_w (new_image w h clear_px) \<and>
                          snd (sprite_pos spr sw sh (0 + k)) + sh \<le> img_h (new_image w h clear_px)"
    unfolding size_fits_def by fastforce
  have "px (fst (place_sprites spr sw sh 0 sps (new_image w h clear_px, [])))
            (fst (sprite_pos spr sw sh (0 + j)) + a) (snd (sprite_pos spr sw sh (0 + j)) + b) =
        px (snd (sps ! j)) a b"
    by (rule place_sprites_pixels [OF assms(2) spr fit assms(3-5)])
  then show ?thesis using sz by (simp add: pack_atlas_fields)
qed

text \<open>
  Packing a list with the debug tile appended: the names are the list's and
  \<open>debug\<close>, and \<open>debug\<close> is looked up at the slot after the list, whatever
  names the list holds (a later placement overwrites).
\<close>

lemma pack_atlas_debug_last:
  "fst ` set (atlas_coords (pack_atlas size_fn sw sh tb (sps @ [(''debug'', t)]))) = fst ` set sps \<union> {''debug''} \<and>
   map_of (atlas_coords (pack_atlas size_fn sw sh tb (sps @ [(''debug'', t)]))) ''debug'' =
     Some (sprite_pos (atlas_per_row (pack_atlas size_fn sw sh tb (sps @ [(''debug'', t)]))) sw sh (length sps))"
proof -
  let ?all = "sps @ [(''debug'', t)]"
  obtain w h spr where sz: "size_fn (length ?all) = (w, h, spr)" by (cases "size_fn (length ?all)") auto
  have z: "zip (map fst ?all) (map (sprite_pos spr sw sh) [0..<0 + length ?all]) =
           zip (map fst sps) (map (sprite_pos spr sw sh) [0..<length sps]) @ [(''debug'', sprite_pos spr sw sh (length sps))]"
    by simp
  show ?thesis
    unfolding pack_atlas_fields [where size_fn=size_fn and sps="?all", OF sz] place_sprites_coords z by (force simp: place_sprites_keys)
qed

lemma pack_atlas_unique_sprite:
  assumes fits: "size_fits size_fn sw sh"
    and sizes: "\<forall>(nm, sp) \<in> set sps. img_w sp = sw \<and> img_h sp = sh"
    and j: "j < length sps" "sps ! j = (n, t)"
    and uniq: "\<And>i. i < length sps \<Longrightarrow> fst (sps ! i) = n \<Longrightarrow> i = j"
    and ab: "a < sw" "b < sh"
  shows "map_of (atlas_coords (pack_atlas size_fn sw sh tb sps)) n =
           Some (sprite_pos (atlas_per_row (pack_atlas size_fn sw sh tb sps)) sw sh j) \<and>
         px (atlas_image (pack_atlas size_fn sw sh tb sps))
            (fst (sprite_pos (atlas_per_row (pack_atlas size_fn sw sh tb sps)) sw sh j) + a)
            (snd (sprite_pos (atlas_per_row (pack_atlas size_fn sw sh tb sps)) sw sh j) + b) = px t a b"
proof
  obtain w h spr where sz: "size_fn (length sps) = (w, h, spr)" by (cases "size_fn (length sps)") auto
  let ?z = "zip (map fst sps) (map (sprite_pos spr sw sh) [0..<length sps])"
  have mem: "(n, sprite_pos spr sw sh j) \<in> set ?z"
    using j by (auto simp: set_zip intro!: exI [of _ j])
  have one: "v = sprite_pos spr sw sh j" if "(n, v) \<in> set ?z" for v
  proof -
    from that obtain i where "i < length sps" "fst (sps ! i) = n" "v = sprite_pos spr sw sh i"
      by (auto simp: set_zip)
    with uniq show ?thesis by simp
  qed
  have "map_of (rev ?z) n = Some (sprite_pos spr sw sh j)"
    using mem one by (rule map_of_rev_unique)
  then show "map_of (atlas_coords (pack_atlas size_fn sw sh tb sps)) n =
               Some (sprite_pos (atlas_per_row (pack_atlas size_fn sw sh tb sps)) sw sh j)"
    by (simp add: pack_atlas_fields [where size_fn=size_fn and sps=sps, OF sz] place_sprites_coords)
  show "px (atlas_image (pack_atlas size_fn sw sh tb sps))
          (fst (sprite_pos (atlas_per_row (pack_atlas size_fn sw sh tb sps)) sw sh j) + a)
          (snd (sprite_pos (atlas_per_row (pack_atlas size_fn sw sh tb sps)) sw sh j) + b) = px t a b"
    using pack_atlas_pixels [OF fits sizes j(1) ab, of tb] j(2) by simp
qed

section \<open>Properties of the packer\<close>

text \<open>
  C6. Every slot a sprite can be placed in lies inside the atlas canvas, for the size
  function of gen_world.py and for the one with the 256 pixel floor.
\<close>

theorem atlas_slots_inside:
  assumes "i < n"
  shows "(case calculate_optimal_atlas_size sw sh n of (w, h, spr) \<Rightarrow>
            fst (sprite_pos spr sw sh i) + sw \<le> w \<and> snd (sprite_pos spr sw sh i) + sh \<le> h) \<and>
         (case calculate_optimal_atlas_size_min sw sh n of (w, h, spr) \<Rightarrow>
            fst (sprite_pos spr sw sh i) + sw \<le> w \<and> snd (sprite_pos spr sw sh i) + sh \<le> h)"
  using assms size_fits_world [of sw sh] size_fits_min [of sw sh]
  unfolding size_fits_def by (auto split: prod.splits)

theorem atlas_slots_inside_witness:
  "(10::nat) < 11 \<and>
   (case calculate_optimal_atlas_size 16 16 11 of (w, h, spr) \<Rightarrow>
      fst (sprite_pos spr 16 16 10) + 16 \<le> w \<and> snd (sprite_pos spr 16 16 10) + 16 \<le> h) \<and>
   (case calculate_optimal_atlas_size_min 16 16 11 of (w, h, spr) \<Rightarrow>
      fst (sprite_pos spr 16 16 10) + 16 \<le> w \<and> snd (sprite_pos spr 16 16 10) + 16 \<le> h)"
  using atlas_slots_inside [of 10 11 16 16] by simp

text \<open>
  The executable search for \<open>math.ceil(math.sqrt(n))\<close> computes the real ceiling
  of the real square root.
\<close>

lemma ceil_sqrt_eq_real: "ceil_sqrt n = nat \<lceil>sqrt (real n)\<rceil>"
proof -
  let ?s = "ceil_sqrt n"
  have up: "sqrt (real n) \<le> real ?s"
  proof -
    have "real n \<le> real ?s * real ?s" using ceil_sqrt_least(1) [of n] by (simp flip: of_nat_mult)
    then have "sqrt (real n) \<le> sqrt (real ?s * real ?s)" by (rule real_sqrt_le_mono)
    then show ?thesis by simp
  qed
  have down: "real ?s - 1 < sqrt (real n)"
  proof (cases ?s)
    case 0
    have h: "0 \<le> sqrt (real n)" by simp
    from 0 have "real ?s = 0" by simp
    with h show ?thesis by linarith
  next
    case (Suc t)
    then have "t * t < n" using ceil_sqrt_least(2) [of t n] by simp
    then have "(real t)\<^sup>2 < real n" by (simp add: power2_eq_square flip: of_nat_mult)
    then have "real t < sqrt (real n)" by (rule real_less_rsqrt)
    with Suc show ?thesis by simp
  qed
  from up down have "\<lceil>sqrt (real n)\<rceil> = int ?s"
    by (intro ceiling_unique) simp_all
  then show ?thesis by simp
qed

text \<open>
  Both atlas dimensions are powers of two, and with the floor of gen_items.py and
  gen_characters.py they are at least 256.
\<close>

lemma atlas_size_pow2:
  "(case calculate_optimal_atlas_size sw sh n of (w, h, spr) \<Rightarrow>
      (\<exists>k. w = 2 ^ k) \<and> (\<exists>k. h = 2 ^ k)) \<and>
   (case calculate_optimal_atlas_size_min sw sh n of (w, h, spr) \<Rightarrow>
      (\<exists>k. w = 2 ^ k) \<and> (\<exists>k. h = 2 ^ k) \<and> MIN_ATLAS_SIZE \<le> w \<and> MIN_ATLAS_SIZE \<le> h)"
proof -
  have floor: "\<exists>k. max (next_power_of_2 m) MIN_ATLAS_SIZE = 2 ^ k" for m
    using max_pow2_floor by (metis next_power_of_2_eq)
  show ?thesis
    using floor next_power_of_2_pow2
    by (auto simp: calculate_optimal_atlas_size_def calculate_optimal_atlas_size_min_def Let_def)
qed

text \<open>
  The spec's example: 10 sprites and the debug sprite give 4 sprites per row, a raw
  64 by 48 atlas rounded to 64 by 64, and 256 by 256 where the floor applies.
\<close>

lemma atlas_size_example:
  "calculate_optimal_atlas_size 16 16 11 = (64, 64, 4) \<and>
   calculate_optimal_atlas_size_min 16 16 11 = (256, 256, 4)"
  by code_simp

text \<open>
  C7. The atlas of \<open>calculate_optimal_atlas_size\<close> is as small as its rounding allows:
  the sprites per row are the real \<open>ceil(sqrt(n))\<close>, and each dimension is the least
  power of two that holds the raw grid (at least the raw size, less than twice it).
\<close>

theorem atlas_size_tight:
  assumes "0 < n" "0 < sw" "0 < sh"
    and sz: "calculate_optimal_atlas_size sw sh n = (w, h, spr)"
  shows "spr = nat \<lceil>sqrt (real n)\<rceil> \<and>
         (\<exists>k. w = 2 ^ k) \<and> spr * sw \<le> w \<and> w < 2 * (spr * sw) \<and>
         (\<exists>k. h = 2 ^ k) \<and> ceil_div n spr * sh \<le> h \<and> h < 2 * (ceil_div n spr * sh)"
proof -
  have spr: "spr = ceil_sqrt n" and w: "w = next_power_of_2 (spr * sw)"
    and h: "h = next_power_of_2 (ceil_div n spr * sh)"
    using sz by (auto simp: calculate_optimal_atlas_size_def Let_def)
  have "0 < spr" using spr ceil_sqrt_pos assms(1) by simp
  moreover have "0 < ceil_div n spr"
    using ceil_sqrt_capacity [of n] spr assms(1) by (cases "ceil_div n spr") auto
  ultimately have "0 < spr * sw" "0 < ceil_div n spr * sh" using assms(2,3) by simp_all
  then show ?thesis
    using spr w h ceil_sqrt_eq_real next_power_of_2_pow2 next_power_of_2_ge next_power_of_2_least
    by simp
qed
theorem atlas_size_tight_witness:
  "0 < (11::nat) \<and> 0 < (16::nat) \<and> 0 < (16::nat) \<and> calculate_optimal_atlas_size 16 16 11 = (64, 64, 4) \<and>
   4 = nat \<lceil>sqrt (real (11::nat))\<rceil> \<and>
   (\<exists>k. (64::nat) = 2 ^ k) \<and> 4 * 16 \<le> (64::nat) \<and> (64::nat) < 2 * (4 * 16) \<and>
   (\<exists>k. (64::nat) = 2 ^ k) \<and> ceil_div 11 4 * 16 \<le> (64::nat) \<and> (64::nat) < 2 * (ceil_div 11 4 * 16)"
proof -
  have e: "calculate_optimal_atlas_size 16 16 11 = (64, 64, 4)" by code_simp
  show ?thesis using atlas_size_tight [OF _ _ _ e] e by simp
qed

text \<open>
  C8. The coordinate dictionary maps every placed name to the slot of its last
  placement (later placements overwrite earlier ones), its keys are exactly the placed
  names, and no key occurs twice.
\<close>

theorem pack_atlas_coords:
  "map_of (atlas_coords (pack_atlas size_fn sw sh tb sps)) =
     map_of (rev (zip (map fst sps)
       (map (sprite_pos (atlas_per_row (pack_atlas size_fn sw sh tb sps)) sw sh) [0..<length sps]))) \<and>
   fst ` set (atlas_coords (pack_atlas size_fn sw sh tb sps)) = fst ` set sps \<and>
   distinct (map fst (atlas_coords (pack_atlas size_fn sw sh tb sps)))"
proof -
  obtain w h spr where sz: "size_fn (length sps) = (w, h, spr)" by (cases "size_fn (length sps)") auto
  show ?thesis
    using sz place_sprites_coords [of spr sw sh 0 sps "new_image w h clear_px" "[]"]
      place_sprites_keys [of spr sw sh 0 sps "new_image w h clear_px" "[]"]
      place_sprites_distinct [of "[]" spr sw sh 0 sps "new_image w h clear_px"]
    by (simp add: pack_atlas_fields)
qed

text \<open>
  C9. Every sprite of the batch appears unchanged in the atlas at its slot: the pixel at
  offset \<open>(a, b)\<close> of slot \<open>j\<close> is the pixel \<open>(a, b)\<close> of the \<open>j\<close>-th sprite, for either
  size function, when all sprites have the module's sprite size.
\<close>

theorem pack_atlas_sprite_pixels:
  assumes "size_fn = calculate_optimal_atlas_size sw sh \<or> size_fn = calculate_optimal_atlas_size_min sw sh"
    and "\<forall>(nm, sp) \<in> set sps. img_w sp = sw \<and> img_h sp = sh"
    and "j < length sps" "a < sw" "b < sh"
  shows "px (atlas_image (pack_atlas size_fn sw sh tb sps))
            (fst (sprite_pos (atlas_per_row (pack_atlas size_fn sw sh tb sps)) sw sh j) + a)
            (snd (sprite_pos (atlas_per_row (pack_atlas size_fn sw sh tb sps)) sw sh j) + b) =
         px (snd (sps ! j)) a b"
proof -
  from assms(1) have "size_fits size_fn sw sh"
    using size_fits_world size_fits_min by auto
  then show ?thesis using assms(2-5) by (rule pack_atlas_pixels)
qed

theorem pack_atlas_sprite_pixels_witness:
  "px (atlas_image (pack_atlas (calculate_optimal_atlas_size 16 16) 16 16 (0, 0)
          [(''a'', new_image 16 16 clear_px), (''b'', new_image 16 16 debug_colour)]))
      (fst (sprite_pos (atlas_per_row (pack_atlas (calculate_optimal_atlas_size 16 16) 16 16 (0, 0)
          [(''a'', new_image 16 16 clear_px), (''b'', new_image 16 16 debug_colour)])) 16 16 1) + 3)
      (snd (sprite_pos (atlas_per_row (pack_atlas (calculate_optimal_atlas_size 16 16) 16 16 (0, 0)
          [(''a'', new_image 16 16 clear_px), (''b'', new_image 16 16 debug_colour)])) 16 16 1) + 5) =
   debug_colour"
  using pack_atlas_sprite_pixels [of "calculate_optimal_atlas_size 16 16" 16 16
      "[(''a'', new_image 16 16 clear_px), (''b'', new_image 16 16 debug_colour)]" 1 3 5 "(0, 0)"]
  by simp

text \<open>
  C10. \<open>next_power_of_2\<close> returns, for a positive argument, the least power of two that is
  at least the argument.
\<close>

theorem next_power_of_2_least_pow2:
  "0 < n \<Longrightarrow> (\<exists>k. next_power_of_2 n = 2 ^ k) \<and> n \<le> next_power_of_2 n \<and> next_power_of_2 n < 2 * n"
  using next_power_of_2_pow2 next_power_of_2_ge next_power_of_2_least by blast

theorem next_power_of_2_least_pow2_witness:
  "(0::nat) < 48 \<and> (\<exists>k. next_power_of_2 48 = 2 ^ k) \<and> 48 \<le> next_power_of_2 48 \<and> next_power_of_2 48 < 2 * 48"
  using next_power_of_2_least_pow2 [of 48] by simp

end
