(* ===== verification/World.thy ===== *)
theory World
  imports Patterns Atlas
begin

text \<open>
  The world-tile generator, src/art/gen_world.py: the counted handlers
  \<open>process_ground_png\<close>, \<open>process_decor_png\<close>, \<open>process_tile_png\<close> and
  \<open>process_doors_png\<close> (instances of \<open>scan_counted\<close>), the sorted collection of the
  temporary directory, \<open>create_atlas\<close> with its used-name filter and debug tile, the
  JSON descriptor, and \<open>main\<close>: the required-file check, the handlers run in the order
  of \<open>world_files\<close> over one temporary directory, and the final atlas step.
\<close>

section \<open>The counted handlers\<close>

text \<open>\<open>process_ground_png(png_path, temp_dir)\<close>: every row, no used-name test.\<close>

definition process_ground_png :: "sheet \<Rightarrow> temp_dir \<Rightarrow> temp_dir \<times> sheet_outcome" where
  "process_ground_png sh d =
     (case sh of
        None \<Rightarrow> (d, Skipped UnreadableImage)
      | Some img \<Rightarrow>
          finish_sheet (scan_counted (\<lambda>n. ''ground-'' @ show_nat n) (\<lambda>_. True) img
            (grid_cells [0..<grid_rows img] (grid_cols img)) \<lparr>sprite_count = 0, tmp = d\<rparr>))"

text \<open>
  \<open>process_decor_png\<close>: rows 4 to \<open>min(15, rows - 1)\<close> inclusive (\<open>rows - 1\<close> is a
  Python int, -1 for an empty sheet), with the used-name test.
\<close>

definition decor_rows :: "nat \<Rightarrow> nat list" where
  "decor_rows rows = [4..<nat (min 15 (int rows - 1) + 1)]"

definition process_decor_png :: "sheet \<Rightarrow> temp_dir \<Rightarrow> string set option \<Rightarrow> temp_dir \<times> sheet_outcome" where
  "process_decor_png sh d used =
     (case sh of
        None \<Rightarrow> (d, Skipped UnreadableImage)
      | Some img \<Rightarrow>
          finish_sheet (scan_counted (\<lambda>n. ''decor-'' @ show_nat n) (used_keep used) img
            (grid_cells (decor_rows (grid_rows img)) (grid_cols img)) \<lparr>sprite_count = 0, tmp = d\<rparr>))"

text \<open>\<open>process_tile_png\<close>: every row, with the used-name test.\<close>

definition process_tile_png :: "sheet \<Rightarrow> temp_dir \<Rightarrow> string set option \<Rightarrow> temp_dir \<times> sheet_outcome" where
  "process_tile_png sh d used =
     (case sh of
        None \<Rightarrow> (d, Skipped UnreadableImage)
      | Some img \<Rightarrow>
          finish_sheet (scan_counted (\<lambda>n. ''tile-'' @ show_nat n) (used_keep used) img
            (grid_cells [0..<grid_rows img] (grid_cols img)) \<lparr>sprite_count = 0, tmp = d\<rparr>))"

text \<open>\<open>process_doors_png\<close>: every row, names prefixed by the tile type, used-name test.\<close>

definition process_doors_png ::
  "sheet \<Rightarrow> temp_dir \<Rightarrow> string \<Rightarrow> string set option \<Rightarrow> temp_dir \<times> sheet_outcome" where
  "process_doors_png sh d tile_type used =
     (case sh of
        None \<Rightarrow> (d, Skipped UnreadableImage)
      | Some img \<Rightarrow>
          finish_sheet (scan_counted (\<lambda>n. tile_type @ ''-'' @ show_nat n) (used_keep used) img
            (grid_cells [0..<grid_rows img] (grid_cols img)) \<lparr>sprite_count = 0, tmp = d\<rparr>))"

section \<open>Collection and the atlas\<close>

text \<open>
  \<open>Path.stem\<close>: the file name without its last suffix; a leading dot does not start a
  suffix, and neither does a trailing one.
\<close>

definition py_stem :: "string \<Rightarrow> string" where
  "py_stem name =
     (let i = length name - 1 - (length (takeWhile (\<lambda>c. c \<noteq> CHR ''.'') (rev name)))
      in if CHR ''.'' \<in> set name \<and> 0 < i \<and> i < length name - 1 then take i name else name)"

text \<open>
  \<open>collect_world_sprites(temp_dir)\<close>: \<open>sorted(temp_dir.glob("*.png"))\<close>. The paths
  share their directory, so they are ordered by file name, the \<open>.png\<close> suffix included.
  Each path is kept with the image saved under it.
\<close>

definition collect_world_sprites :: "temp_dir \<Rightarrow> (string \<times> image) list" where
  "collect_world_sprites d = sort_key fst d"

definition SPRITE_WIDTH :: nat where
  "SPRITE_WIDTH = 16"

definition SPRITE_HEIGHT :: nat where
  "SPRITE_HEIGHT = 16"

text \<open>The descriptor written by \<open>json.dump\<close>: a JSON value.\<close>

datatype json = JInt int | JStr string | JArr "json list" | JObj "(string \<times> json) list"

definition coords_json :: "coords \<Rightarrow> json" where
  "coords_json cs = JObj (map (\<lambda>(name, (x, y)). (name, JArr [JInt (int x), JInt (int y)])) cs)"

text \<open>
  \<open>create_atlas(sprite_files, used_tile_names)\<close>: keep the files whose stem is used
  (all of them without a used-name set), append \<open>debug.png\<close>, pack, and describe the
  result as \<open>{"tileSize": 16, "sprites": coordinates}\<close>.
\<close>

definition world_filter :: "string set option \<Rightarrow> (string \<times> image) list \<Rightarrow> (string \<times> image) list" where
  "world_filter used files = filter (\<lambda>(f, _). used_keep used (py_stem f)) files"

definition create_atlas_world ::
  "nat \<times> nat \<Rightarrow> (string \<times> image) list \<Rightarrow> string set option \<Rightarrow> atlas_out \<times> json" where
  "create_atlas_world text_box sprite_files used =
     (let filtered = map (\<lambda>(f, img). (py_stem f, img)) (world_filter used sprite_files)
                     @ [(''debug'', create_debug_tile SPRITE_WIDTH SPRITE_HEIGHT)];
          out = pack_atlas (calculate_optimal_atlas_size SPRITE_WIDTH SPRITE_HEIGHT)
                  SPRITE_WIDTH SPRITE_HEIGHT text_box filtered
      in (out, JObj [(''tileSize'', JInt (int SPRITE_WIDTH)), (''sprites'', coords_json (atlas_coords out))]))"

section \<open>The run\<close>

text \<open>\<open>world_files\<close>: the sheets and the tile type each is processed as, in order.\<close>

definition world_files :: "(string \<times> string) list" where
  "world_files =
     [(''Ground0.png'', ''ground''), (''Floor.png'', ''floor''), (''Wall.png'', ''wall''),
      (''Decor0.png'', ''decor''), (''Tile.png'', ''tile''), (''Door0.png'', ''doors0''),
      (''Door1.png'', ''doors1'')]"

text \<open>The dispatch of the processing loop of \<open>main\<close> (lines 658-670).\<close>

definition process_world_file ::
  "string set option \<Rightarrow> string \<Rightarrow> sheet \<Rightarrow> temp_dir \<Rightarrow> temp_dir \<times> sheet_outcome" where
  "process_world_file used tile_type sh d =
     (if tile_type = ''ground'' then process_ground_png sh d
      else if tile_type = ''decor'' then process_decor_png sh d used
      else if tile_type = ''tile'' then process_tile_png sh d used
      else if tile_type = ''doors0'' \<or> tile_type = ''doors1'' then process_doors_png sh d tile_type used
      else process_floor_wall_png sh d tile_type used)"

fun process_world_files ::
  "string set option \<Rightarrow> (string \<Rightarrow> sheet option) \<Rightarrow> (string \<times> string) list \<Rightarrow> temp_dir
     \<Rightarrow> temp_dir \<times> sheet_outcome list" where
  "process_world_files used fs [] d = (d, [])"
| "process_world_files used fs ((filename, tile_type) # rest) d =
     (let (d', outcome) = process_world_file used tile_type (case fs filename of Some sh \<Rightarrow> sh | None \<Rightarrow> None) d;
          (d'', os) = process_world_files used fs rest d'
      in (d'', outcome # os))"

text \<open>
  How a run of \<open>main\<close> ends: \<open>sys.exit(1)\<close> with the diagnostic's subject (the missing
  directory, or the list of missing files), the no-sprite message, or the written atlas
  and descriptor.
\<close>

datatype run_result =
    MissingObjectsDir
  | MissingFiles "string list"
  | NoSprites
  | Written atlas_out json

text \<open>
  \<open>main()\<close>, with the file system as inputs: whether \<open>OBJECTS_DIR\<close> exists, each
  object file (\<open>None\<close> when absent, \<open>Some None\<close> when present but unreadable), the
  used-name set read from map_renderer.gd, and the measured watermark box.
\<close>

definition main_world ::
  "bool \<Rightarrow> (string \<Rightarrow> sheet option) \<Rightarrow> string set option \<Rightarrow> nat \<times> nat \<Rightarrow> run_result" where
  "main_world objects_dir_exists fs used text_box =
     (if \<not> objects_dir_exists then MissingObjectsDir
      else
        (let missing_files = [filename. (filename, _) \<leftarrow> world_files, fs filename = None]
         in if missing_files \<noteq> [] then MissingFiles missing_files
            else
              (let d = fst (process_world_files used fs world_files []);
                   sprite_files = collect_world_sprites d
               in if sprite_files = [] then NoSprites
                  else case create_atlas_world text_box sprite_files used of
                         (out, js) \<Rightarrow> Written out js)))"

text \<open>
  A sample file system for the end-to-end run: a fully opaque 16x16 \<open>Ground0.png\<close>, the
  other six required sheets present but unreadable.
\<close>

definition ground_only :: "string \<Rightarrow> sheet option" where
  "ground_only f = (if f = ''Ground0.png'' then Some (Some (new_image 16 16 debug_colour))
                    else if f \<in> fst ` set world_files then Some None else None)"

section \<open>Lemmas\<close>

lemma counted_handler_spec:
  "finish_sheet (scan_counted nm keep img cs \<lparr>sprite_count = 0, tmp = d\<rparr>) =
   (save_all (counted_saves nm keep img 0 cs) d, Processed)"
  by (simp add: scan_counted_spec finish_sheet_def)

lemma distinct_fst_filter_zip: "distinct xs \<Longrightarrow> distinct (map fst (filter P (zip xs ys)))"
proof (induction xs arbitrary: ys)
  case Nil
  then show ?case by simp
next
  case (Cons x xs)
  show ?case
  proof (cases ys)
    case Nil
    then show ?thesis by simp
  next
    case (Cons y ys')
    have "x \<notin> set (map fst (filter P (zip xs ys')))"
      using Cons.prems by (auto dest: set_zip_leftD)
    with Cons.IH [of ys'] Cons.prems \<open>ys = y # ys'\<close> show ?thesis by simp
  qed
qed

lemma counted_saves_distinct:
  "inj nm \<Longrightarrow> distinct (map fst (counted_saves nm keep img c0 cs))"
proof -
  assume inj: "inj nm"
  let ?ks = "map fst (filter (keeps_cell nm keep img) (zip [c0..<c0 + length cs] cs))"
  have ks: "distinct ?ks" by (rule distinct_fst_filter_zip) simp
  have i: "inj (\<lambda>k. nm k @ ''.png'')" using inj by (simp add: inj_def)
  have eq: "map fst (counted_saves nm keep img c0 cs) = map (\<lambda>k. nm k @ ''.png'') ?ks"
    by (simp add: counted_saves_def comp_def case_prod_beta)
  show ?thesis unfolding eq
    by (rule distinct_map [THEN iffD2]) (use ks i in \<open>auto intro: inj_on_subset\<close>)
qed

lemma map_of_save_all_distinct:
  "distinct (map fst xs) \<Longrightarrow> (k, v) \<in> set xs \<Longrightarrow> map_of (save_all xs d) k = Some v"
proof -
  assume "distinct (map fst xs)" "(k, v) \<in> set xs"
  then have "map_of (rev xs) k = Some v" by (simp add: map_of_is_SomeI rev_map [symmetric])
  then show ?thesis by (simp add: map_of_save_all)
qed

lemma grid_cells_upt:
  "grid_cells [a..<b] cols = map (\<lambda>k. (a + k div cols, k mod cols)) [0..<(b - a) * cols]"
proof (induction b)
  case 0
  then show ?case by (simp add: grid_cells_def)
next
  case (Suc b)
  show ?case
  proof (cases "a \<le> b")
    case False
    then have "Suc b - a = 0" by simp
    with False show ?thesis by (simp add: grid_cells_def)
  next
    case True
    have split: "[0..<(Suc b - a) * cols] = [0..<(b - a) * cols] @ [(b - a) * cols..<(b - a) * cols + cols]"
      using True upt_add_eq_append [of 0 "(b - a) * cols" cols] by (simp add: Suc_diff_le add.commute)
    have tail: "map (\<lambda>k. (a + k div cols, k mod cols)) [(b - a) * cols..<(b - a) * cols + cols] =
                map (Pair b) [0..<cols]"
    proof (rule nth_equalityI)
      fix j assume "j < length (map (\<lambda>k. (a + k div cols, k mod cols)) [(b - a) * cols..<(b - a) * cols + cols])"
      then have j: "j < cols" by simp
      then have "((b - a) * cols + j) div cols = b - a" "((b - a) * cols + j) mod cols = j" by simp_all
      with j True show "map (\<lambda>k. (a + k div cols, k mod cols)) [(b - a) * cols..<(b - a) * cols + cols] ! j =
                       map (Pair b) [0..<cols] ! j" by simp
    qed simp
    have "grid_cells [a..<Suc b] cols = grid_cells [a..<b] cols @ map (Pair b) [0..<cols]"
      using True by (simp add: grid_cells_def)
    with Suc.IH split tail show ?thesis by simp
  qed
qed

lemma grid_cells_cell:
  assumes "a \<le> r" "r < b" "c < cols"
  shows "(r - a) * cols + c < length (grid_cells [a..<b] cols) \<and>
         grid_cells [a..<b] cols ! ((r - a) * cols + c) = (r, c)"
proof -
  let ?k = "(r - a) * cols + c"
  have "Suc (r - a) \<le> b - a" using assms(1,2) by arith
  then have "Suc (r - a) * cols \<le> (b - a) * cols" by (rule mult_le_mono1)
  moreover have "?k < Suc (r - a) * cols" using assms(3) by simp
  ultimately have k: "?k < (b - a) * cols" by linarith
  have "a + ?k div cols = r" "?k mod cols = c" using assms(1,3) by simp_all
  with k show ?thesis by (simp add: grid_cells_upt)
qed

lemma counted_saves_cell:
  assumes "inj nm" "k < length cs" "cs ! k = (r, c)"
    and "is_tile_transparent (tile_at img r c) = Inr False" "keep (nm k)"
  shows "map_of (save_all (counted_saves nm keep img 0 cs) d) (nm k @ ''.png'') = Some (tile_at img r c)"
proof -
  have "(k, r, c) \<in> set (filter (keeps_cell nm keep img) (zip [0..<0 + length cs] cs))"
    using assms in_set_zip_upt [of k "(r, c)" 0 cs] by (simp add: keeps_cell_def)
  then have "(nm k @ ''.png'', tile_at img r c) \<in> set (counted_saves nm keep img 0 cs)"
    unfolding counted_saves_def by force
  with counted_saves_distinct [OF assms(1)] show ?thesis by (rule map_of_save_all_distinct)
qed

lemma counted_grid_cell:
  assumes "inj nm" "a \<le> r" "r < b" "c < cols"
    and "is_tile_transparent (tile_at img r c) = Inr False" "keep (nm ((r - a) * cols + c))"
  shows "map_of (save_all (counted_saves nm keep img 0 (grid_cells [a..<b] cols)) d)
           (nm ((r - a) * cols + c) @ ''.png'') = Some (tile_at img r c)"
  using grid_cells_cell [OF assms(2-4)] assms(1,5,6) by (blast intro: counted_saves_cell)

lemma inj_prefix_show_nat: "inj (\<lambda>n. p @ show_nat n)"
  by (simp add: inj_def)

lemma decor_rows_eq: "decor_rows rows = [4..<min 16 rows]"
proof -
  have "nat (min 15 (int rows - 1) + 1) = min 16 rows" by linarith
  then show ?thesis by (simp add: decor_rows_def)
qed

lemma ground_only_run:
  "process_world_files (Some {''ground-0''}) ground_only world_files [] =
     ([(''ground-0.png'', tile_at (new_image 16 16 debug_colour) 0 0)],
      [Processed, Skipped UnreadableImage, Skipped UnreadableImage, Skipped UnreadableImage,
       Skipped UnreadableImage, Skipped UnreadableImage, Skipped UnreadableImage])"
proof -
  have g: "grid_rows (new_image 16 16 debug_colour) = 1" "grid_cols (new_image 16 16 debug_colour) = 1"
    by (simp_all add: grid_rows_def grid_cols_def TILE_SIZE_def)
  have t: "is_tile_transparent (tile_at (new_image 16 16 debug_colour) 0 0) = Inr False"
    by (simp add: is_tile_transparent_new_image TILE_SIZE_def debug_colour_def alpha_def)
  have "process_ground_png (Some (new_image 16 16 debug_colour)) [] =
          ([(''ground-0.png'', tile_at (new_image 16 16 debug_colour) 0 0)], Processed)"
    using t by (simp add: process_ground_png_def counted_handler_spec g grid_cells_def
        counted_saves_def keeps_cell_def save_all_def name_eval finish_sheet_def save_def)
  then show ?thesis
    by (simp add: world_files_def ground_only_def process_world_file_def process_decor_png_def
        process_tile_png_def process_doors_png_def process_floor_wall_png_def)
qed

lemma atlas_size_2: "calculate_optimal_atlas_size 16 16 (Suc (Suc 0)) = (32, 16, 2)"
  by code_simp

subsection \<open>What the later handlers of the run leave alone\<close>

lemma save_all_other_key:
  "\<forall>(f, t) \<in> set xs. \<exists>y. f = p @ y \<Longrightarrow> \<forall>y. k \<noteq> p @ y \<Longrightarrow> map_of (save_all xs d) k = map_of d k"
proof -
  assume xs: "\<forall>(f, t) \<in> set xs. \<exists>y. f = p @ y" and k: "\<forall>y. k \<noteq> p @ y"
  have "k \<notin> fst ` set (rev xs)" using xs k by fastforce
  then have "map_of (rev xs) k = None" by (simp add: map_of_eq_None_iff)
  then show ?thesis by (simp add: map_of_save_all map_add_def)
qed

lemma finish_other_key:
  "(\<And>n. \<exists>y. nm n @ ''.png'' = p @ y) \<Longrightarrow> \<forall>y. k \<noteq> p @ y \<Longrightarrow>
   map_of (fst (finish_sheet (scan_counted nm keep img cs \<lparr>sprite_count = 0, tmp = d\<rparr>))) k = map_of d k"
proof -
  assume nm: "\<And>n. \<exists>y. nm n @ ''.png'' = p @ y" and k: "\<forall>y. k \<noteq> p @ y"
  have "\<forall>(f, t) \<in> set (counted_saves nm keep img 0 cs). \<exists>y. f = p @ y"
    using nm by (auto simp: counted_saves_def)
  then show ?thesis using k by (simp add: counted_handler_spec save_all_other_key)
qed

lemma floor_wall_other_key:
  "tt = ''wall'' \<or> tt = ''floor'' \<Longrightarrow> \<forall>y. k \<noteq> tt @ ''-'' @ y \<Longrightarrow>
   map_of (fst (process_floor_wall_png sh d tt used)) k = map_of d k"
proof (cases sh)
  case None
  then show ?thesis by (simp add: process_floor_wall_png_def)
next
  case (Some img)
  assume tt: "tt = ''wall'' \<or> tt = ''floor''" and k: "\<forall>y. k \<noteq> tt @ ''-'' @ y"
  let ?xs = "concat (map (\<lambda>i. block_cell_saves (tt @ ''-'' @ show_nat (i + 1))
               (get_pattern_map_for_tile_type tt) img (grid_rows img) (grid_cols img)
               (block_row (grid_cols img div 7) i) (block_col (grid_cols img div 7) i) local_cells)
             (fst (select_blocks tt used (total_blocks (grid_rows img) (grid_cols img)))))"
  have "\<forall>(f, t) \<in> set ?xs. \<exists>y. f = (tt @ ''-'') @ y"
    by (auto simp: block_cell_saves_def)
  moreover have "\<forall>y. k \<noteq> (tt @ ''-'') @ y" using k by simp
  ultimately have "map_of (save_all ?xs d) k = map_of d k" by (rule save_all_other_key)
  then show ?thesis by (simp add: Some process_floor_wall_png_spec [OF tt])
qed

lemma world_file_other_key:
  assumes "tt \<in> snd ` set world_files" "\<forall>y. k \<noteq> tt @ ''-'' @ y"
  shows "map_of (fst (process_world_file used tt sh d)) k = map_of d k"
proof (cases sh)
  case None
  then show ?thesis
    by (simp add: process_world_file_def process_ground_png_def process_decor_png_def process_tile_png_def
        process_doors_png_def process_floor_wall_png_def)
next
  case (Some img)
  have tt: "tt = ''ground'' \<or> tt = ''floor'' \<or> tt = ''wall'' \<or> tt = ''decor'' \<or> tt = ''tile'' \<or>
            tt = ''doors0'' \<or> tt = ''doors1''"
    using assms(1) by (auto simp: world_files_def)
  then show ?thesis
    using assms(2) finish_other_key [of _ "tt @ ''-''" k] floor_wall_other_key [of tt k sh d used]
    by (elim disjE) (simp_all add: Some process_world_file_def process_ground_png_def process_decor_png_def
        process_tile_png_def process_doors_png_def)
qed

lemma world_files_other_key:
  "set files \<subseteq> set world_files \<Longrightarrow> \<forall>(f, tt) \<in> set files. \<forall>y. k \<noteq> tt @ ''-'' @ y \<Longrightarrow>
   map_of (fst (process_world_files used fs files d)) k = map_of d k"
proof (induction files arbitrary: d)
  case Nil
  then show ?case by simp
next
  case (Cons x rest)
  obtain f tt where x: "x = (f, tt)" by (cases x)
  have "tt \<in> snd ` set world_files" using Cons.prems(1) x by force
  then have "map_of (fst (process_world_file used tt (case fs f of Some sh \<Rightarrow> sh | None \<Rightarrow> None) d)) k = map_of d k"
    using Cons.prems(2) x by (intro world_file_other_key) auto
  with Cons.IH [of "fst (process_world_file used tt (case fs f of Some sh \<Rightarrow> sh | None \<Rightarrow> None) d)"] Cons.prems
  show ?case by (simp add: x Let_def case_prod_beta)
qed

lemma world_run_ground_cell:
  assumes "fs ''Ground0.png'' = Some (Some img)"
    and "r < grid_rows img" "c < grid_cols img" "is_tile_transparent (tile_at img r c) = Inr False"
  shows "map_of (fst (process_world_files used fs world_files []))
           (''ground-'' @ show_nat (r * grid_cols img + c) @ ''.png'') = Some (tile_at img r c)"
proof -
  let ?k = "''ground-'' @ show_nat (r * grid_cols img + c) @ ''.png''"
  let ?d1 = "fst (process_ground_png (Some img) [])"
  have d1: "map_of ?d1 ?k = Some (tile_at img r c)"
    using counted_grid_cell [OF inj_prefix_show_nat [of "''ground-''"] _ assms(2-4), where a=0 and keep="\<lambda>_. True" and d="[]"]
    by (simp add: process_ground_png_def counted_handler_spec)
  have rest: "map_of (fst (process_world_files used fs (tl world_files) ?d1)) ?k = map_of ?d1 ?k"
    by (rule world_files_other_key) (auto simp: world_files_def)
  have "fst (process_world_files used fs world_files []) = fst (process_world_files used fs (tl world_files) ?d1)"
    by (simp add: world_files_def assms(1) process_world_file_def Let_def case_prod_beta)
  with rest d1 show ?thesis by simp
qed

section \<open>Properties\<close>

text \<open>
  C11. \<open>process_decor_png\<close> names cells from row 4: a non-transparent cell at row
  \<open>r\<close> (4 to 15, inside the sheet) and column \<open>c\<close> whose name passes the used-name
  test is saved as \<open>decor-k.png\<close> with \<open>k = (r - 4) * cols + c\<close>, holding that cell,
  and the sheet is reported processed.
\<close>

theorem decor_cell_saved:
  assumes "4 \<le> r" "r < min 16 (grid_rows img)" "c < grid_cols img"
    and "is_tile_transparent (tile_at img r c) = Inr False"
    and "used_keep used (''decor-'' @ show_nat ((r - 4) * grid_cols img + c))"
  shows "map_of (fst (process_decor_png (Some img) d used))
            (''decor-'' @ show_nat ((r - 4) * grid_cols img + c) @ ''.png'') = Some (tile_at img r c) \<and>
         snd (process_decor_png (Some img) d used) = Processed"
  using counted_grid_cell [OF inj_prefix_show_nat [of "''decor-''"] assms(1,2) assms(3,4),
      where keep="used_keep used" and d=d] assms(2,5)
  by (simp add: process_decor_png_def counted_handler_spec decor_rows_eq)

theorem decor_cell_saved_witness:
  "map_of (fst (process_decor_png (Some (new_image 16 80 debug_colour)) [] None)) ''decor-0.png'' =
     Some (tile_at (new_image 16 80 debug_colour) 4 0) \<and>
   snd (process_decor_png (Some (new_image 16 80 debug_colour)) [] None) = Processed"
proof -
  have g: "grid_rows (new_image 16 80 debug_colour) = 5" "grid_cols (new_image 16 80 debug_colour) = 1"
    by (simp_all add: grid_rows_def grid_cols_def TILE_SIZE_def)
  have t: "is_tile_transparent (tile_at (new_image 16 80 debug_colour) 4 0) = Inr False"
    by (simp add: is_tile_transparent_new_image TILE_SIZE_def debug_colour_def alpha_def)
  show ?thesis
    using decor_cell_saved [of 4 "new_image 16 80 debug_colour" 0 None "[]"] g t
    by (simp add: used_keep_def name_eval)
qed

text \<open>
  C12. The world descriptor's sprite names are exactly the stems of the files that pass
  the used-name filter plus \<open>debug\<close>; every name other than \<open>debug\<close> is a used
  name; and \<open>debug\<close> sits at the slot after the last filtered file.
\<close>

theorem create_atlas_world_names:
  "fst ` set (atlas_coords (fst (create_atlas_world tb files used))) =
     py_stem ` fst ` set (world_filter used files) \<union> {''debug''} \<and>
   fst ` set (atlas_coords (fst (create_atlas_world tb files used))) \<subseteq> Collect (used_keep used) \<union> {''debug''} \<and>
   map_of (atlas_coords (fst (create_atlas_world tb files used))) ''debug'' =
     Some (sprite_pos (atlas_per_row (fst (create_atlas_world tb files used))) SPRITE_WIDTH SPRITE_HEIGHT
             (length (world_filter used files)))"
proof -
  have used: "py_stem ` fst ` set (world_filter used files) \<subseteq> Collect (used_keep used)"
    by (auto simp: world_filter_def)
  have "fst ` set (map (\<lambda>(f, img). (py_stem f, img)) (world_filter used files)) =
        py_stem ` fst ` set (world_filter used files)"
    by force
  with used show ?thesis
    using pack_atlas_debug_last [where sps="map (\<lambda>(f, img). (py_stem f, img)) (world_filter used files)"]
    by (simp add: create_atlas_world_def Let_def) blast
qed

text \<open>
  C13. \<open>main\<close> of gen_world.py exits for a missing objects directory exactly when it is
  missing, and exits listing missing files exactly when the directory exists and some
  required sheet is absent, listing precisely the absent ones in \<open>world_files\<close> order.
\<close>

theorem main_world_exits:
  "(main_world ex fs used tb = MissingObjectsDir \<longleftrightarrow> \<not> ex) \<and>
   (main_world ex fs used tb = MissingFiles ms \<longleftrightarrow>
      ex \<and> ms \<noteq> [] \<and> ms = [filename. (filename, _) \<leftarrow> world_files, fs filename = None])"
proof -
  obtain m where m: "[filename. (filename, _) \<leftarrow> world_files, fs filename = None] = m" by blast
  show ?thesis unfolding main_world_def Let_def m by (auto split: prod.split)
qed

text \<open>
  An end-to-end run: with only an opaque \<open>Ground0.png\<close> readable and the other
  sheets unreadable, \<open>main\<close> skips the bad sheets, writes a 32x16 atlas, and the
  descriptor is \<open>{"tileSize": 16, "sprites": {"ground-0": [0, 0], "debug": [16, 0]}}\<close>.
\<close>

lemma main_world_ground_only:
  "\<exists>out. main_world True ground_only (Some {''ground-0''}) tb =
     Written out (JObj [(''tileSize'', JInt 16),
                        (''sprites'', JObj [(''ground-0'', JArr [JInt 0, JInt 0]),
                                            (''debug'', JArr [JInt 16, JInt 0])])]) \<and>
   img_w (atlas_image out) = 32 \<and> img_h (atlas_image out) = 16"
proof -
  have stem: "py_stem ''ground-0.png'' = ''ground-0''" by (simp add: py_stem_def)
  have sz: "calculate_optimal_atlas_size SPRITE_WIDTH SPRITE_HEIGHT 2 = (32, 16, 2)"
    using atlas_size_2 by (simp add: SPRITE_WIDTH_def SPRITE_HEIGHT_def numeral_2_eq_2)
  have miss: "[filename. (filename, _) \<leftarrow> world_files, ground_only filename = None] = []"
    by (simp add: world_files_def ground_only_def)
  show ?thesis unfolding main_world_def Let_def miss
    by (simp add: ground_only_run collect_world_sprites_def create_atlas_world_def
        world_filter_def used_keep_def stem Let_def pack_atlas_def sz sprite_pos_def SPRITE_WIDTH_def
        SPRITE_HEIGHT_def coords_json_def atlas_size_2 paste_def)
qed

text \<open>
  \<open>collect_world_sprites\<close> orders the saved sprites by file name, suffix
  included, which is not the order of their names: \<open>a-1-x.png\<close> comes before
  \<open>a-1.png\<close> (\<open>-\<close> precedes \<open>.\<close>) although \<open>a-1\<close> precedes \<open>a-1-x\<close>.
\<close>

lemma collect_world_sprites_file_order:
  "map fst (collect_world_sprites [(''a-1.png'', t), (''a-1-x.png'', t)]) = [''a-1-x.png'', ''a-1.png''] \<and>
   map py_stem [''a-1-x.png'', ''a-1.png''] = [''a-1-x'', ''a-1''] \<and>
   sort [''a-1-x'', ''a-1''] = [''a-1'', ''a-1-x'']"
  by code_simp

end
