(* ===== verification/Items.thy ===== *)
theory Items
  imports World
begin

text \<open>
  The item generator, src/art/gen_items.py: the allow-list read from the \<open>sprite\<close>
  column of items.csv, \<open>extract_item_name\<close>, the counted handler
  \<open>process_item_png\<close>, the sorted collection, \<open>create_atlas\<close> with the always-on
  allow-list filter and the 256-pixel floor, and \<open>main\<close>. The CSV file is given as its
  parsed rows (each row a map from column name to cell text); the item sheets as the
  directory listing, each file with its decoded sheet.
\<close>

section \<open>Configuration and the allow-list\<close>

definition SET_THIS_TO_FALSE_TO_GET_ALL_ITEMS :: bool where
  "SET_THIS_TO_FALSE_TO_GET_ALL_ITEMS = True"

type_synonym csv_row = "string \<Rightarrow> string option"

text \<open>
  \<open>read_allowed_sprite_names_from_csv()\<close>: \<open>row.get('sprite', '').strip()\<close>, added
  when not empty. The cell is taken whole: no splitting at commas.
\<close>

definition csv_get :: "csv_row \<Rightarrow> string \<Rightarrow> string" where
  "csv_get row col = (case row col of Some v \<Rightarrow> v | None \<Rightarrow> [])"

definition allowed_item_names :: "csv_row list \<Rightarrow> string set" where
  "allowed_item_names rows =
     set [py_strip (csv_get row ''sprite''). row \<leftarrow> rows, py_strip (csv_get row ''sprite'') \<noteq> []]"

text \<open>
  The allow-list filter of \<open>create_atlas\<close>: a file is skipped when filtering is on and
  its stem is not allowed.
\<close>

definition allow_filter :: "bool \<Rightarrow> string set \<Rightarrow> (string \<times> 'a) list \<Rightarrow> (string \<times> 'a) list" where
  "allow_filter enabled allowed files =
     filter (\<lambda>(f, _). \<not> (enabled \<and> py_stem f \<notin> allowed)) files"

section \<open>Slicing\<close>

text \<open>\<open>extract_item_name(filename)\<close>: the lower-cased stem.\<close>

definition extract_item_name :: "string \<Rightarrow> string" where
  "extract_item_name filename = py_lower (py_stem filename)"

text \<open>\<open>process_item_png(png_path, temp_dir)\<close>: every cell, named \<open>{item}-{count}\<close>.\<close>

definition process_item_png :: "string \<Rightarrow> sheet \<Rightarrow> temp_dir \<Rightarrow> temp_dir \<times> sheet_outcome" where
  "process_item_png png_path sh d =
     (case sh of
        None \<Rightarrow> (d, Skipped UnreadableImage)
      | Some img \<Rightarrow>
          finish_sheet (scan_counted (\<lambda>n. extract_item_name png_path @ ''-'' @ show_nat n) (\<lambda>_. True) img
            (grid_cells [0..<grid_rows img] (grid_cols img)) \<lparr>sprite_count = 0, tmp = d\<rparr>))"

definition collect_item_sprites :: "temp_dir \<Rightarrow> (string \<times> image) list" where
  "collect_item_sprites d = sort_key fst d"

section \<open>The atlas and the run\<close>

text \<open>
  \<open>create_atlas(sprite_files)\<close>: filter by the allow-list, append the 16x16 debug tile,
  pack with the 256 floor, describe as \<open>{"spriteSize": 16, "sprites": coordinates}\<close>.
\<close>

definition create_atlas_items ::
  "nat \<times> nat \<Rightarrow> (string \<times> image) list \<Rightarrow> string set \<Rightarrow> atlas_out \<times> json" where
  "create_atlas_items text_box sprite_files allowed_sprite_names =
     (let filtered = map (\<lambda>(f, img). (py_stem f, img))
                       (allow_filter SET_THIS_TO_FALSE_TO_GET_ALL_ITEMS allowed_sprite_names sprite_files)
                     @ [(''debug'', create_debug_tile SPRITE_WIDTH SPRITE_HEIGHT)];
          out = pack_atlas (calculate_optimal_atlas_size_min SPRITE_WIDTH SPRITE_HEIGHT)
                  SPRITE_WIDTH SPRITE_HEIGHT text_box filtered
      in (out, JObj [(''spriteSize'', JInt (int SPRITE_WIDTH)), (''sprites'', coords_json (atlas_coords out))]))"

text \<open>The processing loop of \<open>main\<close>: every sheet, in sorted order, into one directory.\<close>

fun process_item_files :: "(string \<times> sheet) list \<Rightarrow> temp_dir \<Rightarrow> temp_dir \<times> sheet_outcome list" where
  "process_item_files [] d = (d, [])"
| "process_item_files ((png_file, sh) # rest) d =
     (let (d', outcome) = process_item_png png_file sh d;
          (d'', os) = process_item_files rest d'
      in (d'', outcome # os))"

datatype items_result =
    ItemsDirMissing
  | NoItemPngs
  | NoItemSprites
  | ItemsWritten atlas_out json

text \<open>
  \<open>main()\<close>: whether \<open>ITEMS_DIR\<close> exists, its \<open>*.png\<close> files with their sheets, the
  rows of items.csv (read by \<open>create_atlas\<close>), the measured watermark box.
\<close>

definition main_items :: "bool \<Rightarrow> (string \<times> sheet) list \<Rightarrow> csv_row list \<Rightarrow> nat \<times> nat \<Rightarrow> items_result" where
  "main_items items_dir_exists png_files rows text_box =
     (if \<not> items_dir_exists then ItemsDirMissing
      else if png_files = [] then NoItemPngs
      else
        (let d = fst (process_item_files (sort_key fst png_files) []);
             sprite_files = collect_item_sprites d
         in if sprite_files = [] then NoItemSprites
            else case create_atlas_items text_box sprite_files (allowed_item_names rows) of
                   (out, js) \<Rightarrow> ItemsWritten out js))"

section \<open>Lemmas\<close>

lemma inj_item_names: "inj (\<lambda>n. extract_item_name f @ ''-'' @ show_nat n)"
  by (simp add: inj_def)

lemma process_item_png_spec:
  "process_item_png f (Some img) d =
     (save_all (counted_saves (\<lambda>n. extract_item_name f @ ''-'' @ show_nat n) (\<lambda>_. True) img 0
        (grid_cells [0..<grid_rows img] (grid_cols img))) d, Processed)"
  by (simp add: process_item_png_def counted_handler_spec)

lemma process_item_opaque:
  assumes "alpha col \<noteq> 0"
  shows "process_item_png f (Some (new_image 16 16 col)) d =
           (save (extract_item_name f @ ''-0.png'') (tile_at (new_image 16 16 col) 0 0) d, Processed)"
proof -
  have g: "grid_rows (new_image 16 16 col) = 1" "grid_cols (new_image 16 16 col) = 1"
    by (simp_all add: grid_rows_def grid_cols_def TILE_SIZE_def)
  have t: "is_tile_transparent (tile_at (new_image 16 16 col) 0 0) = Inr False"
    using assms by (simp add: is_tile_transparent_new_image TILE_SIZE_def)
  show ?thesis
    using t by (simp add: process_item_png_spec g grid_cells_def counted_saves_def keeps_cell_def
        save_all_def name_eval)
qed

lemma pack_atlas_min_size:
  "MIN_ATLAS_SIZE \<le> img_w (atlas_image (pack_atlas (calculate_optimal_atlas_size_min sw sh) sw sh tb sps)) \<and>
   MIN_ATLAS_SIZE \<le> img_h (atlas_image (pack_atlas (calculate_optimal_atlas_size_min sw sh) sw sh tb sps))"
  by (simp add: pack_atlas_def calculate_optimal_atlas_size_min_def Let_def case_prod_beta place_sprites_size)

section \<open>Properties\<close>

text \<open>
  C14. \<open>process_item_png\<close> saves every non-transparent cell at row \<open>r\<close>, column \<open>c\<close> of a readable sheet as \<open>{item}-k.png\<close>, \<open>item\<close> the lower-cased stem and \<open>k = r * cols + c\<close> (the counter also counts dropped cells), and reports the sheet processed. There is no limit on the number of tiles per sheet: the twelfth cell of a 12-cell sheet is saved as \<open>amulet-11.png\<close>.
\<close>

theorem item_cell_saved:
  assumes "r < grid_rows img" "c < grid_cols img"
    and "is_tile_transparent (tile_at img r c) = Inr False"
  shows "map_of (fst (process_item_png f (Some img) d))
            (extract_item_name f @ ''-'' @ show_nat (r * grid_cols img + c) @ ''.png'') = Some (tile_at img r c) \<and>
         snd (process_item_png f (Some img) d) = Processed"
  using counted_grid_cell [OF inj_item_names [of f] _ assms(1,2,3), where a=0 and keep="\<lambda>_. True" and d=d]
  by (simp add: process_item_png_spec)

theorem item_cell_saved_witness:
  "map_of (fst (process_item_png ''Amulet.png'' (Some (new_image 192 16 debug_colour)) []))
      ''amulet-11.png'' = Some (tile_at (new_image 192 16 debug_colour) 0 11) \<and>
   snd (process_item_png ''Amulet.png'' (Some (new_image 192 16 debug_colour)) []) = Processed"
proof -
  have g: "grid_rows (new_image 192 16 debug_colour) = 1" "grid_cols (new_image 192 16 debug_colour) = 12"
    by (simp_all add: grid_rows_def grid_cols_def TILE_SIZE_def)
  have t: "is_tile_transparent (tile_at (new_image 192 16 debug_colour) 0 11) = Inr False"
    by (simp add: is_tile_transparent_new_image TILE_SIZE_def debug_colour_def alpha_def)
  have n: "extract_item_name ''Amulet.png'' = ''amulet''"
    by (simp add: extract_item_name_def py_stem_def py_lower_def lower_char_def name_eval)
  show ?thesis
    using item_cell_saved [of 0 "new_image 192 16 debug_colour" 11 "''Amulet.png''" "[]"] g t
    by (simp add: n name_eval)
qed

text \<open>
  Item names are lower-cased, so two opaque sheets whose names differ only in case save to the same file names; \<open>main\<close> processes them in sorted order, and the later one (\<open>ammo.png\<close> after \<open>Ammo.png\<close>) overwrites the earlier: last write wins.
\<close>

lemma item_names_case_collision:
  assumes "alpha a \<noteq> 0" "alpha b \<noteq> 0"
  shows "process_item_files (sort_key fst [(''ammo.png'', Some (new_image 16 16 b)),
                                          (''Ammo.png'', Some (new_image 16 16 a))]) [] =
           ([(''ammo-0.png'', tile_at (new_image 16 16 b) 0 0)], [Processed, Processed])"
proof -
  have n: "extract_item_name ''Ammo.png'' = ''ammo''" "extract_item_name ''ammo.png'' = ''ammo''"
    by (simp_all add: extract_item_name_def py_stem_def py_lower_def lower_char_def name_eval)
  have s: "sort_key fst [(''ammo.png'', Some (new_image 16 16 b)), (''Ammo.png'', Some (new_image 16 16 a))] =
           [(''Ammo.png'', Some (new_image 16 16 a)), (''ammo.png'', Some (new_image 16 16 b))]"
    by (simp add: less_eq_list_code less_eq_char_def)
  show ?thesis
    using assms by (simp add: s process_item_opaque n save_def)
qed

lemma item_names_case_collision_witness:
  "process_item_files (sort_key fst [(''ammo.png'', Some (new_image 16 16 debug_colour)),
                                    (''Ammo.png'', Some (new_image 16 16 (0, 0, 255, 255)))]) [] =
     ([(''ammo-0.png'', tile_at (new_image 16 16 debug_colour) 0 0)], [Processed, Processed])"
  using item_names_case_collision [of "(0, 0, 255, 255)" debug_colour]
  by (simp add: alpha_def debug_colour_def)

text \<open>
  C15. The item descriptor names exactly the allowed stems of the collected files plus \<open>debug\<close>, so only allow-listed names besides \<open>debug\<close>; \<open>debug\<close> sits at the slot after them, and the atlas is at least 256 pixels on both sides.
\<close>

theorem create_atlas_items_names:
  "fst ` set (atlas_coords (fst (create_atlas_items tb files A))) =
     py_stem ` fst ` set (allow_filter True A files) \<union> {''debug''} \<and>
   fst ` set (atlas_coords (fst (create_atlas_items tb files A))) \<subseteq> A \<union> {''debug''} \<and>
   map_of (atlas_coords (fst (create_atlas_items tb files A))) ''debug'' =
     Some (sprite_pos (atlas_per_row (fst (create_atlas_items tb files A))) SPRITE_WIDTH SPRITE_HEIGHT
             (length (allow_filter True A files))) \<and>
   256 \<le> img_w (atlas_image (fst (create_atlas_items tb files A))) \<and>
   256 \<le> img_h (atlas_image (fst (create_atlas_items tb files A)))"
proof -
  have allowed: "py_stem ` fst ` set (allow_filter True A files) \<subseteq> A"
    by (auto simp: allow_filter_def)
  have "fst ` set (map (\<lambda>(f, img). (py_stem f, img)) (allow_filter True A files)) =
        py_stem ` fst ` set (allow_filter True A files)"
    by force
  with allowed show ?thesis
    using pack_atlas_debug_last [where sps="map (\<lambda>(f, img). (py_stem f, img)) (allow_filter True A files)"]
      pack_atlas_min_size
    by (simp add: create_atlas_items_def Let_def SET_THIS_TO_FALSE_TO_GET_ALL_ITEMS_def MIN_ATLAS_SIZE_def) blast
qed

text \<open>
  C16. \<open>main\<close> of gen_items.py exits for a missing items directory exactly when it is absent, and returns without output exactly when the directory holds no PNG file.
\<close>

theorem main_items_exits:
  "(main_items ex pngs rows tb = ItemsDirMissing \<longleftrightarrow> \<not> ex) \<and>
   (main_items ex pngs rows tb = NoItemPngs \<longleftrightarrow> ex \<and> pngs = [])"
  by (auto simp: main_items_def Let_def split: prod.split)

end
