(* ===== verification/Characters.thy ===== *)
theory Characters
  imports Items
begin

text \<open>
  The character generator, src/art/gen_characters.py: the allow-list read from the
  \<open>appearance\<close> column of monsters.csv (comma-separated names), the name and frame
  parsed from a sheet's file name by the regular expression \<open>^(.+?)(\d+)$\<close>, the
  counted handler \<open>process_character_png\<close> (which ends in a \<open>NameError\<close>), the
  grouping of the saved tiles by \<open>collect_sprite_pairs\<close> (which can raise
  \<open>ValueError\<close>), the frame combiner \<open>create_double_width_sprite\<close>, \<open>create_atlas\<close>
  with its 32x16 sprites and the 256 floor, and \<open>main\<close>.
\<close>

section \<open>Configuration and the allow-list\<close>

definition SET_THIS_TO_FALSE_TO_GET_ALL_CHARACTERS :: bool where
  "SET_THIS_TO_FALSE_TO_GET_ALL_CHARACTERS = True"

text \<open>\<open>SPRITE_WIDTH = 32\<close> (two 16-pixel frames) and \<open>SPRITE_HEIGHT = 16\<close>.\<close>

definition SPRITE_WIDTH_characters :: nat where
  "SPRITE_WIDTH_characters = 32"

definition SPRITE_HEIGHT_characters :: nat where
  "SPRITE_HEIGHT_characters = 16"

text \<open>
  \<open>read_allowed_sprite_names_from_csv()\<close>: the stripped \<open>appearance\<close> cell, when not
  empty, split at commas, each part stripped (empty parts included).
\<close>

definition allowed_character_names :: "csv_row list \<Rightarrow> string set" where
  "allowed_character_names rows =
     (\<Union>row \<in> set rows.
        (let appearance = py_strip (csv_get row ''appearance'')
         in if appearance \<noteq> [] then set (map py_strip (split_on CHR '','' appearance)) else {}))"

section \<open>The name of a sheet\<close>

text \<open>
  \<open>re.match(r'^(.+?)(\d+)$', stem)\<close>. The lazy group takes the shortest non-empty
  prefix after which only digits remain, so the digits are the maximal trailing run (all
  but the first character when the stem is all digits). \<open>.\<close> does not match a newline,
  and \<open>$\<close> also matches before a final newline. Digits are ASCII digits.
\<close>

definition char_name_match :: "string \<Rightarrow> (string \<times> string) option" where
  "char_name_match s =
     (let core = (if s \<noteq> [] \<and> last s = CHR 0x0A then butlast s else s);
          t = length (takeWhile is_digit (rev core));
          i = max 1 (length core - t)
      in if 0 < t \<and> i < length core \<and> CHR 0x0A \<notin> set (take i core)
         then Some (take i core, drop i core) else None)"

text \<open>\<open>extract_character_name(filename)\<close>: the lower-cased name and the frame number.\<close>

definition extract_character_name :: "string \<Rightarrow> string \<times> nat" where
  "extract_character_name filename =
     (case char_name_match (py_stem filename) of
        Some (name, digits) \<Rightarrow> (py_lower name, digits_val digits)
      | None \<Rightarrow> (py_lower (py_stem filename), 0))"

section \<open>Slicing\<close>

text \<open>
  \<open>process_character_png(png_path, temp_dir)\<close>: every cell, named
  \<open>{char}-{count}-{frame}\<close>. After the loop, line 158 reads the undefined
  \<open>limit_msg\<close>: the \<open>NameError\<close> is caught by the handler's \<open>except\<close>, after all
  tiles are saved.
\<close>

definition process_character_png :: "string \<Rightarrow> sheet \<Rightarrow> temp_dir \<Rightarrow> temp_dir \<times> sheet_outcome" where
  "process_character_png png_path sh d =
     (case sh of
        None \<Rightarrow> (d, Skipped UnreadableImage)
      | Some img \<Rightarrow>
          (let (char_name, frame) = extract_character_name png_path
           in case scan_counted (\<lambda>n. char_name @ ''-'' @ show_nat n @ ''-'' @ show_nat frame) (\<lambda>_. True) img
                     (grid_cells [0..<grid_rows img] (grid_cols img)) \<lparr>sprite_count = 0, tmp = d\<rparr> of
                (None, s) \<Rightarrow> (tmp s, Skipped NameError)
              | (Some e, s) \<Rightarrow> (tmp s, Skipped e)))"

fun process_character_files :: "(string \<times> sheet) list \<Rightarrow> temp_dir \<Rightarrow> temp_dir \<times> sheet_outcome list" where
  "process_character_files [] d = (d, [])"
| "process_character_files ((png_file, sh) # rest) d =
     (let (d', outcome) = process_character_png png_file sh d;
          (d'', os) = process_character_files rest d'
      in (d'', outcome # os))"

section \<open>Grouping the frames\<close>

text \<open>
  The groups of \<open>collect_sprite_pairs\<close>: a \<open>defaultdict(list)\<close>, an association list
  in first-insertion order, each key with its \<open>(frame, image)\<close> list in append order.
\<close>

type_synonym groups = "(string \<times> (nat \<times> image) list) list"

definition group_append :: "string \<Rightarrow> nat \<times> image \<Rightarrow> groups \<Rightarrow> groups" where
  "group_append key v g =
     (case map_of g key of
        None \<Rightarrow> g @ [(key, [v])]
      | Some vs \<Rightarrow> AList.update key (vs @ [v]) g)"

text \<open>
  \<open>collect_sprite_pairs(temp_dir)\<close> over the directory listing: the stem split at
  \<open>'-'\<close>; with three parts or more, the key \<open>parts[0]-parts[1]\<close> and the frame
  \<open>int(parts[2])\<close>, whose \<open>ValueError\<close> is not caught.
\<close>

fun collect_pairs_from :: "(string \<times> image) list \<Rightarrow> groups \<Rightarrow> py_error + groups" where
  "collect_pairs_from [] g = Inr g"
| "collect_pairs_from ((sprite_file, img) # rest) g =
     (let parts = split_on CHR ''-'' (py_stem sprite_file)
      in if 3 \<le> length parts
         then (case py_int (parts ! 2) of
                 Inl e \<Rightarrow> Inl e
               | Inr frame \<Rightarrow> collect_pairs_from rest (group_append (parts ! 0 @ ''-'' @ parts ! 1) (frame, img) g))
         else collect_pairs_from rest g)"

definition collect_sprite_pairs :: "temp_dir \<Rightarrow> py_error + groups" where
  "collect_sprite_pairs d = collect_pairs_from d []"

section \<open>The frame combiner and the atlas\<close>

text \<open>
  \<open>create_double_width_sprite(frame_0, frame_1)\<close>: a clear 32x16 canvas, frame 0
  pasted at \<open>(0, 0)\<close>, frame 1 at \<open>(TILE_SIZE, 0)\<close>.
\<close>

definition create_double_width_sprite :: "image \<Rightarrow> image \<Rightarrow> image" where
  "create_double_width_sprite frame_0 frame_1 =
     paste (paste (new_image SPRITE_WIDTH_characters SPRITE_HEIGHT_characters clear_px) frame_0 0 0)
       frame_1 TILE_SIZE 0"

text \<open>
  One group of \<open>create_atlas\<close>: the frames sorted by frame number (a stable sort); two
  frames are combined in that order, one frame is combined with itself, any other count
  is dropped.
\<close>

definition combine_frames :: "(nat \<times> image) list \<Rightarrow> image option" where
  "combine_frames frames =
     (let fs = sort_key fst frames
      in if length fs = 2 then Some (create_double_width_sprite (snd (fs ! 0)) (snd (fs ! 1)))
         else if length fs = 1 then Some (create_double_width_sprite (snd (fs ! 0)) (snd (fs ! 0)))
         else None)"

definition character_sprites :: "groups \<Rightarrow> string set \<Rightarrow> (string \<times> image) list" where
  "character_sprites sprite_groups allowed_sprite_names =
     concat (map (\<lambda>(sprite_name, frames).
                    case combine_frames frames of
                      None \<Rightarrow> []
                    | Some combined \<Rightarrow>
                        if SET_THIS_TO_FALSE_TO_GET_ALL_CHARACTERS \<and> sprite_name \<notin> allowed_sprite_names
                        then [] else [(sprite_name, combined)])
               (sort_key fst sprite_groups))"

text \<open>
  \<open>create_atlas(sprite_groups)\<close>: the combined sprites in key order, the 32x16 debug
  tile, packed with the 256 floor, described as
  \<open>{"tileWidth": 32, "tileHeight": 16, "sprites": coordinates}\<close>.
\<close>

definition create_atlas_characters ::
  "nat \<times> nat \<Rightarrow> groups \<Rightarrow> string set \<Rightarrow> atlas_out \<times> json" where
  "create_atlas_characters text_box sprite_groups allowed_sprite_names =
     (let atlas_sprites = character_sprites sprite_groups allowed_sprite_names
                          @ [(''debug'', create_debug_tile SPRITE_WIDTH_characters SPRITE_HEIGHT_characters)];
          out = pack_atlas (calculate_optimal_atlas_size_min SPRITE_WIDTH_characters SPRITE_HEIGHT_characters)
                  SPRITE_WIDTH_characters SPRITE_HEIGHT_characters text_box atlas_sprites
      in (out, JObj [(''tileWidth'', JInt (int SPRITE_WIDTH_characters)),
                     (''tileHeight'', JInt (int SPRITE_HEIGHT_characters)),
                     (''sprites'', coords_json (atlas_coords out))]))"

section \<open>The run\<close>

datatype characters_result =
    CharactersDirMissing
  | NoCharacterPngs
  | CharactersCrashed py_error
  | NoSpritePairs
  | CharactersWritten atlas_out json

text \<open>
  \<open>main()\<close>: whether \<open>CHARACTERS_DIR\<close> exists, its \<open>*.png\<close> files with their sheets,
  the rows of monsters.csv, the measured watermark box. The temporary directory is listed
  in the order its files were created.
\<close>

definition main_characters ::
  "bool \<Rightarrow> (string \<times> sheet) list \<Rightarrow> csv_row list \<Rightarrow> nat \<times> nat \<Rightarrow> characters_result" where
  "main_characters characters_dir_exists png_files rows text_box =
     (if \<not> characters_dir_exists then CharactersDirMissing
      else if png_files = [] then NoCharacterPngs
      else
        (let d = fst (process_character_files (sort_key fst png_files) [])
         in case collect_sprite_pairs d of
              Inl e \<Rightarrow> CharactersCrashed e
            | Inr sprite_groups \<Rightarrow>
                if sprite_groups = [] then NoSpritePairs
                else case create_atlas_characters text_box sprite_groups (allowed_character_names rows) of
                       (out, js) \<Rightarrow> CharactersWritten out js))"

section \<open>Lemmas\<close>

lemma py_stem_png: "s \<noteq> [] \<Longrightarrow> py_stem (s @ ''.png'') = s"
  by (simp add: py_stem_def Let_def)

lemma show_nat_last_digit: "is_digit (last (show_nat k))"
  using show_nat_digits [of k] show_nat_nonempty [of k] by (simp add: list_all_iff)

lemma newline_not_digit [simp]: "\<not> is_digit (CHR 0x0A)"
  by (simp add: is_digit_def)

lemma takeWhile_digits_rev:
  "list_all is_digit ds \<Longrightarrow> (name = [] \<or> \<not> is_digit (last name)) \<Longrightarrow>
   takeWhile is_digit (rev (name @ ds)) = rev ds"
  by (cases name rule: rev_cases) (simp_all add: list_all_iff, subst takeWhile_append2, auto)

lemma char_name_match_show_nat:
  assumes "name \<noteq> []" "\<not> is_digit (last name)" "CHR 0x0A \<notin> set name"
  shows "char_name_match (name @ show_nat k) = Some (name, show_nat k)"
proof -
  have last: "last (name @ show_nat k) \<noteq> CHR 0x0A"
    using show_nat_last_digit [of k] by (auto simp: last_append)
  have core: "(if name @ show_nat k \<noteq> [] \<and> last (name @ show_nat k) = CHR 0x0A
                then butlast (name @ show_nat k) else name @ show_nat k) = name @ show_nat k"
    using last by simp
  have t: "takeWhile is_digit (rev (name @ show_nat k)) = rev (show_nat k)"
    using show_nat_digits [of k] assms(2) by (intro takeWhile_digits_rev) simp_all
  have pos: "0 < length (show_nat k)" using show_nat_nonempty [of k] by (cases "show_nat k") auto
  have i: "max 1 (length (name @ show_nat k) - length (rev (show_nat k))) = length name"
    using assms(1) by (cases name) auto
  show ?thesis
    unfolding char_name_match_def Let_def core t i
    using pos assms(1,3) by simp
qed

lemma py_strip_digits: "list_all is_digit s \<Longrightarrow> py_strip s = s"
proof -
  assume d: "list_all is_digit s"
  have sp: "\<And>c. is_digit c \<Longrightarrow> \<not> is_space c"
    by (auto simp: is_digit_def is_space_def less_eq_char_def)
  from d have "dropWhile is_space s = s" by (cases s) (auto simp: sp)
  moreover from d have "dropWhile is_space (rev s) = rev s" by (cases "rev s") (auto simp: sp list_all_iff dest: sym [THEN arg_cong [where f=set]])
  ultimately show ?thesis by (simp add: py_strip_def)
qed

lemma py_int_show_nat: "py_int (show_nat n) = Inr n"
proof -
  have s: "py_strip (show_nat n) = show_nat n" by (simp add: py_strip_digits)
  obtain c r where cr: "show_nat n = c # r" using show_nat_nonempty [of n] by (cases "show_nat n") auto
  have "is_digit c" using show_nat_digits [of n] cr by simp
  then have "c \<noteq> CHR ''+''" by (auto simp: is_digit_def)
  then have u: "(case show_nat n of [] \<Rightarrow> show_nat n
                 | c # r \<Rightarrow> if c = CHR ''+'' then r else show_nat n) = show_nat n"
    using cr by simp
  show ?thesis unfolding py_int_def Let_def s u by simp
qed

lemma process_character_png_spec:
  "process_character_png f (Some img) d =
     (save_all (counted_saves (\<lambda>n. fst (extract_character_name f) @ ''-'' @ show_nat n @ ''-'' @
                                     show_nat (snd (extract_character_name f)))
                 (\<lambda>_. True) img 0 (grid_cells [0..<grid_rows img] (grid_cols img))) d,
      Skipped NameError)"
  by (simp add: process_character_png_def scan_counted_spec case_prod_beta)

lemma inj_character_names: "inj (\<lambda>n. p @ ''-'' @ show_nat n @ q)"
  by (simp add: inj_def)

lemma hyphen_notin_show_nat [simp]: "CHR ''-'' \<notin> set (show_nat n)"
  using show_nat_digits [of n] by (auto simp: list_all_iff)

lemma split_sprite_stem:
  "CHR ''-'' \<notin> set c \<Longrightarrow>
   split_on CHR ''-'' (c @ ''-'' @ show_nat k @ ''-'' @ show_nat f) = [c, show_nat k, show_nat f]"
  by (simp add: split_on_append_delim split_on_no_delim)

lemma sprite_stem_png:
  "py_stem (c @ ''-'' @ show_nat k @ ''-'' @ show_nat f @ ''.png'') = c @ ''-'' @ show_nat k @ ''-'' @ show_nat f"
  using py_stem_png [of "c @ ''-'' @ show_nat k @ ''-'' @ show_nat f"] by simp

lemma concat_map_mem: "y \<in> set ys \<Longrightarrow> x \<in> set (f y) \<Longrightarrow> x \<in> set (concat (map f ys))"
  by auto

lemma set_character_sprites_mem:
  "(n, sp) \<in> set (character_sprites g A) \<longleftrightarrow>
   (\<exists>fr. (n, fr) \<in> set g \<and> combine_frames fr = Some sp \<and> n \<in> A)"
proof
  assume "(n, sp) \<in> set (character_sprites g A)"
  then show "\<exists>fr. (n, fr) \<in> set g \<and> combine_frames fr = Some sp \<and> n \<in> A"
    by (auto simp: character_sprites_def SET_THIS_TO_FALSE_TO_GET_ALL_CHARACTERS_def
        split: option.splits if_splits)
next
  assume "\<exists>fr. (n, fr) \<in> set g \<and> combine_frames fr = Some sp \<and> n \<in> A"
  then obtain fr where "(n, fr) \<in> set g" "combine_frames fr = Some sp" "n \<in> A" by blast
  then show "(n, sp) \<in> set (character_sprites g A)"
    unfolding character_sprites_def
    by (intro concat_map_mem [of "(n, fr)"]) (simp_all add: SET_THIS_TO_FALSE_TO_GET_ALL_CHARACTERS_def)
qed

lemma set_character_sprites:
  "fst ` set (character_sprites g A) = {n. \<exists>fr. (n, fr) \<in> set g \<and> combine_frames fr \<noteq> None} \<inter> A"
proof (intro set_eqI iffI)
  fix n assume "n \<in> fst ` set (character_sprites g A)"
  then obtain sp where "(n, sp) \<in> set (character_sprites g A)" by force
  then show "n \<in> {n. \<exists>fr. (n, fr) \<in> set g \<and> combine_frames fr \<noteq> None} \<inter> A"
    by (auto simp: set_character_sprites_mem)
next
  fix n assume "n \<in> {n. \<exists>fr. (n, fr) \<in> set g \<and> combine_frames fr \<noteq> None} \<inter> A"
  then obtain fr sp where "(n, fr) \<in> set g" "combine_frames fr = Some sp" "n \<in> A" by auto
  then have "(n, sp) \<in> set (character_sprites g A)" by (auto simp: set_character_sprites_mem)
  then show "n \<in> fst ` set (character_sprites g A)" by force
qed

lemma collect_pairs_from_bad:
  assumes "(f, t) \<in> set d" "3 \<le> length (split_on CHR ''-'' (py_stem f))"
    and "isl (py_int (split_on CHR ''-'' (py_stem f) ! 2))"
  shows "collect_pairs_from d g = Inl ValueError"
  using assms(1)
proof (induction d arbitrary: g)
  case Nil
  then show ?case by simp
next
  case (Cons x rest)
  obtain f' t' where x: "x = (f', t')" by (cases x)
  let ?p = "split_on CHR ''-'' (py_stem f')"
  show ?case
  proof (cases "3 \<le> length ?p \<and> isl (py_int (?p ! 2))")
    case True
    then obtain e where "py_int (?p ! 2) = Inl e" by (cases "py_int (?p ! 2)") auto
    with True py_int_error [of "?p ! 2" e] show ?thesis by (simp add: x)
  next
    case False
    with Cons.prems x assms(2,3) have "(f, t) \<in> set rest" by auto
    then show ?thesis
      using False Cons.IH by (auto simp: x Let_def split: sum.split)
  qed
qed

lemma process_character_png_dom:
  "dom (map_of d) \<subseteq> dom (map_of (fst (process_character_png f sh d)))"
proof (cases sh)
  case None
  then show ?thesis by (simp add: process_character_png_def)
next
  case (Some img)
  then show ?thesis by (auto simp: process_character_png_spec map_of_save_all)
qed

lemma process_character_files_dom:
  "dom (map_of d) \<subseteq> dom (map_of (fst (process_character_files ps d)))"
proof (induction ps arbitrary: d)
  case Nil
  then show ?case by simp
next
  case (Cons p ps)
  obtain a b where p: "p = (a, b)" by (cases p)
  have "dom (map_of d) \<subseteq> dom (map_of (fst (process_character_png a b d)))"
    by (rule process_character_png_dom)
  also have "\<dots> \<subseteq> dom (map_of (fst (process_character_files ps (fst (process_character_png a b d)))))"
    by (rule Cons.IH)
  finally show ?case by (simp add: p Let_def case_prod_beta)
qed

lemma process_character_files_key:
  assumes "(f, sh) \<in> set ps" "\<And>d. key \<in> dom (map_of (fst (process_character_png f sh d)))"
  shows "key \<in> dom (map_of (fst (process_character_files ps d)))"
  using assms(1)
proof (induction ps arbitrary: d)
  case Nil
  then show ?case by simp
next
  case (Cons p ps)
  obtain f' sh' where p: "p = (f', sh')" by (cases p)
  show ?case
  proof (cases "p = (f, sh)")
    case True
    then show ?thesis
      using assms(2) [of d] process_character_files_dom [of "fst (process_character_png f sh d)" ps]
      by (auto simp: Let_def case_prod_beta)
  next
    case False
    with Cons.prems have "(f, sh) \<in> set ps" by simp
    then have "key \<in> dom (map_of (fst (process_character_files ps (fst (process_character_png f' sh' d)))))"
      by (rule Cons.IH)
    then show ?thesis by (simp add: p Let_def case_prod_beta)
  qed
qed

section \<open>Properties\<close>

text \<open>
  C17. Round trip of sheet names: for a name that is not empty, does not end in a digit and has no newline, \<open>extract_character_name\<close> of \<open>name{k}.png\<close> gives back the lower-cased name and the frame number \<open>k\<close>.
\<close>

theorem extract_character_name_roundtrip:
  assumes "name \<noteq> []" "\<not> is_digit (last name)" "CHR 0x0A \<notin> set name"
  shows "extract_character_name (name @ show_nat k @ ''.png'') = (py_lower name, k)"
proof -
  have "py_stem ((name @ show_nat k) @ ''.png'') = name @ show_nat k"
    using assms(1) by (intro py_stem_png) simp
  then show ?thesis
    using char_name_match_show_nat [OF assms, of k]
    by (simp add: extract_character_name_def)
qed

theorem extract_character_name_roundtrip_witness:
  "extract_character_name ''Player12.png'' = (''player'', 12)"
proof -
  have "extract_character_name (''Player'' @ show_nat 12 @ ''.png'') = (py_lower ''Player'', 12)"
    by (rule extract_character_name_roundtrip) (simp_all add: is_digit_def)
  then show ?thesis by (simp add: name_eval py_lower_def lower_char_def)
qed

text \<open>
  C18. \<open>process_character_png\<close> saves every non-transparent cell of a readable sheet as \<open>{char}-{k}-{frame}.png\<close> with \<open>k = r * cols + c\<close>, and then always reports the sheet as failed with the \<open>NameError\<close> of the undefined \<open>limit_msg\<close>: the tiles are kept although the sheet is reported as an error.
\<close>

theorem character_cell_saved_name_error:
  assumes "r < grid_rows img" "c < grid_cols img"
    and "is_tile_transparent (tile_at img r c) = Inr False"
    and "extract_character_name f = (char_name, frame)"
  shows "map_of (fst (process_character_png f (Some img) d))
            (char_name @ ''-'' @ show_nat (r * grid_cols img + c) @ ''-'' @ show_nat frame @ ''.png'') =
           Some (tile_at img r c) \<and>
         snd (process_character_png f (Some img) d) = Skipped NameError"
  using counted_grid_cell [OF inj_character_names [of char_name "''-'' @ show_nat frame"] _ assms(1,2,3),
      where a=0 and keep="\<lambda>_. True" and d=d] assms(4)
  by (simp add: process_character_png_spec)

theorem character_cell_saved_name_error_witness:
  "map_of (fst (process_character_png ''Rat0.png'' (Some (new_image 16 16 debug_colour)) []))
      ''rat-0-0.png'' = Some (tile_at (new_image 16 16 debug_colour) 0 0) \<and>
   snd (process_character_png ''Rat0.png'' (Some (new_image 16 16 debug_colour)) []) = Skipped NameError"
proof -
  have g: "grid_rows (new_image 16 16 debug_colour) = 1" "grid_cols (new_image 16 16 debug_colour) = 1"
    by (simp_all add: grid_rows_def grid_cols_def TILE_SIZE_def)
  have t: "is_tile_transparent (tile_at (new_image 16 16 debug_colour) 0 0) = Inr False"
    by (simp add: is_tile_transparent_new_image TILE_SIZE_def debug_colour_def alpha_def)
  have n: "extract_character_name ''Rat0.png'' = (''rat'', 0)"
    by (simp add: extract_character_name_def char_name_match_def py_stem_def py_lower_def
        lower_char_def is_digit_def digits_val_def digit_val_def name_eval)
  show ?thesis
    using character_cell_saved_name_error [of 0 "new_image 16 16 debug_colour" 0 "''Rat0.png''" "''rat''" 0 "[]"] g t n
    by (simp add: name_eval)
qed

text \<open>
  C19. The frame combiner: for two 16x16 frames the composite is 32x16, its left half is frame 0 pixel for pixel and its right half is frame 1.
\<close>

theorem double_width_halves:
  assumes "img_w a = TILE_SIZE" "img_h a = TILE_SIZE" "img_w b = TILE_SIZE" "img_h b = TILE_SIZE"
    and "x < 2 * TILE_SIZE" "y < TILE_SIZE"
  shows "img_w (create_double_width_sprite a b) = 32 \<and> img_h (create_double_width_sprite a b) = 16 \<and>
         px (create_double_width_sprite a b) x y = (if x < TILE_SIZE then px a x y else px b (x - TILE_SIZE) y)"
  using assms
  by (auto simp: create_double_width_sprite_def paste_def TILE_SIZE_def SPRITE_WIDTH_characters_def
      SPRITE_HEIGHT_characters_def)

theorem double_width_halves_witness:
  "img_w (create_double_width_sprite (new_image 16 16 debug_colour) (new_image 16 16 clear_px)) = 32 \<and>
   img_h (create_double_width_sprite (new_image 16 16 debug_colour) (new_image 16 16 clear_px)) = 16 \<and>
   px (create_double_width_sprite (new_image 16 16 debug_colour) (new_image 16 16 clear_px)) 5 3 = debug_colour \<and>
   px (create_double_width_sprite (new_image 16 16 debug_colour) (new_image 16 16 clear_px)) 20 3 = clear_px"
  using double_width_halves [of "new_image 16 16 debug_colour" "new_image 16 16 clear_px" 5 3]
    double_width_halves [of "new_image 16 16 debug_colour" "new_image 16 16 clear_px" 20 3]
  by (simp add: TILE_SIZE_def)

text \<open>
  C20. A group of two frames is combined in ascending frame order whatever order it was collected in, a single frame fills both halves, and exactly the groups with other frame counts are dropped.
\<close>

theorem combine_frames_order:
  assumes "fst f0 < fst f1"
  shows "combine_frames [f0, f1] = Some (create_double_width_sprite (snd f0) (snd f1)) \<and>
         combine_frames [f1, f0] = Some (create_double_width_sprite (snd f0) (snd f1)) \<and>
         combine_frames [f0] = Some (create_double_width_sprite (snd f0) (snd f0)) \<and>
         (combine_frames fs = None \<longleftrightarrow> length fs \<notin> {1, 2})"
  using assms by (auto simp: combine_frames_def Let_def)

theorem combine_frames_order_witness:
  "combine_frames [(1, new_image 16 16 clear_px), (0, new_image 16 16 debug_colour)] =
     Some (create_double_width_sprite (new_image 16 16 debug_colour) (new_image 16 16 clear_px)) \<and>
   combine_frames [(0, new_image 16 16 debug_colour), (1, new_image 16 16 clear_px)] =
     Some (create_double_width_sprite (new_image 16 16 debug_colour) (new_image 16 16 clear_px)) \<and>
   combine_frames [(0::nat, new_image 16 16 debug_colour)] =
     Some (create_double_width_sprite (new_image 16 16 debug_colour) (new_image 16 16 debug_colour)) \<and>
   combine_frames [] = None"
  using combine_frames_order [of "(0, new_image 16 16 debug_colour)" "(1, new_image 16 16 clear_px)" "[]"]
  by simp

text \<open>
  C21. Round trip of tile names: the files \<open>{c}-{k}-{f0}.png\<close> and \<open>{c}-{k}-{f1}.png\<close> written by \<open>process_character_png\<close> for a name without hyphen are grouped by \<open>collect_sprite_pairs\<close> under \<open>{c}-{k}\<close> with their frame numbers read back.
\<close>

theorem collect_sprite_pairs_roundtrip:
  assumes "CHR ''-'' \<notin> set c"
  shows "collect_sprite_pairs
           [(c @ ''-'' @ show_nat k @ ''-'' @ show_nat f0 @ ''.png'', a),
            (c @ ''-'' @ show_nat k @ ''-'' @ show_nat f1 @ ''.png'', b)] =
         Inr [(c @ ''-'' @ show_nat k, [(f0, a), (f1, b)])]"
  using assms
  by (simp add: collect_sprite_pairs_def sprite_stem_png split_sprite_stem py_int_show_nat
      group_append_def Let_def del: append_Cons)

theorem collect_sprite_pairs_roundtrip_witness:
  "collect_sprite_pairs [(''rat-3-0.png'', new_image 16 16 clear_px), (''rat-3-1.png'', new_image 16 16 debug_colour)] =
     Inr [(''rat-3'', [(0, new_image 16 16 clear_px), (1, new_image 16 16 debug_colour)])]"
  using collect_sprite_pairs_roundtrip [of "''rat''" 3 0 "new_image 16 16 clear_px" 1 "new_image 16 16 debug_colour"]
  by (simp add: name_eval)

text \<open>
  C22. The character descriptor names exactly the allow-listed groups that have one or two frames, plus \<open>debug\<close> at the slot after them, on an atlas of at least 256 pixels on both sides.
\<close>

theorem create_atlas_characters_names:
  "fst ` set (atlas_coords (fst (create_atlas_characters tb g A))) =
     {n. \<exists>fr. (n, fr) \<in> set g \<and> combine_frames fr \<noteq> None} \<inter> A \<union> {''debug''} \<and>
   map_of (atlas_coords (fst (create_atlas_characters tb g A))) ''debug'' =
     Some (sprite_pos (atlas_per_row (fst (create_atlas_characters tb g A)))
             SPRITE_WIDTH_characters SPRITE_HEIGHT_characters (length (character_sprites g A))) \<and>
   256 \<le> img_w (atlas_image (fst (create_atlas_characters tb g A))) \<and>
   256 \<le> img_h (atlas_image (fst (create_atlas_characters tb g A)))"
  using pack_atlas_debug_last [where sps="character_sprites g A"] pack_atlas_min_size set_character_sprites
  by (simp add: create_atlas_characters_def Let_def MIN_ATLAS_SIZE_def)

text \<open>
  C23. \<open>main\<close> of gen_characters.py exits for a missing characters directory exactly when it is absent, and returns without output exactly when the directory holds no PNG file.
\<close>

theorem main_characters_exits:
  "(main_characters ex pngs rows tb = CharactersDirMissing \<longleftrightarrow> \<not> ex) \<and>
   (main_characters ex pngs rows tb = NoCharacterPngs \<longleftrightarrow> ex \<and> pngs = [])"
  by (auto simp: main_characters_def Let_def split: prod.split sum.split)

text \<open>
  C24. A character sheet with an opaque cell whose lower-cased name has a third
  hyphen-separated part that is not an integer (such as \<open>a-b-c0.png\<close>) crashes the
  run: its tile \<open>{name}-{count}-{frame}.png\<close> stays in the temporary directory whatever
  the other sheets save, \<open>collect_sprite_pairs\<close> reads \<open>int()\<close> of that part, and the
  \<open>ValueError\<close> is not caught.
\<close>

theorem main_characters_hyphen_crash:
  assumes sheet: "(f, Some img) \<in> set pngs"
    and cell: "r < grid_rows img" "c < grid_cols img" "is_tile_transparent (tile_at img r c) = Inr False"
    and parts: "3 \<le> length (split_on CHR ''-'' (fst (extract_character_name f)))"
      "isl (py_int (split_on CHR ''-'' (fst (extract_character_name f)) ! 2))"
  shows "main_characters True pngs rows tb = CharactersCrashed ValueError"
proof -
  let ?n = "fst (extract_character_name f)" and ?fr = "snd (extract_character_name f)"
  let ?nm = "\<lambda>k. ?n @ ''-'' @ show_nat k @ ''-'' @ show_nat ?fr"
  let ?k = "(r - 0) * grid_cols img + c"
  let ?key = "?nm ?k @ ''.png''"
  have saved: "?key \<in> dom (map_of (fst (process_character_png f (Some img) d)))" for d
  proof -
    have "map_of (save_all (counted_saves ?nm (\<lambda>_. True) img 0 (grid_cells [0..<grid_rows img] (grid_cols img))) d)
            ?key = Some (tile_at img r c)"
      using counted_grid_cell [OF inj_character_names [of ?n "''-'' @ show_nat ?fr"] _ cell(1) cell(2) cell(3),
          where a=0 and keep="\<lambda>_. True" and d=d]
      by simp
    then show ?thesis by (simp add: process_character_png_spec domI)
  qed
  have "(f, Some img) \<in> set (sort_key fst pngs)" using sheet by simp
  then have "?key \<in> dom (map_of (fst (process_character_files (sort_key fst pngs) [])))"
    using saved by (rule process_character_files_key)
  then obtain t where t: "(?key, t) \<in> set (fst (process_character_files (sort_key fst pngs) []))"
    by (auto dest: map_of_SomeD)
  have stem: "py_stem ?key = ?nm ?k" using sprite_stem_png [of ?n ?k ?fr] by simp
  have sp: "split_on CHR ''-'' (?nm ?k) = split_on CHR ''-'' ?n @ [show_nat ?k, show_nat ?fr]"
    by (simp add: split_on_delim_append split_on_no_delim)
  have "collect_sprite_pairs (fst (process_character_files (sort_key fst pngs) [])) = Inl ValueError"
    unfolding collect_sprite_pairs_def
  proof (rule collect_pairs_from_bad [OF t])
    show "3 \<le> length (split_on CHR ''-'' (py_stem ?key))"
      unfolding stem sp using parts(1) by simp
    show "isl (py_int (split_on CHR ''-'' (py_stem ?key) ! 2))"
      unfolding stem sp using parts by (simp add: nth_append)
  qed
  moreover have "pngs \<noteq> []" using sheet by auto
  ultimately show ?thesis by (simp add: main_characters_def)
qed

theorem main_characters_hyphen_crash_witness:
  "main_characters True [(''a-b-c0.png'', Some (new_image 16 16 debug_colour))] [] (0, 0) = CharactersCrashed ValueError"
proof -
  have g: "grid_rows (new_image 16 16 debug_colour) = 1" "grid_cols (new_image 16 16 debug_colour) = 1"
    by (simp_all add: grid_rows_def grid_cols_def TILE_SIZE_def)
  have t: "is_tile_transparent (tile_at (new_image 16 16 debug_colour) 0 0) = Inr False"
    by (simp add: is_tile_transparent_new_image TILE_SIZE_def debug_colour_def alpha_def)
  have n: "extract_character_name ''a-b-c0.png'' = (''a-b-c'', 0)"
    by (simp add: extract_character_name_def char_name_match_def py_stem_def py_lower_def
        lower_char_def is_digit_def digits_val_def digit_val_def name_eval)
  have p: "split_on CHR ''-'' ''a-b-c'' = [''a'', ''b'', ''c'']" "isl (py_int ''c'')"
    by (simp_all add: py_int_def py_strip_def is_space_def is_digit_def)
  show ?thesis
    using main_characters_hyphen_crash [of "''a-b-c0.png''" "new_image 16 16 debug_colour"
        "[(''a-b-c0.png'', Some (new_image 16 16 debug_colour))]" 0 0 "[]" "(0, 0)"] g t n p
    by simp
qed

end
