(* ===== verification/UI.thy ===== *)
theory UI
  imports Atlas
begin

text \<open>
  The UI generator, src/art/gen_ui.py: \<open>GUI0.png\<close> pasted 1:1 into the upper left of a
  clear 512x512 canvas, then watermarked by \<open>add_watermark\<close> with the same layout as
  the atlases (eight black outline draws, then the white text). Text rendering is an
  external collaborator: a draw is its origin and colour, the text box is an input.
\<close>

section \<open>Definitions\<close>

definition MARGIN :: int where
  "MARGIN = 4"

definition TARGET_SIZE :: "nat \<times> nat" where
  "TARGET_SIZE = (512, 512)"

text \<open>\<open>add_watermark(image, text)\<close>: the image unchanged and the text draws.\<close>

definition add_watermark :: "image \<Rightarrow> nat \<times> nat \<Rightarrow> image \<times> (int \<times> int \<times> rgba) list" where
  "add_watermark img text_box =
     (let x = int (img_w img) - int (fst text_box) - MARGIN;
          y = int (img_h img) - int (snd text_box) - MARGIN
      in (img,
          [(x + dx, y + dy, (0, 0, 0, 255)). dx \<leftarrow> [-1, 0, 1], dy \<leftarrow> [-1, 0, 1], dx \<noteq> 0 \<or> dy \<noteq> 0]
          @ [(x, y, (255, 255, 255, 255))]))"

datatype ui_result =
    UiSourceMissing
  | UiCrashed py_error
  | UiWritten image "(int \<times> int \<times> rgba) list"

text \<open>
  \<open>main()\<close>: a missing source returns without output; an undecodable one raises out of
  \<open>Image.open\<close> (not caught); otherwise the canvas and its watermark are written.
\<close>

definition ui_main :: "bool \<Rightarrow> sheet \<Rightarrow> nat \<times> nat \<Rightarrow> ui_result" where
  "ui_main src_exists src text_box =
     (if \<not> src_exists then UiSourceMissing
      else case src of
             None \<Rightarrow> UiCrashed UnreadableImage
           | Some img \<Rightarrow>
               (let canvas = paste (new_image (fst TARGET_SIZE) (snd TARGET_SIZE) clear_px) img 0 0;
                    (canvas', draws) = add_watermark canvas text_box
                in UiWritten canvas' draws))"

section \<open>Properties\<close>

text \<open>
  C25. The UI canvas is 512x512; inside the source image (and the canvas) each pixel is
  the source's, everywhere else it is clear; the watermark is laid out for 512x512.
\<close>

theorem ui_canvas:
  "ui_main True (Some img) tb =
     UiWritten (new_image 512 512 clear_px\<lparr>px := \<lambda>x y.
                  if x < min (img_w img) 512 \<and> y < min (img_h img) 512 then px img x y else clear_px\<rparr>)
               (watermark_draws 512 512 tb)"
  by (simp add: ui_main_def add_watermark_def watermark_draws_def TARGET_SIZE_def paste_def
      new_image_def MARGIN_def WATERMARK_MARGIN_def Let_def fun_eq_iff)

text \<open>
  The UI watermark is the atlas watermark: \<open>add_watermark\<close> of gen_ui.py leaves the
  image as it is and draws what \<open>create_atlas\<close> draws for an atlas of the image's size.
\<close>

lemma add_watermark_eq_atlas:
  "add_watermark img tb = (img, watermark_draws (img_w img) (img_h img) tb)"
  by (simp add: add_watermark_def watermark_draws_def MARGIN_def WATERMARK_MARGIN_def Let_def)

end
