(* ===== verification/Spec2Isabelle.thy ===== *)
theory Spec2Isabelle
  imports Characters UI
begin

text \<open>
  \<^bold>\<open>The DawnLike asset pipeline, verified.\<close>
  The repository's generators (src/art/gen_world.py, gen_items.py, gen_characters.py and
  gen_ui.py) slice 16-pixel tile sheets, drop mostly transparent cells, name the kept ones
  (by pattern tables for wall/floor blocks, by a running counter elsewhere), save them to a
  temporary directory, filter them by a used-name set or a CSV allow-list, and pack them
  with a debug tile into a power-of-two atlas with a JSON descriptor and a watermark. This
  development is a shallow embedding of that code: every operation is an executable HOL
  function, an exception is a value of \<open>py_error\<close>, a loop is a recursive function.

  \<^bold>\<open>Theories and what they model.\<close>
  \<^item> Prelude: images (\<open>image\<close> record of 8-bit RGBA pixels), the temporary directory
    (\<open>temp_dir\<close>, an association list; \<open>save\<close> is \<open>AList.update\<close>, so a second save
    overwrites), \<open>py_error\<close>, and the Python string helpers the names need (\<open>str(n)\<close> as
    \<open>show_nat\<close>, \<open>int()\<close> as \<open>py_int\<close>, \<open>strip\<close>, \<open>lower\<close>, \<open>split('-')\<close>).
  \<^item> Slicer: \<open>is_tile_transparent\<close> (the exact rational ratio against 1/10, with the
    division by zero of an empty tile), the crop of a cell, the row-major grid and the
    counted scan \<open>scan_counted\<close> shared by every counter-named handler, with its reference
    description \<open>counted_saves\<close>.
  \<^item> Patterns: \<open>process_floor_wall_png\<close> of gen_world.py: block selection (first 7 blocks,
    used-name test), the wall/floor tag tables and the block loop.
  \<^item> Atlas: \<open>calculate_optimal_atlas_size\<close> (exact integer \<open>ceil(sqrt n)\<close>,
    \<open>next_power_of_2\<close> via \<open>bit_length\<close>), its 256-floored variant of gen_items.py and
    gen_characters.py, \<open>paste\<close>, the placement loop and the watermark layout.
  \<^item> World: the other handlers of gen_world.py, \<open>collect_world_sprites\<close>, \<open>create_atlas\<close>
    and \<open>main\<close> (\<open>main_world\<close>) with its exits.
  \<^item> Items: gen_items.py (\<open>extract_item_name\<close>, \<open>process_item_png\<close>, the allow-list
    filter, \<open>create_atlas_items\<close>, \<open>main_items\<close>).
  \<^item> Characters: gen_characters.py (the regex name parse, \<open>process_character_png\<close> with its
    \<open>NameError\<close>, \<open>collect_sprite_pairs\<close> with its \<open>ValueError\<close>, the frame combiner,
    \<open>create_atlas_characters\<close>, \<open>main_characters\<close>).
  \<^item> UI: gen_ui.py (the 512x512 canvas and \<open>add_watermark\<close>).
  \<^item> This theory: the directory invariant \<open>temp_dir_ok\<close>, its preservation by every
    handler, and the end-to-end property of the world run.

  \<^bold>\<open>How the parts interact.\<close> Each \<open>main\<close> is a function of its inputs: whether the
  source directory exists, the source sheets (\<open>sheet = image option\<close>, \<open>None\<close> for a
  file PIL cannot decode), the used-name set or the parsed CSV rows, and the measured text
  box of the watermark. The handlers thread one \<open>temp_dir\<close> in the order \<open>main\<close>
  calls them; each returns a \<open>sheet_outcome\<close> (\<open>Processed\<close> or \<open>Skipped e\<close>, the
  caught exception). The collected directory feeds \<open>create_atlas\<close>, whose \<open>pack_atlas\<close>
  returns the canvas, the coordinates (an association list, last write wins) and the
  watermark draws; the descriptor is a \<open>json\<close> value.

  \<^bold>\<open>What is proved.\<close> C1-C5 the wall/floor classifier: every saved file is a
  tagged, opaque cell of a selected block (C1) and every such cell is saved under its
  name (C2), the block loop is equal to the reference list \<open>block_cell_saves\<close>, a sheet
  of fewer than six rows yields nothing (C3, the spec's 112x48 example), block cells lie in
  the grid (C4), and a tile type without a table saves nothing (C5). C6-C10 the packer:
  every slot lies inside the canvas (C6), the size is the least power of two holding the
  raw grid with the real \<open>ceil(sqrt n)\<close> sprites per row (C7), the coordinates are the
  last placement of each name (C8), every sprite's pixels appear at its slot (C9), and
  \<open>next_power_of_2\<close> is the least power of two above its argument (C10). C11-C13 the
  world run (decor naming, descriptor names, exits); C14-C16 the items run (every opaque
  cell saved with no per-sheet limit, descriptor names, exits); C17-C24 the characters run
  (round trips of both name formats, the \<open>NameError\<close> after saving, the frame combiner
  halves and order, the descriptor, the exits, and the uncaught \<open>ValueError\<close> of a
  hyphenated name); C25 the UI canvas. Across the generators: the directory invariant
  \<open>temp_dir_ok\<close> (distinct \<open>.png\<close> names with non-empty stems, 16x16 tiles) is kept by
  every handler (C26), and end to end an opaque used ground cell reaches the world atlas
  at the slot its descriptor names (C27), which needs the non-interference of the later
  handlers (World), the invariant (this theory) and the uniqueness of names in the packer
  (Atlas).

  \<^bold>\<open>Bounds.\<close> Python floats are modelled exactly: \<open>math.sqrt\<close>/\<open>math.ceil\<close> by the
  integer ceiling square root (exact while the sprite count is below 2^52, far above any
  sheet), the transparency ratio by a rational (a 16x16 cell has 256 pixels, so the float
  and the rational agree on every comparison with 0.1). Python ints that can be negative
  (the watermark origin, \<open>rows - 1\<close>) are \<open>int\<close>. No loop needs fuel: every loop is over a
  finite list of cells, blocks or files.

  \<^bold>\<open>Not modelled.\<close> Pure I/O and external collaborators: \<open>find_project_root\<close> and
  \<open>change_to_project_root\<close> (directory search), \<open>ensure_output_directory\<close>, PNG
  decoding/encoding (a sheet is given decoded, \<open>None\<close> when undecodable), font rendering
  (the text box is an input, a draw is an origin and a colour), \<open>csv.DictReader\<close> (rows
  are given parsed), the regex scan of map_renderer.gd in \<open>extract_used_tile_names\<close> (the
  used-name set is an input), printing, and the order in which the operating system lists a
  directory (the temporary directory is listed in creation order). \<open>str.lower\<close>,
  \<open>\d\<close> and \<open>int()\<close> are modelled on ASCII only.
\<close>

text \<open>
  The temporary directory every handler writes to, as \<open>main\<close> later reads it: distinct
  file names (a second save overwrites), each a non-empty stem followed by \<open>.png\<close> (so
  \<open>glob("*.png")\<close> lists every file, and the stem identifies the file), and each image a
  16x16 tile.
\<close>

definition png_name :: "string \<Rightarrow> bool" where
  "png_name f \<longleftrightarrow> 4 < length f \<and> drop (length f - 4) f = ''.png''"

definition temp_dir_ok :: "temp_dir \<Rightarrow> bool" where
  "temp_dir_ok d \<longleftrightarrow>
     distinct (map fst d) \<and> (\<forall>(f, t) \<in> set d. png_name f \<and> img_w t = TILE_SIZE \<and> img_h t = TILE_SIZE)"

section \<open>Lemmas\<close>

lemma png_name_append [simp]: "png_name (xs @ ''.png'') \<longleftrightarrow> xs \<noteq> []"
  by (cases xs) (auto simp: png_name_def)

lemma png_name_Cons_png [simp]: "png_name (c # xs @ ''.png'')"
  using png_name_append [of "c # xs"] by simp

lemma png_name_Cons [simp]: "png_name ys \<Longrightarrow> png_name (c # ys)"
proof -
  assume p: "png_name ys"
  then have "length ys - 3 = Suc (length ys - 4)" unfolding png_name_def by linarith
  with p show ?thesis by (simp add: png_name_def)
qed

lemma png_name_append_right [simp]: "png_name ys \<Longrightarrow> png_name (xs @ ys)"
  by (auto simp: png_name_def)

lemma png_name_stem: "png_name f \<Longrightarrow> py_stem f @ ''.png'' = f"
proof -
  assume p: "png_name f"
  then have f: "f = take (length f - 4) f @ ''.png''" and ne: "take (length f - 4) f \<noteq> []"
    unfolding png_name_def by (metis append_take_drop_id, auto)
  have "py_stem (take (length f - 4) f @ ''.png'') = take (length f - 4) f"
    using ne by (rule py_stem_png)
  then show ?thesis using f by simp
qed

lemma png_name_stem_inj: "png_name f \<Longrightarrow> png_name g \<Longrightarrow> py_stem f = py_stem g \<Longrightarrow> f = g"
  by (metis png_name_stem)

lemma temp_dir_ok_save:
  "temp_dir_ok d \<Longrightarrow> png_name fn \<Longrightarrow> img_w t = TILE_SIZE \<Longrightarrow> img_h t = TILE_SIZE \<Longrightarrow> temp_dir_ok (save fn t d)"
  using set_update_subset [of fn t d] unfolding temp_dir_ok_def save_def
  by (auto simp: distinct_update)

lemma temp_dir_ok_save_all:
  "temp_dir_ok d \<Longrightarrow> \<forall>(f, t) \<in> set xs. png_name f \<and> img_w t = TILE_SIZE \<and> img_h t = TILE_SIZE \<Longrightarrow>
   temp_dir_ok (save_all xs d)"
  by (induction xs arbitrary: d) (auto simp: save_all_def temp_dir_ok_save)

lemma temp_dir_ok_scan_block:
  "temp_dir_ok d \<Longrightarrow> temp_dir_ok (snd (scan_block bn pm img rows cols brow bcol ls d))"
  by (induction bn pm img rows cols brow bcol ls d rule: scan_block.induct)
     (auto simp: Let_def temp_dir_ok_save split: sum.split bool.split option.split)

lemma temp_dir_ok_scan_blocks:
  "temp_dir_ok d \<Longrightarrow> temp_dir_ok (snd (scan_blocks tt pm img rows cols bpr bs d))"
proof (induction tt pm img rows cols bpr bs d rule: scan_blocks.induct)
  case (1 tile_type pm img rows cols blocks_per_row d)
  then show ?case by simp
next
  case (2 tile_type pm img rows cols blocks_per_row block_idx bs d)
  let ?bn = "tile_type @ ''-'' @ show_nat (block_idx + 1)" and ?pm = "block_pattern_map tile_type pm"
  obtain e d' where sb: "scan_block ?bn ?pm img rows cols (block_row blocks_per_row block_idx)
                           (block_col blocks_per_row block_idx) local_cells d = (e, d')"
    by fastforce
  have "temp_dir_ok (snd (scan_block ?bn ?pm img rows cols (block_row blocks_per_row block_idx)
                           (block_col blocks_per_row block_idx) local_cells d))"
    using "2.prems" by (rule temp_dir_ok_scan_block)
  then have ok: "temp_dir_ok d'" using sb by simp
  show ?case
  proof (cases e)
    case None
    with "2.IH" [OF refl refl sb [unfolded None, symmetric] refl ok] sb show ?thesis by (simp add: Let_def)
  next
    case (Some err)
    with sb ok show ?thesis by (simp add: Let_def)
  qed
qed

lemma temp_dir_ok_finish:
  "temp_dir_ok d \<Longrightarrow> (\<And>k. nm k \<noteq> []) \<Longrightarrow>
   temp_dir_ok (fst (finish_sheet (scan_counted nm keep img cs \<lparr>sprite_count = c, tmp = d\<rparr>)))"
  by (auto simp: scan_counted_spec finish_sheet_def counted_saves_def intro!: temp_dir_ok_save_all)

lemma temp_dir_ok_floor_wall: "temp_dir_ok d \<Longrightarrow> temp_dir_ok (fst (process_floor_wall_png sh d tt used))"
proof (cases sh)
  case None
  assume "temp_dir_ok d"
  with None show ?thesis by (simp add: process_floor_wall_png_def)
next
  case (Some img)
  assume ok: "temp_dir_ok d"
  obtain blocks pm where sel: "select_blocks tt used (total_blocks (grid_rows img) (grid_cols img)) = (blocks, pm)"
    by fastforce
  obtain e d' where sb: "scan_blocks tt pm img (grid_rows img) (grid_cols img) (grid_cols img div 7) blocks d = (e, d')"
    by fastforce
  have "temp_dir_ok (snd (scan_blocks tt pm img (grid_rows img) (grid_cols img) (grid_cols img div 7) blocks d))"
    using ok by (rule temp_dir_ok_scan_blocks)
  then have "temp_dir_ok d'" by (simp add: sb)
  then show ?thesis by (cases e) (simp_all add: process_floor_wall_png_def Some sel sb Let_def)
qed

lemma temp_dir_ok_world_file: "temp_dir_ok d \<Longrightarrow> temp_dir_ok (fst (process_world_file used tt sh d))"
  by (cases sh) (simp_all add: process_world_file_def process_ground_png_def process_decor_png_def
      process_tile_png_def process_doors_png_def temp_dir_ok_finish temp_dir_ok_floor_wall)

lemma temp_dir_ok_world_files: "temp_dir_ok d \<Longrightarrow> temp_dir_ok (fst (process_world_files used fs files d))"
proof (induction files arbitrary: d)
  case Nil
  then show ?case by simp
next
  case (Cons x rest)
  then show ?case by (cases x) (simp add: Let_def case_prod_beta temp_dir_ok_world_file)
qed





lemma distinct_stems:
  "distinct (map fst xs) \<Longrightarrow> \<forall>(f, t) \<in> set xs. png_name f \<Longrightarrow>
   distinct (map fst (map (\<lambda>(f, img). (py_stem f, img)) xs))"
proof -
  assume d: "distinct (map fst xs)" and p: "\<forall>(f, t) \<in> set xs. png_name f"
  have inj: "inj_on py_stem (set (map fst xs))"
    using p by (auto intro!: inj_onI png_name_stem_inj)
  have "distinct (map py_stem (map fst xs))"
    using distinct_map [of py_stem "map fst xs"] d inj by blast
  moreover have "map fst (map (\<lambda>(f, img). (py_stem f, img)) xs) = map py_stem (map fst xs)"
    by (induction xs) auto
  ultimately show ?thesis by (simp only:)
qed

text \<open>
  The two allow-list readers disagree on comma-separated cells: monsters.csv
  \<open>appearance\<close> cells are split at commas and stripped, items.csv \<open>sprite\<close> cells are
  taken whole.
\<close>

lemma allow_list_comma_divergence:
  "allowed_character_names [(\<lambda>c. if c = ''appearance'' then Some '' rat, bat '' else None)] = {''rat'', ''bat''} \<and>
   allowed_item_names [(\<lambda>c. if c = ''sprite'' then Some '' sword, axe '' else None)] = {''sword, axe''}"
  by (simp add: allowed_character_names_def allowed_item_names_def csv_get_def py_strip_def is_space_def)

section \<open>Properties across the generators\<close>



text \<open>
  C27. End to end, gen_world.py: when every required sheet is present, an opaque cell of
  a readable \<open>Ground0.png\<close> whose name \<open>ground-k\<close> is used survives the six later
  handlers (their names have other prefixes), the collection, the used-name filter and the
  packing: \<open>main\<close> writes the atlas and the descriptor \<open>{"tileSize": 16, "sprites": ...}\<close>,
  the descriptor gives \<open>ground-k\<close> a slot, and the atlas holds the cell's pixels there.
\<close>

theorem main_world_ground_sprite:
  assumes present: "\<forall>f \<in> fst ` set world_files. fs f \<noteq> None"
    and ground: "fs ''Ground0.png'' = Some (Some img)"
    and cell: "r < grid_rows img" "c < grid_cols img" "is_tile_transparent (tile_at img r c) = Inr False"
    and used: "used_keep used (''ground-'' @ show_nat (r * grid_cols img + c))"
    and ab: "a < 16" "b < 16"
  shows "\<exists>out x y. main_world True fs used tb =
            Written out (JObj [(''tileSize'', JInt 16), (''sprites'', coords_json (atlas_coords out))]) \<and>
          map_of (atlas_coords out) (''ground-'' @ show_nat (r * grid_cols img + c)) = Some (x, y) \<and>
          px (atlas_image out) (x + a) (y + b) = px (tile_at img r c) a b"
proof -
  let ?n = "''ground-'' @ show_nat (r * grid_cols img + c)"
  let ?t = "tile_at img r c"
  let ?D = "fst (process_world_files used fs world_files [])"
  let ?F = "world_filter used (collect_world_sprites ?D)"
  let ?S = "map (\<lambda>(f, img). (py_stem f, img)) ?F"
  let ?sps = "?S @ [(''debug'', create_debug_tile SPRITE_WIDTH SPRITE_HEIGHT)]"
  let ?out = "pack_atlas (calculate_optimal_atlas_size SPRITE_WIDTH SPRITE_HEIGHT) SPRITE_WIDTH SPRITE_HEIGHT tb ?sps"
  have ok: "temp_dir_ok ?D" by (rule temp_dir_ok_world_files) (simp add: temp_dir_ok_def)
  have "map_of ?D (?n @ ''.png'') = Some ?t" using world_run_ground_cell [where fs=fs and img=img and r=r and c=c and used=used, OF ground cell] by simp
  then have key: "(?n @ ''.png'', ?t) \<in> set ?D" by (rule map_of_SomeD)
  have stem: "py_stem (?n @ ''.png'') = ?n" by (rule py_stem_png) simp
  have "(?n @ ''.png'', ?t) \<in> set ?F"
    using key used by (simp add: world_filter_def collect_world_sprites_def stem [simplified])
  then obtain j where j: "j < length ?F" "?F ! j = (?n @ ''.png'', ?t)" by (auto simp: in_set_conv_nth)
  have Fok: "\<forall>(f, t) \<in> set ?F. png_name f \<and> img_w t = 16 \<and> img_h t = 16"
    using ok by (auto simp: temp_dir_ok_def world_filter_def collect_world_sprites_def TILE_SIZE_def)
  have "distinct (map fst (collect_world_sprites ?D))"
    using ok by (simp add: temp_dir_ok_def collect_world_sprites_def sort_key_fst_distinct)
  then have "distinct (map fst ?F)" by (simp add: world_filter_def distinct_map_filter)
  then have Sd: "distinct (map fst ?S)" using Fok by (intro distinct_stems) auto
  have Sj: "?S ! j = (?n, ?t)" using j by (simp add: stem [simplified])
  have jS: "j < length ?S" using j by simp
  have uniq: "i = j" if i: "i < length ?sps" "fst (?sps ! i) = ?n" for i
  proof (cases "i < length ?S")
    case True
    then have eq: "map fst ?S ! i = map fst ?S ! j" using i Sj jS by (simp add: nth_append)
    have l: "i < length (map fst ?S)" "j < length (map fst ?S)" using True jS by simp_all
    show ?thesis using nth_eq_iff_index_eq [OF Sd l] eq by blast
  next
    case False
    with i have "i = length ?S" by simp
    with i show ?thesis by (simp add: nth_append)
  qed
  have sizes: "\<forall>(nm, sp) \<in> set ?sps. img_w sp = SPRITE_WIDTH \<and> img_h sp = SPRITE_HEIGHT"
    using Fok by (auto simp: create_debug_tile_def SPRITE_WIDTH_def SPRITE_HEIGHT_def)
  have at: "map_of (atlas_coords ?out) ?n = Some (sprite_pos (atlas_per_row ?out) SPRITE_WIDTH SPRITE_HEIGHT j) \<and>
            px (atlas_image ?out) (fst (sprite_pos (atlas_per_row ?out) SPRITE_WIDTH SPRITE_HEIGHT j) + a)
              (snd (sprite_pos (atlas_per_row ?out) SPRITE_WIDTH SPRITE_HEIGHT j) + b) = px ?t a b"
    by (rule pack_atlas_unique_sprite [OF size_fits_world sizes])
       (use jS Sj uniq ab in \<open>simp_all add: nth_append SPRITE_WIDTH_def SPRITE_HEIGHT_def\<close>)
  have miss: "[filename. (filename, _) \<leftarrow> world_files, fs filename = None] = []"
    using present by (simp add: world_files_def)
  have "set (collect_world_sprites ?D) = set ?D" by (simp add: collect_world_sprites_def set_sort)
  with key have ne: "collect_world_sprites ?D \<noteq> []" by force
  have "main_world True fs used tb =
          Written ?out (JObj [(''tileSize'', JInt 16), (''sprites'', coords_json (atlas_coords ?out))])"
    using ne unfolding main_world_def Let_def miss
    by (simp add: create_atlas_world_def Let_def SPRITE_WIDTH_def)
  with at show ?thesis by (intro exI conjI) auto
qed

theorem main_world_ground_sprite_witness:
  "\<exists>out x y. main_world True ground_only None (0, 0) =
      Written out (JObj [(''tileSize'', JInt 16), (''sprites'', coords_json (atlas_coords out))]) \<and>
    map_of (atlas_coords out) ''ground-0'' = Some (x, y) \<and>
    px (atlas_image out) (x + 3) (y + 5) = debug_colour"
proof -
  have g: "grid_rows (new_image 16 16 debug_colour) = 1" "grid_cols (new_image 16 16 debug_colour) = 1"
    by (simp_all add: grid_rows_def grid_cols_def TILE_SIZE_def)
  have t: "is_tile_transparent (tile_at (new_image 16 16 debug_colour) 0 0) = Inr False"
    by (simp add: is_tile_transparent_new_image TILE_SIZE_def debug_colour_def alpha_def)
  have p: "\<forall>f \<in> fst ` set world_files. ground_only f \<noteq> None"
    by (simp add: world_files_def ground_only_def)
  have px: "px (tile_at (new_image 16 16 debug_colour) 0 0) 3 5 = debug_colour"
    by (simp add: tile_at_def crop_def TILE_SIZE_def Let_def)
  show ?thesis
    using main_world_ground_sprite [of ground_only "new_image 16 16 debug_colour" 0 0 None 3 5 "(0, 0)"]
      p g t px
    by (simp add: ground_only_def used_keep_def name_eval)
qed

end
